(* ===== verification/Prelude.thy ===== *)
theory Prelude
  imports Main "HOL-Library.AList" "HOL-Library.Multiset" "HOL-Library.Char_ord" "HOL-Library.List_Lexorder"
begin

text \<open>
  The vocabulary shared by every component of the agent.

  \<^item> Go maps are association lists with distinct keys; the law-only view of them is the
    locale \<open>go_map\<close>, interpreted here on the association lists the models compute with.
  \<^item> Instants and durations are integers counting nanoseconds; the zero \<open>time.Time\<close> is 0.
  \<^item> A Go function that can panic returns an \<open>outcome\<close>; one that returns only an
    \<open>error\<close> returns an \<open>option\<close>, with \<open>None\<close> for \<open>nil\<close>.
  \<^item> Code outside the repository acts on an abstract world \<open>'w\<close> that is passed along.
\<close>

named_theorems gomap \<open>reading a Go map after writing it\<close>
named_theorems inv_intro \<open>preservation of the component invariants\<close>

section \<open>Types\<close>

type_synonym time = int
type_synonym duration = int
type_synonym ('k, 'v) gomap = "('k \<times> 'v) list"

datatype 'a outcome = Ret 'a | Panic string

abbreviation Second :: duration where "Second \<equiv> 1000000000"
abbreviation Millisecond :: duration where "Millisecond \<equiv> 1000000"
abbreviation Minute :: duration where "Minute \<equiv> 60 * Second"
abbreviation Hour :: duration where "Hour \<equiv> 60 * Minute"

abbreviation mget :: "('k, 'v) gomap \<Rightarrow> 'k \<Rightarrow> 'v option" where "mget \<equiv> map_of"
abbreviation mput :: "'k \<Rightarrow> 'v \<Rightarrow> ('k, 'v) gomap \<Rightarrow> ('k, 'v) gomap" where "mput \<equiv> AList.update"
abbreviation mdel :: "'k \<Rightarrow> ('k, 'v) gomap \<Rightarrow> ('k, 'v) gomap" where "mdel \<equiv> AList.delete"
abbreviation mkeys :: "('k, 'v) gomap \<Rightarrow> 'k list" where "mkeys \<equiv> map fst"
abbreviation mwf :: "('k, 'v) gomap \<Rightarrow> bool" where "mwf m \<equiv> distinct (mkeys m)"
abbreviation mhas :: "('k, 'v) gomap \<Rightarrow> 'k \<Rightarrow> bool" where "mhas m k \<equiv> mget m k \<noteq> None"

section \<open>The contract of a Go map\<close>

text \<open>What the loops of the agent rely on when they build and read a \<open>map[K]V\<close>.\<close>

locale go_map =
  fixes empty :: 'm
    and get :: "'m \<Rightarrow> 'k \<Rightarrow> 'v option"
    and put :: "'k \<Rightarrow> 'v \<Rightarrow> 'm \<Rightarrow> 'm"
    and del :: "'k \<Rightarrow> 'm \<Rightarrow> 'm"
    and keys :: "'m \<Rightarrow> 'k list"
    and wf :: "'m \<Rightarrow> bool"
  assumes get_empty: "get empty k = None"
    and get_put: "get (put k v m) k' = (if k' = k then Some v else get m k')"
    and get_del: "wf m \<Longrightarrow> get (del k m) k' = (if k' = k then None else get m k')"
    and wf_empty: "wf empty"
    and wf_put: "wf m \<Longrightarrow> wf (put k v m)"
    and wf_del: "wf m \<Longrightarrow> wf (del k m)"
    and set_keys: "set (keys m) = {k. get m k \<noteq> None}"
    and distinct_keys: "wf m \<Longrightarrow> distinct (keys m)"
begin

lemma keys_put: "set (keys (put k v m)) = insert k (set (keys m))"
  by (auto simp: set_keys get_put)

lemma keys_del: "wf m \<Longrightarrow> set (keys (del k m)) = set (keys m) - {k}"
  by (auto simp: set_keys get_del)

lemma len_put:
  assumes "wf m"
  shows "length (keys (put k v m)) = (if get m k = None then Suc (length (keys m)) else length (keys m))"
proof -
  have "card (set (keys (put k v m))) = (if get m k = None then Suc (card (set (keys m))) else card (set (keys m)))"
    unfolding keys_put by (simp only: card_insert_if finite_set) (simp add: set_keys)
  then show ?thesis
    using assms by (simp add: distinct_card distinct_keys wf_put)
qed

lemma len_del:
  assumes "wf m" "get m k \<noteq> None"
  shows "Suc (length (keys (del k m))) = length (keys m)"
proof -
  have "k \<in> set (keys m)" using assms(2) by (simp add: set_keys)
  then have "Suc (card (set (keys (del k m)))) = card (set (keys m))"
    unfolding keys_del[OF assms(1)] by (simp only: card_Suc_Diff1 finite_set)
  then show ?thesis
    using assms(1) by (simp add: distinct_card distinct_keys wf_del)
qed

lemma get_build:
  "get (fold (\<lambda>x. put (f x) (g x)) xs m) k =
     (case map_of (rev (map (\<lambda>x. (f x, g x)) xs)) k of None \<Rightarrow> get m k | Some v \<Rightarrow> Some v)"
  by (induction xs arbitrary: m) (auto simp: get_put map_add_def split: option.splits)

lemma wf_build: "wf m \<Longrightarrow> wf (fold (\<lambda>x. put (f x) (g x)) xs m)"
  by (induction xs arbitrary: m) (auto simp: wf_put)

lemma has_build:
  "get (fold (\<lambda>x. put (f x) (g x)) xs m) k \<noteq> None \<longleftrightarrow> k \<in> f ` set xs \<or> get m k \<noteq> None"
  by (induction xs arbitrary: m) (auto simp: get_put)

lemma get_build_in:
  assumes "x \<in> set xs" "inj_on f (set xs)"
  shows "get (fold (\<lambda>x. put (f x) (g x)) xs m) (f x) = Some (g x)"
  using assms
proof (induction xs arbitrary: m)
  case (Cons y ys)
  show ?case
  proof (cases "x \<in> set ys")
    case True
    then show ?thesis using Cons by simp
  next
    case False
    then have eq: "x = y" using Cons.prems by simp
    then have "f y \<notin> f ` set ys" using Cons.prems False by (auto simp: inj_on_def)
    then have "map_of (rev (map (\<lambda>x. (f x, g x)) ys)) (f y) = None"
      by (auto simp: map_of_eq_None_iff image_image)
    then show ?thesis using eq by (simp add: get_build get_put)
  qed
qed simp

end

interpretation gm: go_map "[]" map_of AList.update AList.delete "map fst" "\<lambda>m. distinct (map fst m)"
proof unfold_locales
  show "set (map fst m) = {k. map_of m k \<noteq> None}" for m :: "('a \<times> 'b) list"
    using map_of_eq_None_iff[of m] by auto
qed (simp_all add: AList.update_conv' AList.delete_conv' AList.distinct_update AList.distinct_delete)

lemmas [gomap] = gm.get_put gm.get_del gm.keys_put gm.keys_del
lemmas [inv_intro] = gm.wf_put gm.wf_del gm.wf_build
declare gm.get_put [simp]

lemma mlen_put: "mwf m \<Longrightarrow> length (mput k v m) = (if mhas m k then length m else Suc (length m))"
  using gm.len_put[of m k v] by auto

lemma mlen_del: "mwf m \<Longrightarrow> mhas m k \<Longrightarrow> Suc (length (mdel k m)) = length m"
  using gm.len_del[of m k] by simp

lemma mdel_absent: "\<not> mhas m k \<Longrightarrow> mdel k m = m"
  by (induction m) (auto split: if_splits)

lemma mlen_del_le: "length (mdel k m) \<le> length m"
  by (induction m) auto

section \<open>Lists and options\<close>

lemma fold_append_filter:
  "fold (\<lambda>x acc. if P x then acc @ [f x] else acc) xs acc = acc @ map f (filter P xs)"
  by (induction xs arbitrary: acc) auto

lemma list_all_map_of:
  "mwf m \<Longrightarrow> list_all (\<lambda>(k, v). P k v) m \<longleftrightarrow> (\<forall>k v. mget m k = Some v \<longrightarrow> P k v)"
  by (fastforce simp: list_all_iff dest: map_of_SomeD)

lemma sort_eq_iff_mset: "sort xs = sort ys \<longleftrightarrow> mset xs = mset ys" for xs ys :: "'a::linorder list"
proof
  assume "sort xs = sort ys"
  then have "mset (sort xs) = mset (sort ys)" by simp
  then show "mset xs = mset ys" by simp
next
  assume "mset xs = mset ys"
  then show "sort xs = sort ys" by (intro properties_for_sort) simp_all
qed

end
