(* ===== verification/GoLib.thy ===== *)
theory GoLib
  imports Prelude
begin

text \<open>
  The parts of the Go standard library that the agent computes with: \<open>strings\<close>,
  \<open>strconv.Atoi\<close> and \<open>strconv.Itoa\<close>, the line splitting of \<open>bufio.Scanner\<close>, 64-bit
  wrap-around, and the standard padded Base64 encoding.  A Go string and a byte slice are both
  byte strings, that is \<open>char list\<close>s.
\<close>

section \<open>Machine integers\<close>

definition wrap64 :: "int \<Rightarrow> int" where
  "wrap64 n = (n + 2 ^ 63) mod 2 ^ 64 - 2 ^ 63"

definition is_int64 :: "int \<Rightarrow> bool" where
  "is_int64 n \<longleftrightarrow> - (2 ^ 63) \<le> n \<and> n < 2 ^ 63"

lemma wrap64_id: "is_int64 n \<Longrightarrow> wrap64 n = n"
  by (simp add: wrap64_def is_int64_def)

lemma wrap64_range: "is_int64 (wrap64 n)"
  by (simp add: wrap64_def is_int64_def)

section \<open>strings\<close>

definition HasPrefix :: "string \<Rightarrow> string \<Rightarrow> bool" where
  "HasPrefix s p \<longleftrightarrow> take (length p) s = p"

definition HasSuffix :: "string \<Rightarrow> string \<Rightarrow> bool" where
  "HasSuffix s p \<longleftrightarrow> length p \<le> length s \<and> drop (length s - length p) s = p"

definition TrimPrefix :: "string \<Rightarrow> string \<Rightarrow> string" where
  "TrimPrefix s p = (if HasPrefix s p then drop (length p) s else s)"

text \<open>\<open>strings.Cut\<close> for a separator of one byte.\<close>

definition Cut :: "string \<Rightarrow> char \<Rightarrow> string \<times> string \<times> bool" where
  "Cut s c = (if c \<in> set s then (takeWhile (\<lambda>x. x \<noteq> c) s, tl (dropWhile (\<lambda>x. x \<noteq> c) s), True)
              else (s, [], False))"

fun Join :: "string list \<Rightarrow> string \<Rightarrow> string" where
  "Join [] sep = []"
| "Join [x] sep = x"
| "Join (x # y # xs) sep = x @ sep @ Join (y # xs) sep"

fun Split :: "string \<Rightarrow> char \<Rightarrow> string list" where
  "Split [] c = [[]]"
| "Split (x # xs) c =
     (if x = c then [] # Split xs c
      else case Split xs c of [] \<Rightarrow> [[x]] | y # ys \<Rightarrow> (x # y) # ys)"

definition is_space :: "char \<Rightarrow> bool" where
  "is_space c \<longleftrightarrow> c \<in> set [CHR 0x20, CHR 0x09, CHR 0x0A, CHR 0x0B, CHR 0x0C, CHR 0x0D]"

text \<open>\<open>strings.TrimSpace\<close> on ASCII input.\<close>

definition TrimSpace :: "string \<Rightarrow> string" where
  "TrimSpace s = rev (dropWhile is_space (rev (dropWhile is_space s)))"

lemma HasPrefix_append [simp]: "HasPrefix (p @ s) p"
  by (simp add: HasPrefix_def)

lemma HasPrefix_iff: "HasPrefix s p \<longleftrightarrow> (\<exists>t. s = p @ t)"
  by (metis HasPrefix_append HasPrefix_def append_take_drop_id)

lemma TrimPrefix_append [simp]: "TrimPrefix (p @ s) p = s"
  by (simp add: TrimPrefix_def)

lemma Cut_append: "c \<notin> set a \<Longrightarrow> Cut (a @ c # b) c = (a, b, True)"
proof -
  assume c: "c \<notin> set a"
  then have "takeWhile (\<lambda>x. x \<noteq> c) a = a" "dropWhile (\<lambda>x. x \<noteq> c) a = []"
    by (auto simp: takeWhile_eq_all_conv dropWhile_eq_Nil_conv)
  then show ?thesis using c by (auto simp: Cut_def)
qed

lemma Split_nonempty: "Split s c \<noteq> []"
  by (cases s) (auto split: list.splits)

lemma Join_Split: "Join (Split s c) [c] = s"
proof (induction s)
  case (Cons x xs)
  then show ?case
    using Split_nonempty[of xs c] by (cases "Split xs c"; cases "tl (Split xs c)") auto
qed simp

lemma Split_no_sep: "l \<in> set (Split s c) \<Longrightarrow> c \<notin> set l"
  by (induction s arbitrary: l) (auto split: if_splits list.splits)

lemma Split_chars: "l \<in> set (Split s c) \<Longrightarrow> set l \<subseteq> set s"
proof (induction s arbitrary: l)
  case (Cons x xs)
  then show ?case
    using Split_nonempty[of xs c] by (cases "Split xs c") (fastforce split: if_splits)+
qed simp

section \<open>Collecting errors\<close>

text \<open>A loop that collects the errors of its steps.\<close>

fun collect_errs :: "('x \<Rightarrow> 's \<Rightarrow> string option \<times> 's) \<Rightarrow> 'x list \<Rightarrow> string list \<times> 's \<Rightarrow> string list \<times> 's" where
  "collect_errs f [] (errs, s) = (errs, s)"
| "collect_errs f (x # xs) (errs, s) =
     (case f x s of
        (Some err, s') \<Rightarrow> collect_errs f xs (errs @ [err], s')
      | (None, s') \<Rightarrow> collect_errs f xs (errs, s'))"

definition errors_Join :: "string list \<Rightarrow> string option" where
  "errors_Join errs = (if errs = [] then None else Some (Join errs [CHR 0x0A]))"

lemma collect_errs_mono: "collect_errs f xs (errs, s) = (es, s') \<Longrightarrow> \<exists>zs. es = errs @ zs"
  by (induction xs arbitrary: errs s) (fastforce split: prod.splits option.splits)+

lemma collect_errs_ok:
  assumes "collect_errs f (x # xs) (errs, s) = (errs, s')"
  obtains s1 where "f x s = (None, s1)" "collect_errs f xs (errs, s1) = (errs, s')"
proof (cases "f x s")
  case (Pair e s1)
  show ?thesis
  proof (cases e)
    case None
    then show ?thesis using assms Pair that by simp
  next
    case (Some err)
    then have "collect_errs f xs (errs @ [err], s1) = (errs, s')" using assms Pair by simp
    then have False using collect_errs_mono by fastforce
    then show ?thesis ..
  qed
qed

section \<open>strconv\<close>

definition digit_char :: "nat \<Rightarrow> char" where
  "digit_char d = char_of (48 + d)"

definition digit_val :: "char \<Rightarrow> nat option" where
  "digit_val c = (let n = of_char c :: nat in if 48 \<le> n \<and> n \<le> 57 then Some (n - 48) else None)"

fun nat_digits :: "nat \<Rightarrow> string" where
  "nat_digits n = (if n < 10 then [digit_char n] else nat_digits (n div 10) @ [digit_char (n mod 10)])"

declare nat_digits.simps [simp del]

definition Itoa :: "int \<Rightarrow> string" where
  "Itoa n = (if n < 0 then CHR ''-'' # nat_digits (nat (- n)) else nat_digits (nat n))"

fun parse_digits :: "nat \<Rightarrow> string \<Rightarrow> nat option" where
  "parse_digits acc [] = Some acc"
| "parse_digits acc (c # cs) =
     (case digit_val c of None \<Rightarrow> None | Some d \<Rightarrow> parse_digits (acc * 10 + d) cs)"

definition parse_uint :: "string \<Rightarrow> nat option" where
  "parse_uint s = (if s = [] then None else parse_digits 0 s)"

definition Atoi :: "string \<Rightarrow> int option" where
  "Atoi s =
     (let (neg, ds) = (case s of [] \<Rightarrow> (False, [])
            | c # cs \<Rightarrow> if c = CHR ''-'' then (True, cs) else if c = CHR ''+'' then (False, cs) else (False, s))
      in case parse_uint ds of
           None \<Rightarrow> None
         | Some n \<Rightarrow> let v = (if neg then - int n else int n) in if is_int64 v then Some v else None)"

lemma digit_val_char: "d < 10 \<Longrightarrow> digit_val (digit_char d) = Some d"
  by (simp add: digit_val_def digit_char_def Let_def)

lemma parse_digits_append:
  "parse_digits acc (xs @ ys) = (case parse_digits acc xs of None \<Rightarrow> None | Some n \<Rightarrow> parse_digits n ys)"
  by (induction xs arbitrary: acc) (auto split: option.splits)

lemma parse_nat_digits: "parse_digits 0 (nat_digits n) = Some n"
proof (induction n rule: nat_digits.induct)
  case (1 n)
  then show ?case
    by (subst nat_digits.simps) (auto simp: digit_val_char parse_digits_append)
qed

lemma nat_digits_nonempty: "nat_digits n \<noteq> []"
  by (subst nat_digits.simps) simp

lemma nat_digits_digits: "c \<in> set (nat_digits n) \<Longrightarrow> digit_val c \<noteq> None"
proof (induction n rule: nat_digits.induct)
  case (1 n)
  then show ?case
    by (subst (asm) nat_digits.simps) (auto simp: digit_val_char split: if_splits)
qed

lemma hd_nat_digits: "nat_digits n = c # cs \<Longrightarrow> c \<noteq> CHR ''-'' \<and> c \<noteq> CHR ''+''"
  using nat_digits_digits[of c n] by (auto simp: digit_val_def)

text \<open>Parsing a printed 64-bit integer gives it back.\<close>

lemma Atoi_digits:
  assumes "is_int64 (int n)"
  shows "Atoi (nat_digits n) = Some (int n)"
proof -
  obtain c cs where ds: "nat_digits n = c # cs" using nat_digits_nonempty[of n] by (cases "nat_digits n") auto
  have "parse_uint (nat_digits n) = Some n"
    using nat_digits_nonempty by (simp add: parse_uint_def parse_nat_digits)
  then show ?thesis using hd_nat_digits[OF ds] assms by (simp add: Atoi_def ds)
qed

lemma Atoi_Itoa:
  assumes "is_int64 n"
  shows "Atoi (Itoa n) = Some n"
proof (cases "n < 0")
  case True
  have "parse_uint (nat_digits (nat (- n))) = Some (nat (- n))"
    using nat_digits_nonempty by (simp add: parse_uint_def parse_nat_digits)
  then show ?thesis using True assms by (simp add: Atoi_def Itoa_def)
next
  case False
  then show ?thesis using Atoi_digits[of "nat n"] assms by (simp add: Itoa_def)
qed

lemma nat_digits_inj: "nat_digits m = nat_digits n \<Longrightarrow> m = n"
  by (metis option.inject parse_nat_digits)

section \<open>bufio.Scanner with ScanLines\<close>

fun raw_lines :: "string \<Rightarrow> string \<Rightarrow> string list" where
  "raw_lines acc [] = (if acc = [] then [] else [rev acc])"
| "raw_lines acc (c # cs) = (if c = CHR 0x0A then rev acc # raw_lines [] cs else raw_lines (c # acc) cs)"

definition dropCR :: "string \<Rightarrow> string" where
  "dropCR l = (if l \<noteq> [] \<and> last l = CHR 0x0D then butlast l else l)"

text \<open>
  The buffer of the scanner holds at most 65536 bytes: a longer line ends the scan.
\<close>

definition ScanLines :: "string \<Rightarrow> string list" where
  "ScanLines s = map dropCR (takeWhile (\<lambda>l. length l \<le> 65535) (raw_lines [] s))"

lemma raw_lines_line:
  "CHR 0x0A \<notin> set l \<Longrightarrow> raw_lines acc (l @ CHR 0x0A # s) = (rev acc @ l) # raw_lines [] s"
  by (induction l arbitrary: acc) auto

lemma ScanLines_line:
  assumes "CHR 0x0A \<notin> set l" "CHR 0x0D \<notin> set l" "length l \<le> 65535"
  shows "ScanLines (l @ CHR 0x0A # s) = l # ScanLines s"
proof -
  have "dropCR l = l" using assms(2) last_in_set[of l] unfolding dropCR_def by metis
  then show ?thesis using assms(1,3) by (simp add: ScanLines_def raw_lines_line)
qed

section \<open>base64.StdEncoding\<close>

definition b64_alphabet :: string where
  "b64_alphabet = ''ABCDEFGHIJKLMNOPQRSTUVWXYZabcdefghijklmnopqrstuvwxyz0123456789+/''"

definition b64_char :: "nat \<Rightarrow> char" where
  "b64_char i = b64_alphabet ! i"

definition b64_val :: "char \<Rightarrow> nat option" where
  "b64_val c = (case List.find (\<lambda>i. b64_alphabet ! i = c) [0..<64] of None \<Rightarrow> None | Some i \<Rightarrow> Some i)"

abbreviation byte :: "char \<Rightarrow> nat" where "byte c \<equiv> of_char c"

fun EncodeToString :: "string \<Rightarrow> string" where
  "EncodeToString [] = []"
| "EncodeToString [a] =
     [b64_char (byte a div 4), b64_char (byte a mod 4 * 16), CHR ''='', CHR ''='']"
| "EncodeToString [a, b] =
     [b64_char (byte a div 4), b64_char (byte a mod 4 * 16 + byte b div 16),
      b64_char (byte b mod 16 * 4), CHR ''='']"
| "EncodeToString (a # b # c # rest) =
     b64_char (byte a div 4) # b64_char (byte a mod 4 * 16 + byte b div 16) #
     b64_char (byte b mod 16 * 4 + byte c div 64) # b64_char (byte c mod 64) # EncodeToString rest"

text \<open>The decoder skips carriage returns and line feeds, and ignores the unused trailing bits.\<close>

fun b64_quanta :: "string \<Rightarrow> string option" where
  "b64_quanta [] = Some []"
| "b64_quanta (p # q # r # s # rest) =
     (case (b64_val p, b64_val q) of
        (Some a, Some b) \<Rightarrow>
          (if r = CHR ''='' then
             (if s = CHR ''='' \<and> rest = [] then Some [char_of (a * 4 + b div 16)] else None)
           else case b64_val r of
             None \<Rightarrow> None
           | Some c \<Rightarrow>
               if s = CHR ''='' then
                 (if rest = [] then Some [char_of (a * 4 + b div 16), char_of (b mod 16 * 16 + c div 4)] else None)
               else case b64_val s of
                 None \<Rightarrow> None
               | Some d \<Rightarrow>
                   map_option (\<lambda>t. char_of (a * 4 + b div 16) # char_of (b mod 16 * 16 + c div 4) #
                     char_of (c mod 4 * 64 + d) # t) (b64_quanta rest))
      | _ \<Rightarrow> None)"
| "b64_quanta _ = None"

definition DecodeString :: "string \<Rightarrow> string option" where
  "DecodeString s = b64_quanta (filter (\<lambda>c. c \<noteq> CHR 0x0A \<and> c \<noteq> CHR 0x0D) s)"

lemma b64_val_char_all: "list_all (\<lambda>i. b64_val (b64_char i) = Some i \<and>
    b64_char i \<notin> {CHR ''='', CHR 0x0A, CHR 0x0D}) [0..<64]"
  by code_simp

lemma b64_val_char: "i < 64 \<Longrightarrow> b64_val (b64_char i) = Some i"
  and b64_char_neq: "i < 64 \<Longrightarrow> b64_char i \<noteq> CHR ''=''" "i < 64 \<Longrightarrow> b64_char i \<noteq> CHR 0x0A"
    "i < 64 \<Longrightarrow> b64_char i \<noteq> CHR 0x0D"
  using b64_val_char_all by (auto simp: list_all_iff)

lemma byte_less [simp]: "byte c < 256"
  by (rule nat_of_char_less_256)

lemma b64_range:
  "byte a div 4 < 64" "byte a mod 4 * 16 + byte b div 16 < 64" "byte b mod 16 * 4 + byte c div 64 < 64"
  "byte a mod 4 * 16 < 64" "byte b mod 16 * 4 < 64" "byte c mod 64 < 64"
  using byte_less[of a] byte_less[of b] byte_less[of c] by linarith+

lemma b64_clean: "filter (\<lambda>c. c \<noteq> CHR 0x0A \<and> c \<noteq> CHR 0x0D) (EncodeToString bs) = EncodeToString bs"
  by (induction bs rule: EncodeToString.induct) (simp_all add: b64_char_neq b64_range)

lemma byte_parts:
  "byte c div 16 div 16 = 0" "byte c div 16 mod 16 = byte c div 16"
  "byte c div 64 div 4 = 0" "byte c div 64 mod 4 = byte c div 64"
proof -
  have "byte c div 16 < 16" "byte c div 64 < 4" using byte_less[of c] by linarith+
  then show "byte c div 16 div 16 = 0" "byte c div 16 mod 16 = byte c div 16"
    "byte c div 64 div 4 = 0" "byte c div 64 mod 4 = byte c div 64" by simp_all
qed

lemma b64_quanta_encode: "b64_quanta (EncodeToString bs) = Some bs"
  by (induction bs rule: EncodeToString.induct)
     (simp_all add: b64_val_char b64_char_neq b64_range byte_parts)

lemma DecodeString_EncodeToString: "DecodeString (EncodeToString bs) = Some bs"
  by (simp add: DecodeString_def b64_clean b64_quanta_encode)

lemma EncodeToString_inj: "EncodeToString a = EncodeToString b \<Longrightarrow> a = b"
  by (metis DecodeString_EncodeToString option.inject)

lemma TrimSpace_id: "\<forall>c \<in> set s. \<not> is_space c \<Longrightarrow> TrimSpace s = s"
proof -
  assume a: "\<forall>c \<in> set s. \<not> is_space c"
  have d: "dropWhile is_space xs = xs" if "\<forall>c \<in> set xs. \<not> is_space c" for xs
    using that by (cases xs) auto
  have "dropWhile is_space s = s" "dropWhile is_space (rev s) = rev s" using d [of s] d [of "rev s"] a by simp_all
  then show ?thesis unfolding TrimSpace_def by simp
qed

lemma b64_not_space_all: "list_all (\<lambda>i. \<not> is_space (b64_char i)) [0..<64]"
  by code_simp

lemma b64_not_space: "i < 64 \<Longrightarrow> \<not> is_space (b64_char i)"
  using b64_not_space_all by (auto simp: list_all_iff)

lemma TrimSpace_EncodeToString: "TrimSpace (EncodeToString bs) = EncodeToString bs"
proof (rule TrimSpace_id)
  have "\<not> is_space (CHR ''='')" by code_simp
  then show "\<forall>c \<in> set (EncodeToString bs). \<not> is_space c"
    by (induction bs rule: EncodeToString.induct) (simp_all add: b64_not_space b64_range)
qed

end
