(* ===== verification/Reconnect.thy ===== *)
theory Reconnect
  imports Complex_Main GoLib
begin

text \<open>
  Reconnection of the event stream: the HTTP errors of \<open>internal/api/errors.go\<close>, and the
  classification, backoff, rate limiting and polling fallback of \<open>internal/api/reconnect.go\<close>.

  The connection, the poll, the clock, the context and the random source act on a world \<open>'w\<close>.
  Floating-point results are rationals rounded by a parameter \<open>fl\<close>; the laws of IEEE
  arithmetic that matter here are named hypotheses of the theorem that needs them.
\<close>

section \<open>errors.go\<close>

record APIError =
  ae_StatusCode :: int
  ae_Message :: string
  ae_RetryAfter :: duration

text \<open>An error value: an API error, an error that wraps another one, or any other error.\<close>

datatype go_error = Api APIError | Wrap string go_error | Plain string

definition APIError_Error :: "APIError \<Rightarrow> string" where
  "APIError_Error e = ''api: HTTP '' @ Itoa (ae_StatusCode e) @ '': '' @ ae_Message e"

definition APIError_Is :: "APIError \<Rightarrow> APIError \<Rightarrow> bool" where
  "APIError_Is e t =
     (if ae_StatusCode t = 500 \<and> ae_StatusCode e \<ge> 500 \<and> ae_StatusCode e < 600 then True
      else ae_StatusCode e = ae_StatusCode t)"

definition sentinel :: "int \<Rightarrow> string \<Rightarrow> APIError" where
  "sentinel code msg = \<lparr>ae_StatusCode = code, ae_Message = msg, ae_RetryAfter = 0\<rparr>"

definition ErrUnauthorized :: APIError where "ErrUnauthorized = sentinel 401 ''unauthorized''"
definition ErrForbidden :: APIError where "ErrForbidden = sentinel 403 ''forbidden''"
definition ErrNotFound :: APIError where "ErrNotFound = sentinel 404 ''not found''"
definition ErrRateLimit :: APIError where "ErrRateLimit = sentinel 429 ''rate limit exceeded''"
definition ErrServer :: APIError where "ErrServer = sentinel 500 ''server error''"

text \<open>\<open>errors.As\<close> and \<open>errors.Is\<close> walk the chain of wrapped errors.\<close>

fun errors_As :: "go_error \<Rightarrow> APIError option" where
  "errors_As (Api e) = Some e"
| "errors_As (Wrap m e) = errors_As e"
| "errors_As (Plain m) = None"

fun errors_Is :: "go_error \<Rightarrow> APIError \<Rightarrow> bool" where
  "errors_Is (Api e) t = APIError_Is e t"
| "errors_Is (Wrap m e) t = errors_Is e t"
| "errors_Is (Plain m) t = False"

text \<open>The body is cut at 4096 bytes; a 429 carries the seconds of its Retry-After header, if numeric.\<close>

definition errorFromResponse :: "int \<Rightarrow> string \<Rightarrow> string \<Rightarrow> go_error" where
  "errorFromResponse status body retryAfter =
     (let apiErr = \<lparr>ae_StatusCode = status, ae_Message = take 4096 body, ae_RetryAfter = 0\<rparr>
      in Api (if status = 429 \<and> retryAfter \<noteq> '''' then
                (case Atoi retryAfter of
                   None \<Rightarrow> apiErr
                 | Some seconds \<Rightarrow> apiErr\<lparr>ae_RetryAfter := wrap64 (seconds * Second)\<rparr>)
              else apiErr))"

section \<open>reconnect.go: classification\<close>

datatype FailureAction = RetryTransient | RetryAuth | RespectServer | PermanentFailure

definition ClassifyError :: "go_error \<Rightarrow> FailureAction" where
  "ClassifyError err =
     (case errors_As err of
        None \<Rightarrow> RetryTransient
      | Some apiErr \<Rightarrow>
          if errors_Is err ErrUnauthorized then RetryAuth
          else if errors_Is err ErrRateLimit then RespectServer
          else if errors_Is err ErrForbidden \<or> errors_Is err ErrNotFound then PermanentFailure
          else if errors_Is err ErrServer then RetryTransient
          else RetryTransient)"

section \<open>reconnect.go: the engine\<close>

record ReconnectEngine =
  re_baseInterval :: duration
  re_maxInterval :: duration
  re_pollingFallback :: duration
  re_pollInterval :: duration
  re_currentInterval :: duration
  re_failingSince :: time

definition NewReconnectEngine :: ReconnectEngine where
  "NewReconnectEngine = \<lparr>re_baseInterval = 1 * Second, re_maxInterval = 60 * Second,
     re_pollingFallback = 5 * Minute, re_pollInterval = 60 * Second,
     re_currentInterval = 1 * Second, re_failingSince = 0\<rparr>"

definition SetBaseInterval :: "duration \<Rightarrow> ReconnectEngine \<Rightarrow> ReconnectEngine" where
  "SetBaseInterval d r = r\<lparr>re_baseInterval := d\<rparr>"

definition SetPollInterval :: "duration \<Rightarrow> ReconnectEngine \<Rightarrow> ReconnectEngine" where
  "SetPollInterval d r = r\<lparr>re_pollInterval := d\<rparr>"

definition SetIntervals :: "duration \<Rightarrow> duration \<Rightarrow> ReconnectEngine \<Rightarrow> ReconnectEngine" where
  "SetIntervals base mx r = r\<lparr>re_baseInterval := base, re_maxInterval := mx, re_currentInterval := base\<rparr>"

definition SetPollingFallbackConfig :: "duration \<Rightarrow> duration \<Rightarrow> ReconnectEngine \<Rightarrow> ReconnectEngine" where
  "SetPollingFallbackConfig fallbackAfter pollInterval r =
     r\<lparr>re_pollingFallback := fallbackAfter, re_pollInterval := pollInterval\<rparr>"

definition resetBackoff :: "ReconnectEngine \<Rightarrow> ReconnectEngine" where
  "resetBackoff r = r\<lparr>re_currentInterval := re_baseInterval r, re_failingSince := 0\<rparr>"

text \<open>Conversion of a float to an integer truncates toward zero.\<close>

definition trunc :: "rat \<Rightarrow> int" where
  "trunc q = (if q \<ge> 0 then \<lfloor>q\<rfloor> else \<lceil>q\<rceil>)"

text \<open>The multiplier is 2 and the jitter fraction one quarter; no code changes them.\<close>

definition incrementInterval :: "(rat \<Rightarrow> rat) \<Rightarrow> ReconnectEngine \<Rightarrow> ReconnectEngine" where
  "incrementInterval fl r = r\<lparr>re_currentInterval :=
     trunc (min (fl (fl (of_int (re_currentInterval r)) * 2)) (fl (of_int (re_maxInterval r))))\<rparr>"

definition jitter :: "(rat \<Rightarrow> rat) \<Rightarrow> rat \<Rightarrow> duration \<Rightarrow> duration" where
  "jitter fl rand d =
     (let jit = fl (fl (of_int d) * (1 / 4));
          delta = fl (fl (fl (rand * 2) - 1) * jit)
      in trunc (fl (fl (of_int d) + delta)))"

text \<open>What the engine uses of its surroundings; \<open>wait_for\<close> tells whether the context ended the wait.\<close>

record 'w reconnect_env =
  connectFn :: "'w \<Rightarrow> go_error option \<times> 'w"
  pollFn :: "'w \<Rightarrow> go_error option \<times> 'w"
  ctx_Err :: "'w \<Rightarrow> bool"
  clock_Now :: "'w \<Rightarrow> time"
  wait_for :: "duration \<Rightarrow> 'w \<Rightarrow> bool \<times> 'w"
  rand_Float64 :: "'w \<Rightarrow> rat \<times> 'w"
  onAuthFailure :: "'w \<Rightarrow> 'w"
  fl_round :: "rat \<Rightarrow> rat"

text \<open>Why a loop ended: the context, or an error.\<close>

datatype stop = CtxDone | StopErr go_error

definition handleRateLimit ::
    "'w reconnect_env \<Rightarrow> go_error \<Rightarrow> ReconnectEngine \<Rightarrow> 'w \<Rightarrow> stop option \<times> ReconnectEngine \<times> 'w" where
  "handleRateLimit e err r w =
     (let delay = (case errors_As err of
            Some apiErr \<Rightarrow> if ae_RetryAfter apiErr > 0 then ae_RetryAfter apiErr else re_currentInterval r
          | None \<Rightarrow> re_currentInterval r);
          (cancelled, w) = wait_for e delay w
      in (if cancelled then Some CtxDone else None, r, w))"

definition handleAuthFailure ::
    "'w reconnect_env \<Rightarrow> go_error \<Rightarrow> ReconnectEngine \<Rightarrow> 'w \<Rightarrow> stop option \<times> ReconnectEngine \<times> 'w" where
  "handleAuthFailure e err r w = (Some (StopErr err), r, onAuthFailure e w)"

text \<open>One round of the polling loop: \<open>None\<close> to go on, or the result of the loop.\<close>

definition poll_round :: "'w reconnect_env \<Rightarrow> duration \<Rightarrow> 'w \<Rightarrow> stop option option \<times> 'w" where
  "poll_round e pollInterval w =
     (if ctx_Err e w then (Some (Some CtxDone), w)
      else
        let (perr, w) = pollFn e w
        in if perr \<noteq> None \<and> ctx_Err e w then (Some (Some CtxDone), w)
           else
             let (cancelled, w) = wait_for e pollInterval w
             in if cancelled then (Some (Some CtxDone), w)
                else
                  let (sseErr, w) = connectFn e w
                  in case sseErr of
                       None \<Rightarrow> (Some None, w)
                     | Some err \<Rightarrow>
                         if ctx_Err e w then (Some (Some CtxDone), w)
                         else if ClassifyError err = PermanentFailure \<or> ClassifyError err = RetryAuth
                         then (Some (Some (StopErr err)), w)
                         else (None, w))"

partial_function (option) runPollingFallback ::
    "'w reconnect_env \<Rightarrow> duration \<Rightarrow> 'w \<Rightarrow> (stop option \<times> 'w) option" where
  "runPollingFallback e pollInterval w =
     (case poll_round e pollInterval w of
        (Some res, w') \<Rightarrow> Some (res, w')
      | (None, w') \<Rightarrow> runPollingFallback e pollInterval w')"

definition handleTransientError ::
    "'w reconnect_env \<Rightarrow> go_error \<Rightarrow> ReconnectEngine \<Rightarrow> 'w \<Rightarrow> (stop option \<times> ReconnectEngine \<times> 'w) option" where
  "handleTransientError e err r w =
     (let r = (if re_failingSince r = 0 then r\<lparr>re_failingSince := clock_Now e w\<rparr> else r)
      in if clock_Now e w - re_failingSince r \<ge> re_pollingFallback r
         then (case runPollingFallback e (re_pollInterval r) w of
                 None \<Rightarrow> None
               | Some (Some s, w) \<Rightarrow> Some (Some s, r, w)
               | Some (None, w) \<Rightarrow> Some (None, resetBackoff r, w))
         else
           let (u, w) = rand_Float64 e w;
               delay = jitter (fl_round e) u (re_currentInterval r);
               (cancelled, w) = wait_for e delay w
           in if cancelled then Some (Some CtxDone, r, w)
              else Some (None, incrementInterval (fl_round e) r, w))"

definition handleConnectError ::
    "'w reconnect_env \<Rightarrow> go_error \<Rightarrow> ReconnectEngine \<Rightarrow> 'w \<Rightarrow> (stop option \<times> ReconnectEngine \<times> 'w) option" where
  "handleConnectError e err r w =
     (case ClassifyError err of
        PermanentFailure \<Rightarrow> Some (Some (StopErr err), r, w)
      | RetryAuth \<Rightarrow> Some (handleAuthFailure e err r w)
      | RespectServer \<Rightarrow> Some (handleRateLimit e err r w)
      | RetryTransient \<Rightarrow> handleTransientError e err r w)"

text \<open>One round of the main loop, and the loop.\<close>

definition run_round ::
    "'w reconnect_env \<Rightarrow> ReconnectEngine \<Rightarrow> 'w \<Rightarrow> (stop option \<times> ReconnectEngine \<times> 'w) option" where
  "run_round e r w =
     (if ctx_Err e w then Some (Some CtxDone, r, w)
      else
        let (err, w) = connectFn e w
        in case err of
             None \<Rightarrow> Some (None, resetBackoff r, w)
           | Some err \<Rightarrow>
               if ctx_Err e w then Some (Some CtxDone, r, w)
               else handleConnectError e err r w)"

partial_function (option) run_loop ::
    "'w reconnect_env \<Rightarrow> ReconnectEngine \<Rightarrow> 'w \<Rightarrow> (stop \<times> ReconnectEngine \<times> 'w) option" where
  "run_loop e r w =
     (case run_round e r w of
        None \<Rightarrow> None
      | Some (Some s, r', w') \<Rightarrow> Some (s, r', w')
      | Some (None, r', w') \<Rightarrow> run_loop e r' w')"

definition Reconnect_Run ::
    "'w reconnect_env \<Rightarrow> ReconnectEngine \<Rightarrow> 'w \<Rightarrow> (stop \<times> ReconnectEngine \<times> 'w) option" where
  "Reconnect_Run e r w = run_loop e (resetBackoff r) w"

section \<open>Backoff\<close>

text \<open>
  The laws of IEEE double arithmetic used below: rounding is monotone, and exact on integers of at
  most 53 bits, their doubles and their quarters.
\<close>

definition ieee_double :: "(rat \<Rightarrow> rat) \<Rightarrow> bool" where
  "ieee_double fl \<longleftrightarrow> mono fl \<and>
     (\<forall>n. \<bar>n\<bar> \<le> 2 ^ 53 \<longrightarrow> fl (of_int n) = of_int n \<and> fl (of_int n * 2) = of_int n * 2 \<and> fl (of_int n / 4) = of_int n / 4)"

lemma ieee_doubleD:
  assumes "ieee_double fl" "\<bar>n\<bar> \<le> 2 ^ 53"
  shows "fl (of_int n) = of_int n" "fl (of_int n * 2) = of_int n * 2" "fl (of_int n / 4) = of_int n / 4"
  using assms by (auto simp: ieee_double_def)

lemma ieee_mono: "ieee_double fl \<Longrightarrow> x \<le> y \<Longrightarrow> fl x \<le> fl y"
  by (simp add: ieee_double_def monoD)

lemma trunc_int [simp]: "trunc (of_int n) = n"
  by (simp add: trunc_def)

lemma trunc_mono_nonneg: "0 \<le> x \<Longrightarrow> x \<le> y \<Longrightarrow> trunc x \<le> trunc y"
  by (simp add: trunc_def floor_mono)

lemma incrementInterval_exact:
  assumes "ieee_double fl" "0 \<le> re_currentInterval r" "re_currentInterval r \<le> 2 ^ 53"
    and "0 \<le> re_maxInterval r" "re_maxInterval r \<le> 2 ^ 53"
  shows "incrementInterval fl r = r\<lparr>re_currentInterval := min (re_currentInterval r * 2) (re_maxInterval r)\<rparr>"
proof -
  have "fl (fl (of_int (re_currentInterval r)) * 2) = of_int (re_currentInterval r * 2)"
    using ieee_doubleD(1,2)[OF assms(1), of "re_currentInterval r"] assms(2,3) by simp
  moreover have "fl (of_int (re_maxInterval r)) = of_int (re_maxInterval r)"
    using ieee_doubleD(1)[OF assms(1), of "re_maxInterval r"] assms(4,5) by simp
  ultimately show ?thesis
    by (simp add: incrementInterval_def of_int_min[symmetric] del: of_int_mult)
qed

lemma backoff_sequence_aux:
  assumes "ieee_double fl" "0 < re_baseInterval r" "re_baseInterval r \<le> re_maxInterval r" "re_maxInterval r \<le> 2 ^ 53"
  shows "(incrementInterval fl ^^ k) (resetBackoff r) =
     (resetBackoff r)\<lparr>re_currentInterval := min (re_baseInterval r * 2 ^ k) (re_maxInterval r)\<rparr>"
proof (induction k)
  case 0
  then show ?case using assms by (simp add: resetBackoff_def)
next
  case (Suc k)
  let ?r = "(resetBackoff r)\<lparr>re_currentInterval := min (re_baseInterval r * 2 ^ k) (re_maxInterval r)\<rparr>"
  have "min (min (re_baseInterval r * 2 ^ k) (re_maxInterval r) * 2) (re_maxInterval r) =
      min (re_baseInterval r * 2 ^ Suc k) (re_maxInterval r)"
    using assms(2,3) by (auto simp: min_def algebra_simps)
  then show ?case
    using incrementInterval_exact[OF assms(1), of ?r] assms Suc by (simp add: resetBackoff_def)
qed

lemma rand_sign:
  assumes "ieee_double fl" "0 \<le> u" "u \<le> 1"
  shows "- 1 \<le> fl (fl (u * 2) - 1)" "fl (fl (u * 2) - 1) \<le> 1"
proof -
  have ints: "fl 0 = 0" "fl 1 = 1" "fl (- 1) = - 1" "fl 2 = 2"
    using ieee_doubleD(1)[OF assms(1), of 0] ieee_doubleD(1)[OF assms(1), of 1]
      ieee_doubleD(1)[OF assms(1), of "- 1"] ieee_doubleD(1)[OF assms(1), of 2] by simp_all
  have "0 \<le> fl (u * 2)" "fl (u * 2) \<le> 2"
    using ieee_mono[OF assms(1), of 0 "u * 2"] ieee_mono[OF assms(1), of "u * 2" 2] assms ints by simp_all
  then show "- 1 \<le> fl (fl (u * 2) - 1)" "fl (fl (u * 2) - 1) \<le> 1"
    using ieee_mono[OF assms(1), of "- 1" "fl (u * 2) - 1"] ieee_mono[OF assms(1), of "fl (u * 2) - 1" 1] ints
    by simp_all
qed

lemma jitter_range:
  assumes fl: "ieee_double fl" and u: "0 \<le> u" "u \<le> 1" and d: "0 \<le> d" "d \<le> 2 ^ 50"
  shows "3 * d div 4 \<le> jitter fl u d" "jitter fl u d \<le> 5 * d div 4"
proof -
  let ?q = "of_int d / 4 :: rat" and ?s = "fl (fl (u * 2) - 1)"
  have exact: "fl (of_int d) = of_int d" "fl (of_int d * (1 / 4)) = ?q" "fl (- ?q) = - ?q" "fl ?q = ?q"
    using ieee_doubleD[OF fl, of d] ieee_doubleD(3)[OF fl, of "- d"] d by simp_all
  have "0 \<le> ?q" using d by simp
  then have prod: "- ?q \<le> ?s * ?q" "?s * ?q \<le> ?q"
    using rand_sign[OF fl u] mult_right_mono[of "- 1" ?s ?q] mult_right_mono[of ?s 1 ?q] by simp_all
  define delta where "delta = fl (?s * ?q)"
  have delta: "- ?q \<le> delta" "delta \<le> ?q"
    using ieee_mono[OF fl prod(1)] ieee_mono[OF fl prod(2)] exact by (simp_all add: delta_def)
  have ends: "fl (of_int (3 * d) / 4) = of_int (3 * d) / 4" "fl (of_int (5 * d) / 4) = of_int (5 * d) / 4"
    using ieee_doubleD(3)[OF fl, of "3 * d"] ieee_doubleD(3)[OF fl, of "5 * d"] d by simp_all
  have lo: "of_int (3 * d) / 4 \<le> fl (of_int d + delta)"
    using ieee_mono[OF fl, of "of_int (3 * d) / 4" "of_int d + delta"] delta ends by simp
  have hi: "fl (of_int d + delta) \<le> of_int (5 * d) / 4"
    using ieee_mono[OF fl, of "of_int d + delta" "of_int (5 * d) / 4"] delta ends by simp
  have nonneg: "(0::rat) \<le> of_int (3 * d) / 4" using d by simp
  have j: "jitter fl u d = \<lfloor>fl (of_int d + delta)\<rfloor>"
    using lo nonneg by (simp add: jitter_def exact delta_def trunc_def Let_def)
  show "3 * d div 4 \<le> jitter fl u d"
    using floor_mono[OF lo] by (simp add: j floor_divide_of_int_eq[of "3 * d" 4, simplified])
  show "jitter fl u d \<le> 5 * d div 4"
    using floor_mono[OF hi] by (simp add: j floor_divide_of_int_eq[of "5 * d" 4, simplified])
qed

section \<open>When the loop ends\<close>

definition gives_up :: "go_error \<Rightarrow> bool" where
  "gives_up err \<longleftrightarrow> ClassifyError err = PermanentFailure \<or> ClassifyError err = RetryAuth"

lemma errors_Is_As: "errors_Is err t \<longleftrightarrow> (\<exists>a. errors_As err = Some a \<and> APIError_Is a t)"
  by (induction err) auto

lemma poll_round_stop: "poll_round e i w = (Some (Some (StopErr err)), w') \<Longrightarrow> gives_up err"
  by (auto simp: poll_round_def gives_up_def Let_def split: if_splits prod.splits option.splits)

lemma runPollingFallback_stop:
  assumes "runPollingFallback e i w = Some (Some (StopErr err), w')"
  shows "gives_up err"
proof -
  have "fst y = Some (StopErr err) \<longrightarrow> gives_up err" if "runPollingFallback e i w = Some y" for y
    using that
    by (rule runPollingFallback.raw_induct[rotated])
       (fastforce split: prod.splits option.splits dest: poll_round_stop)
  then show ?thesis using assms by fastforce
qed

lemma handleTransientError_stop:
  assumes "handleTransientError e err0 r w = Some (Some (StopErr err), r', w')"
  shows "gives_up err"
  using assms runPollingFallback_stop[of e]
  by (auto simp: handleTransientError_def Let_def split: if_splits prod.splits option.splits)

lemma run_round_stop:
  assumes "run_round e r w = Some (Some (StopErr err), r', w')"
  shows "gives_up err"
  using assms handleTransientError_stop[of e]
  by (auto simp: run_round_def handleConnectError_def handleAuthFailure_def handleRateLimit_def gives_up_def Let_def
      split: if_splits prod.splits option.splits FailureAction.splits)

lemma run_loop_stop:
  assumes "run_loop e r w = Some (StopErr err, r', w')"
  shows "gives_up err"
proof -
  have "fst y = StopErr err \<longrightarrow> gives_up err" if "run_loop e r w = Some y" for y
    using that
    by (rule run_loop.raw_induct[rotated])
       (fastforce split: prod.splits option.splits dest: run_round_stop)
  then show ?thesis using assms by fastforce
qed

lemma run_loop_spins:
  assumes round: "\<And>r w. run_round e r w = Some (None, resetBackoff r, f w)"
  shows "run_loop e r w = None"
proof (rule ccontr)
  assume "run_loop e r w \<noteq> None"
  then obtain y where "run_loop e r w = Some y" by blast
  then have "e \<noteq> e"
    by (rule run_loop.raw_induct[where P = "\<lambda>x r w y. x \<noteq> e", rotated])
       (auto simp: round split: prod.splits option.splits)
  then show False by simp
qed

section \<open>Properties of reconnection\<close>

text \<open>How an error is classified, for every error value: only an API error of status 401, 429, 403 or
  404 is not retried with backoff, however deeply it is wrapped.\<close>

theorem ClassifyError_table:
  "ClassifyError err =
     (case errors_As err of
        None \<Rightarrow> RetryTransient
      | Some a \<Rightarrow>
          if ae_StatusCode a = 401 then RetryAuth
          else if ae_StatusCode a = 429 then RespectServer
          else if ae_StatusCode a = 403 \<or> ae_StatusCode a = 404 then PermanentFailure
          else RetryTransient)"
  by (auto simp: ClassifyError_def errors_Is_As APIError_Is_def ErrUnauthorized_def ErrRateLimit_def
      ErrForbidden_def ErrNotFound_def sentinel_def split: option.splits)

text \<open>C9: The backoff: after \<open>k\<close> consecutive transient failures the interval is the base doubled
  \<open>k\<close> times, capped at the maximum, and the delay waited is within a quarter of it.\<close>

theorem backoff_bounds:
  assumes "ieee_double fl" "0 < re_baseInterval r" "re_baseInterval r \<le> re_maxInterval r"
    and "re_maxInterval r \<le> 2 ^ 50" "0 \<le> u" "u < 1"
  shows "let d = re_currentInterval ((incrementInterval fl ^^ k) (resetBackoff r))
     in d = min (re_baseInterval r * 2 ^ k) (re_maxInterval r) \<and>
        3 * d div 4 \<le> jitter fl u d \<and> jitter fl u d \<le> 5 * d div 4"
proof -
  let ?d = "min (re_baseInterval r * 2 ^ k) (re_maxInterval r)"
  have "(incrementInterval fl ^^ k) (resetBackoff r) = (resetBackoff r)\<lparr>re_currentInterval := ?d\<rparr>"
    using backoff_sequence_aux[OF assms(1-3), of k] assms(4) by simp
  moreover have "0 \<le> ?d" "?d \<le> 2 ^ 50" using assms by auto
  ultimately show ?thesis
    using jitter_range[OF assms(1), of u ?d] assms(5,6) by simp
qed

theorem backoff_bounds_witness:
  "re_currentInterval ((incrementInterval id ^^ 7) (resetBackoff NewReconnectEngine)) = 60 * Second \<and>
   45 * Second \<le> jitter id 0 (60 * Second) \<and> jitter id 0 (60 * Second) \<le> 75 * Second"
proof -
  have fl: "ieee_double id" by (simp add: ieee_double_def mono_def)
  show ?thesis
    using backoff_bounds[OF fl, of NewReconnectEngine 0 7]
    by (auto simp: NewReconnectEngine_def Let_def resetBackoff_def)
qed

text \<open>C10: The engine gives up on an error only when it is an authentication or a permanent failure;
  every other failure is retried for ever.\<close>

theorem Reconnect_Run_gives_up_only:
  assumes "Reconnect_Run e r w = Some (StopErr err, r', w')"
  shows "\<exists>a. errors_As err = Some a \<and> ae_StatusCode a \<in> {401, 403, 404}"
proof -
  have "gives_up err" using assms run_loop_stop[of e "resetBackoff r" w err r' w'] by (simp add: Reconnect_Run_def)
  then show ?thesis
    by (auto simp: gives_up_def ClassifyError_def errors_Is_As APIError_Is_def ErrUnauthorized_def
        ErrRateLimit_def ErrForbidden_def ErrNotFound_def sentinel_def split: option.splits if_splits)
qed

definition ex_reconnect :: "go_error option \<Rightarrow> nat reconnect_env" where
  "ex_reconnect err = \<lparr>connectFn = \<lambda>w. (err, w + 1), pollFn = \<lambda>w. (None, w), ctx_Err = \<lambda>w. False,
     clock_Now = \<lambda>w. int w, wait_for = \<lambda>d w. (False, w + 100), rand_Float64 = \<lambda>w. (0, w),
     onAuthFailure = \<lambda>w. w, fl_round = id\<rparr>"

theorem Reconnect_Run_gives_up_only_witness:
  "\<exists>r' w'. Reconnect_Run (ex_reconnect (Some (Api ErrForbidden))) NewReconnectEngine 0 =
       Some (StopErr (Api ErrForbidden), r', w') \<and>
     (\<exists>a. errors_As (Api ErrForbidden) = Some a \<and> ae_StatusCode a \<in> {401, 403, 404})"
proof -
  have run: "Reconnect_Run (ex_reconnect (Some (Api ErrForbidden))) NewReconnectEngine 0 =
      Some (StopErr (Api ErrForbidden), resetBackoff NewReconnectEngine, 1)"
    unfolding Reconnect_Run_def
    by (subst run_loop.simps) (simp add: run_round_def ex_reconnect_def handleConnectError_def ClassifyError_def
        APIError_Is_def ErrForbidden_def ErrUnauthorized_def ErrRateLimit_def sentinel_def)
  then show ?thesis using Reconnect_Run_gives_up_only[OF run] by blast
qed

text \<open>A connection that ends cleanly is reopened at once: the round waits for nothing and resets the
  backoff, so a server that accepts and closes every connection is called in an endless loop
  without any delay.\<close>

theorem Reconnect_clean_drop_spins:
  assumes "\<And>w. \<not> ctx_Err e w" and "\<And>w. connectFn e w = (None, f w)"
  shows "run_round e r w = Some (None, resetBackoff r, f w) \<and> Reconnect_Run e r w = None"
proof -
  have round: "run_round e r w = Some (None, resetBackoff r, f w)" for r w
    using assms by (simp add: run_round_def)
  then show ?thesis using run_loop_spins[of e f "resetBackoff r" w, OF round] by (simp add: Reconnect_Run_def)
qed

theorem Reconnect_clean_drop_spins_witness:
  "run_round (ex_reconnect None) NewReconnectEngine 0 = Some (None, resetBackoff NewReconnectEngine, 1) \<and>
   Reconnect_Run (ex_reconnect None) NewReconnectEngine 0 = None"
  using Reconnect_clean_drop_spins[of "ex_reconnect None" "\<lambda>w. w + 1" NewReconnectEngine 0]
  by (simp add: ex_reconnect_def)

end
