(* ===== verification/KeyedTable.thy ===== *)
theory KeyedTable
  imports GoLib
begin

text \<open>
  The bridge components (relay sessions, user access peers, ingress rules, site-to-site tunnels)
  each keep a bounded table of items by identifier and bring it to a desired list of items in the
  same way: remove what is not desired, remove what has changed, add what is missing.  The loops
  are defined here once, over the operations of the component.  The locale states what a component
  owes for the loops to converge.
\<close>

section \<open>The reconciliation loops\<close>

text \<open>
  \<open>desiredSet\<close> is the Go map built from the desired items; later items replace earlier ones with
  the same identifier.
\<close>

definition desired_set :: "('i \<Rightarrow> string) \<Rightarrow> 'i list \<Rightarrow> (string, 'i) gomap" where
  "desired_set id_of items = fold (\<lambda>i. mput (id_of i) i) items []"

text \<open>
  The first loop goes over the identifiers present at the start and keeps the set of those that
  need not be added again.
\<close>

fun remove_stale ::
    "(string \<Rightarrow> 's \<Rightarrow> 'v option) \<Rightarrow> (string \<Rightarrow> 's \<Rightarrow> 's) \<Rightarrow> ('v \<Rightarrow> 'i \<Rightarrow> bool) \<Rightarrow> (string, 'i) gomap \<Rightarrow>
     string list \<Rightarrow> (string, unit) gomap \<times> 's \<Rightarrow> (string, unit) gomap \<times> 's" where
  "remove_stale get remove changed desired [] (cur, s) = (cur, s)"
| "remove_stale get remove changed desired (k # ks) (cur, s) =
     (case mget desired k of
        None \<Rightarrow> remove_stale get remove changed desired ks (cur, remove k s)
      | Some d \<Rightarrow>
          (case get k s of
             Some c \<Rightarrow>
               if changed c d then remove_stale get remove changed desired ks (mdel k cur, remove k s)
               else remove_stale get remove changed desired ks (cur, s)
           | None \<Rightarrow> remove_stale get remove changed desired ks (cur, s)))"

definition sync_table ::
    "('s \<Rightarrow> string list) \<Rightarrow> (string \<Rightarrow> 's \<Rightarrow> 'v option) \<Rightarrow> ('i \<Rightarrow> 's \<Rightarrow> string option \<times> 's) \<Rightarrow>
     (string \<Rightarrow> 's \<Rightarrow> 's) \<Rightarrow> ('i \<Rightarrow> string) \<Rightarrow> ('v \<Rightarrow> 'i \<Rightarrow> bool) \<Rightarrow> 'i list \<Rightarrow> 'i list \<Rightarrow> 's \<Rightarrow>
     string option \<times> 's" where
  "sync_table ids get add remove id_of changed items additions s =
     (let currentIDs = ids s;
          currentSet = fold (\<lambda>k. mput k ()) currentIDs [];
          (currentSet, s) = remove_stale get remove changed (desired_set id_of items) currentIDs (currentSet, s);
          (errs, s) = collect_errs add (filter (\<lambda>i. mget currentSet (id_of i) = None) additions) ([], s)
      in (errors_Join errs, s))"

lemma desired_set_get:
  "distinct (map id_of items) \<Longrightarrow> i \<in> set items \<Longrightarrow> mget (desired_set id_of items) (id_of i) = Some i"
  unfolding desired_set_def by (rule gm.get_build_in [where g = "\<lambda>x. x"]) (auto simp: distinct_map)

lemma desired_set_has: "mget (desired_set id_of items) k \<noteq> None \<longleftrightarrow> k \<in> id_of ` set items"
  unfolding desired_set_def using gm.has_build [of id_of "\<lambda>x. x" items "[]" k] by simp

lemma desired_set_SomeD:
  assumes "mget (desired_set id_of items) k = Some i"
  shows "i \<in> set items \<and> id_of i = k"
proof -
  have "map_of (rev (map (\<lambda>x. (id_of x, x)) items)) k = Some i"
    using assms unfolding desired_set_def gm.get_build [where g = "\<lambda>x. x"] by (auto split: option.splits)
  then show ?thesis by (auto dest: map_of_SomeD)
qed

lemma errors_Join_None [simp]: "errors_Join errs = None \<longleftrightarrow> errs = []"
  by (simp add: errors_Join_def)

section \<open>The contract of a table\<close>

locale keyed_table =
  fixes get :: "string \<Rightarrow> 's \<Rightarrow> 'v option"
    and add :: "'i \<Rightarrow> 's \<Rightarrow> string option \<times> 's"
    and remove :: "string \<Rightarrow> 's \<Rightarrow> 's"
    and id_of :: "'i \<Rightarrow> string"
    and view :: "'i \<Rightarrow> 'v"
    and inv :: "'s \<Rightarrow> bool"
  assumes add_ok: "inv s \<Longrightarrow> add i s = (None, s') \<Longrightarrow> get k s' = (if k = id_of i then Some (view i) else get k s)"
    and add_err: "inv s \<Longrightarrow> add i s = (Some e, s') \<Longrightarrow> get k s' = get k s"
    and add_inv: "inv s \<Longrightarrow> inv (snd (add i s))"
    and remove_other: "inv s \<Longrightarrow> j \<noteq> k \<Longrightarrow> get j (remove k s) = get j s"
    and remove_same: "inv s \<Longrightarrow> get k (remove k s) = None \<or> get k (remove k s) = get k s"
    and remove_inv: "inv s \<Longrightarrow> inv (remove k s)"
begin

lemma adds_get:
  assumes "inv s" and "collect_errs add xs (errs, s) = (errs, s')" and "distinct (map id_of xs)"
  shows "inv s' \<and> (\<forall>i \<in> set xs. get (id_of i) s' = Some (view i)) \<and> (\<forall>k. k \<notin> id_of ` set xs \<longrightarrow> get k s' = get k s)"
  using assms
proof (induction xs arbitrary: s)
  case (Cons x xs)
  obtain s1 where s1: "add x s = (None, s1)" "collect_errs add xs (errs, s1) = (errs, s')"
    using Cons.prems(2) by (rule collect_errs_ok)
  have inv1: "inv s1" using add_inv [OF Cons.prems(1), of x] s1(1) by simp
  note IH = Cons.IH [OF inv1 s1(2)]
  have g: "get k s1 = (if k = id_of x then Some (view x) else get k s)" for k
    using add_ok [OF Cons.prems(1) s1(1)] .
  from IH g Cons.prems(3) show ?case by auto
qed simp

lemma adds_inv: "inv s \<Longrightarrow> inv (snd (collect_errs add xs (errs, s)))"
proof (induction xs arbitrary: s errs)
  case (Cons x xs)
  have "inv (snd (add x s))" using add_inv [OF Cons.prems] .
  then show ?case using Cons.IH by (cases "add x s") (auto split: option.splits)
qed simp

lemma stale_inv: "inv s \<Longrightarrow> inv (snd (remove_stale get remove changed desired ks (cur, s)))"
  by (induction ks arbitrary: cur s) (auto simp: remove_inv split: option.splits)

lemma sync_inv: "inv s \<Longrightarrow> inv (snd (sync_table ids get add remove id_of changed items additions s))"
  by (simp add: sync_table_def Let_def split_beta adds_inv stale_inv)

text \<open>The first loop touches only the identifiers it visits, and keeps what is desired and unchanged.\<close>

lemma stale_get:
  assumes "inv s" and "distinct ks" and "mwf cur" and "remove_stale get remove changed desired ks (cur, s) = (cur', s')"
  shows "(k \<notin> set ks \<longrightarrow> get k s' = get k s \<and> mget cur' k = mget cur k) \<and>
    (k \<in> set ks \<longrightarrow>
      (case mget desired k of
         None \<Rightarrow> (get k s' = None \<or> get k s' = get k s) \<and> mget cur' k = mget cur k
       | Some d \<Rightarrow>
           (if \<exists>c. get k s = Some c \<and> changed c d
            then (get k s' = None \<or> get k s' = get k s) \<and> mget cur' k = None
            else get k s' = get k s \<and> mget cur' k = mget cur k)))"
  using assms
proof (induction ks arbitrary: cur s)
  case (Cons j ks)
  define del where "del \<longleftrightarrow> (\<exists>d c. mget desired j = Some d \<and> get j s = Some c \<and> changed c d)"
  obtain cur1 s1 where 1: "remove_stale get remove changed desired ks (cur1, s1) = (cur', s')"
    and s1: "s1 = (if mget desired j = None \<or> del then remove j s else s)"
    and cur1: "cur1 = (if del then mdel j cur else cur)"
    using Cons.prems(4) by (auto simp: del_def split: option.splits if_splits)
  have inv1: "inv s1" using Cons.prems(1) remove_inv s1 by simp
  have wf1: "mwf cur1" using Cons.prems(3) cur1 by (simp add: gm.wf_del)
  note IH = Cons.IH [OF inv1 _ wf1 1]
  have other: "get k s1 = get k s \<and> mget cur1 k = mget cur k" if "k \<noteq> j"
    using that Cons.prems(1,3) remove_other s1 cur1 by (simp add: gm.get_del)
  have same: "get j s1 = (if mget desired j = None \<or> del then get j (remove j s) else get j s)"
    "mget cur1 j = (if del then None else mget cur j)"
    using s1 cur1 Cons.prems(3) by (simp_all add: gm.get_del)
  show ?case
  proof (cases "k = j")
    case True
    then have "k \<notin> set ks" using Cons.prems(2) by simp
    then have "get k s' = get k s1" "mget cur' k = mget cur1 k" using IH Cons.prems(2) by simp_all
    then show ?thesis
      using True same remove_same [OF Cons.prems(1), of j] by (cases "mget desired j") (auto simp: del_def)
  next
    case False
    then show ?thesis using IH other Cons.prems(2) by (auto split: option.splits)
  qed
qed simp

end

locale strict_table = keyed_table +
  assumes remove_gone: "inv s \<Longrightarrow> get k (remove k s) = None"
begin

lemma stale_gone:
  assumes "inv s" and "distinct ks" and "mwf cur" and "remove_stale get remove changed desired ks (cur, s) = (cur', s')"
    and "k \<in> set ks" and "mget desired k = None \<or> (\<exists>d c. mget desired k = Some d \<and> get k s = Some c \<and> changed c d)"
  shows "get k s' = None"
  using assms
proof (induction ks arbitrary: cur s)
  case (Cons j ks)
  define del where "del \<longleftrightarrow> (\<exists>d c. mget desired j = Some d \<and> get j s = Some c \<and> changed c d)"
  obtain cur1 s1 where 1: "remove_stale get remove changed desired ks (cur1, s1) = (cur', s')"
    and s1: "s1 = (if mget desired j = None \<or> del then remove j s else s)"
    and cur1: "cur1 = (if del then mdel j cur else cur)"
    using Cons.prems(4) by (auto simp: del_def split: option.splits if_splits)
  have inv1: "inv s1" using Cons.prems(1) remove_inv s1 by simp
  have wf1: "mwf cur1" using Cons.prems(3) cur1 by (simp add: gm.wf_del)
  show ?case
  proof (cases "k = j")
    case True
    then have "get k s1 = None" using s1 Cons.prems(1,6) remove_gone by (simp add: del_def)
    then show ?thesis using stale_get [OF inv1 _ wf1 1, of k] Cons.prems(2) True by simp
  next
    case False
    then have "get k s1 = get k s" using s1 Cons.prems(1) remove_other by simp
    then show ?thesis using Cons.IH [OF inv1 _ wf1 1] Cons.prems(2,5,6) False by simp
  qed
qed simp

text \<open>Without an error the table holds exactly the desired items.\<close>

lemma sync_converges:
  assumes inv: "inv s" and ids: "distinct (ids s)" "set (ids s) = {k. get k s \<noteq> None}"
    and items: "distinct (map id_of items)" "set additions = set items" "distinct (map id_of additions)"
    and changed: "\<And>c d. changed c d \<longleftrightarrow> c \<noteq> view d"
    and run: "sync_table ids get add remove id_of changed items additions s = (None, s')"
  shows "get k s' = map_option view (mget (desired_set id_of items) k)"
proof -
  let ?cur0 = "fold (\<lambda>k. mput k ()) (ids s) []" and ?des = "desired_set id_of items"
  obtain cur s1 where st: "remove_stale get remove changed ?des (ids s) (?cur0, s) = (cur, s1)"
    by (cases "remove_stale get remove changed ?des (ids s) (?cur0, s)")
  let ?new = "filter (\<lambda>i. mget cur (id_of i) = None) additions"
  have ad: "collect_errs add ?new ([], s1) = ([], s')"
    using run st by (auto simp: sync_table_def Let_def split: prod.splits)
  have wf0: "mwf ?cur0" using gm.wf_build [of "[]" "\<lambda>k. k" "\<lambda>k. ()" "ids s"] by simp
  have cur0: "mget ?cur0 j \<noteq> None \<longleftrightarrow> get j s \<noteq> None" for j
    using gm.has_build [of "\<lambda>k. k" "\<lambda>k. ()" "ids s" "[]" j] ids(2) by simp
  have inv1: "inv s1" using stale_inv [OF inv, of changed ?des "ids s" ?cur0] st by simp
  have "distinct (map id_of ?new)" using items(3) by (simp add: distinct_map_filter)
  note new = adds_get [OF inv1 ad this]
  note g = stale_get [OF inv ids(1) wf0 st]
  note gone = stale_gone [OF inv ids(1) wf0 st]
  have set_new: "id_of i \<in> id_of ` set ?new \<longleftrightarrow> mget cur (id_of i) = None" if "i \<in> set items" for i
    using that items(2) by auto
  show ?thesis
  proof (cases "mget ?des k")
    case None
    then have "k \<notin> id_of ` set items" using desired_set_has [of id_of items k] by simp
    then have "get k s' = get k s1" using new items(2) by auto
    also have "\<dots> = None" using gone [of k] g [of k] ids(2) None by (cases "k \<in> set (ids s)") auto
    finally show ?thesis using None by simp
  next
    case (Some i)
    then have i: "i \<in> set items" "id_of i = k" using desired_set_SomeD [of id_of items k i] by auto
    show ?thesis
    proof (cases "mget cur k = None")
      case True
      then have "i \<in> set ?new" using i items(2) by simp
      then show ?thesis using new Some i by auto
    next
      case False
      then have "k \<notin> id_of ` set ?new" using i set_new by auto
      then have "get k s' = get k s1" using new by simp
      moreover have "get k s = Some (view i) \<and> get k s1 = get k s"
        using g [of k] Some False cur0 [of k] changed ids(2) by (auto split: if_splits)
      ultimately show ?thesis using Some by simp
    qed
  qed
qed

end

end
