(* ===== verification/ApiTypes.thy ===== *)
theory ApiTypes
  imports Prelude
begin

text \<open>
  The wire types of \<open>internal/api/types.go\<close> that the components exchange, one record per
  Go struct.  A field carries a short prefix of its struct, because record fields share one name
  space.  Pointers are \<open>option\<close>s, \<open>json.RawMessage\<close> is the raw byte string.
\<close>

section \<open>State pushed by the control plane\<close>

record Peer =
  p_ID :: string
  p_PublicKey :: string
  p_MeshIP :: string
  p_Endpoint :: string
  p_AllowedIPs :: "string list"
  p_PSK :: string

record PolicyRule =
  pr_Src :: string
  pr_Dst :: string
  pr_Port :: int
  pr_Protocol :: string
  pr_Action :: string

record Policy =
  pol_ID :: string
  pol_Rules :: "PolicyRule list"

record SigningKeys =
  sk_Current :: string
  sk_Previous :: string
  sk_TransitionExpires :: "time option"

record DataEntry =
  de_Key :: string
  de_ContentType :: string
  de_Payload :: string
  de_Version :: int
  de_UpdatedAt :: time

record SecretRef =
  sr_Key :: string
  sr_Version :: int

record BridgeConfig =
  bc_AccessSubnets :: "string list"
  bc_EnableNAT :: bool
  bc_EnableForwarding :: bool

record RelaySessionAssignment =
  rsa_SessionID :: string
  rsa_PeerAID :: string
  rsa_PeerAEndpoint :: string
  rsa_PeerBID :: string
  rsa_PeerBEndpoint :: string
  rsa_ExpiresAt :: time

record RelayConfig =
  rlc_Sessions :: "RelaySessionAssignment list"

record UserAccessPeer =
  uap_PublicKey :: string
  uap_AllowedIPs :: "string list"
  uap_PSK :: string
  uap_Label :: string

record UserAccessConfig =
  uac_Enabled :: bool
  uac_InterfaceName :: string
  uac_ListenPort :: int
  uac_Peers :: "UserAccessPeer list"

record IngressRule =
  ir_RuleID :: string
  ir_ListenPort :: int
  ir_TargetAddr :: string
  ir_Mode :: string
  ir_CertPEM :: string
  ir_KeyPEM :: string

record IngressConfig =
  ic_Enabled :: bool
  ic_Rules :: "IngressRule list"

text \<open>
  The subnets of a tunnel keep the difference between a nil and an empty slice, because the
  site-to-site handler compares tunnels with \<open>reflect.DeepEqual\<close>.
\<close>

record SiteToSiteTunnel =
  st_TunnelID :: string
  st_RemoteEndpoint :: string
  st_RemotePublicKey :: string
  st_LocalSubnets :: "string list option"
  st_RemoteSubnets :: "string list option"
  st_PSK :: string
  st_InterfaceName :: string
  st_ListenPort :: int

record SiteToSiteConfig =
  sc_Enabled :: bool
  sc_Tunnels :: "SiteToSiteTunnel list"

record StateResponse =
  sr_Peers :: "Peer list"
  sr_Policies :: "Policy list"
  sr_SigningKeys :: "SigningKeys option"
  sr_Metadata :: "(string, string) gomap"
  sr_BridgeConfig :: "BridgeConfig option"
  sr_RelayConfig :: "RelayConfig option"
  sr_UserAccessConfig :: "UserAccessConfig option"
  sr_IngressConfig :: "IngressConfig option"
  sr_SiteToSiteConfig :: "SiteToSiteConfig option"
  sr_Data :: "DataEntry list"
  sr_SecretRefs :: "SecretRef list"

text \<open>The zero value \<open>api.StateResponse{}\<close>.\<close>

definition emptyStateResponse :: StateResponse where
  "emptyStateResponse = \<lparr>sr_Peers = [], sr_Policies = [], sr_SigningKeys = None, sr_Metadata = [],
     sr_BridgeConfig = None, sr_RelayConfig = None, sr_UserAccessConfig = None,
     sr_IngressConfig = None, sr_SiteToSiteConfig = None, sr_Data = [], sr_SecretRefs = []\<rparr>"

section \<open>Reports sent by the node\<close>

record DriftCorrection =
  dc_Type :: string
  dc_Detail :: string

record DriftReport =
  dr_Timestamp :: time
  dr_Corrections :: "DriftCorrection list"

end
