(* ===== verification/EventVerifier.thy ===== *)
theory EventVerifier
  imports ApiTypes GoLib
begin

text \<open>
  Authentication of control plane events: the envelope (\<open>internal/api/envelope.go\<close>), and the
  Ed25519 verifier with its nonce store (\<open>internal/api/verifier.go\<close>).

  The signature scheme \<open>ed\<close> and the JSON encoding \<open>canon\<close> of the signed fields are
  parameters; \<open>ed25519.Verify\<close> panics on a key that is not 32 bytes long.  Every reading of the
  system clock inside one call is explicit, in the order the code takes them.
\<close>

section \<open>envelope.go\<close>

record SignedEnvelope =
  env_EventType :: string
  env_EventID :: string
  env_IssuedAt :: time
  env_Nonce :: string
  env_Payload :: string
  env_Signature :: string

definition ParseEnvelope ::
    "(string \<Rightarrow> string + SignedEnvelope) \<Rightarrow> string \<Rightarrow> string + SignedEnvelope" where
  "ParseEnvelope unmarshal data =
     (case unmarshal data of
        Inl err \<Rightarrow> Inl (''api: envelope: '' @ err)
      | Inr env \<Rightarrow>
          if env_EventType env = '''' then Inl ''api: envelope: missing required field event_type''
          else if env_EventID env = '''' then Inl ''api: envelope: missing required field event_id''
          else Inr env)"

definition NoOpVerifier_Verify :: "SignedEnvelope \<Rightarrow> string option" where
  "NoOpVerifier_Verify env = None"

section \<open>verifier.go: the nonce store\<close>

abbreviation DefaultStalenessWindow :: duration where "DefaultStalenessWindow \<equiv> 5 * Minute"
abbreviation nonceTTL :: duration where "nonceTTL \<equiv> 5 * Minute"
abbreviation nonceCleanupInterval :: duration where "nonceCleanupInterval \<equiv> 60 * Second"

record NonceStore =
  ns_seen :: "(string, time) gomap"
  ns_lastCleanup :: time

text \<open>The clock readings of one call of \<open>Verify\<close>, in the order in which they are taken.\<close>

record verify_clock =
  t_stale :: time
  t_future :: time
  t_transition :: time
  t_add :: time
  t_cutoff :: time
  t_cleaned :: time

definition NewNonceStore :: "time \<Rightarrow> NonceStore" where
  "NewNonceStore now = \<lparr>ns_seen = [], ns_lastCleanup = now\<rparr>"

definition NonceStore_cleanup :: "verify_clock \<Rightarrow> NonceStore \<Rightarrow> NonceStore" where
  "NonceStore_cleanup c s =
     (let cutoff = t_cutoff c - nonceTTL
      in s\<lparr>ns_seen := filter (\<lambda>(k, v). \<not> v < cutoff) (ns_seen s), ns_lastCleanup := t_cleaned c\<rparr>)"

definition NonceStore_Add :: "verify_clock \<Rightarrow> string \<Rightarrow> time \<Rightarrow> NonceStore \<Rightarrow> string option \<times> NonceStore" where
  "NonceStore_Add c nonce issuedAt s =
     (let s = (if t_add c - ns_lastCleanup s \<ge> nonceCleanupInterval then NonceStore_cleanup c s else s)
      in case mget (ns_seen s) nonce of
           Some _ \<Rightarrow> (Some ''api: verifier: duplicate nonce'', s)
         | None \<Rightarrow> (None, s\<lparr>ns_seen := mput nonce issuedAt (ns_seen s)\<rparr>))"

section \<open>verifier.go: the verifier\<close>

record Ed25519Verifier =
  v_currentKey :: string
  v_previousKey :: string
  v_transitionExpires :: time
  v_nonces :: NonceStore

definition NewEd25519Verifier :: "time \<Rightarrow> string \<Rightarrow> Ed25519Verifier" where
  "NewEd25519Verifier now key =
     \<lparr>v_currentKey = key, v_previousKey = [], v_transitionExpires = 0, v_nonces = NewNonceStore now\<rparr>"

definition SetKeys :: "string \<Rightarrow> string \<Rightarrow> time \<Rightarrow> Ed25519Verifier \<Rightarrow> Ed25519Verifier" where
  "SetKeys current previous transitionExpires v =
     v\<lparr>v_currentKey := current, v_previousKey := previous, v_transitionExpires := transitionExpires\<rparr>"

text \<open>The fields under the signature: everything but the signature itself.\<close>

record canonicalEnvelope =
  ce_EventType :: string
  ce_EventID :: string
  ce_IssuedAt :: time
  ce_Nonce :: string
  ce_Payload :: string

definition canonical_of :: "SignedEnvelope \<Rightarrow> canonicalEnvelope" where
  "canonical_of env = \<lparr>ce_EventType = env_EventType env, ce_EventID = env_EventID env,
     ce_IssuedAt = env_IssuedAt env, ce_Nonce = env_Nonce env, ce_Payload = env_Payload env\<rparr>"

definition ed25519_Verify ::
    "(string \<Rightarrow> string \<Rightarrow> string \<Rightarrow> bool) \<Rightarrow> string \<Rightarrow> string \<Rightarrow> string \<Rightarrow> bool outcome" where
  "ed25519_Verify ed key msg sig =
     (if length key \<noteq> 32 then Panic ''ed25519: bad public key length'' else Ret (ed key msg sig))"

definition Verify ::
    "(string \<Rightarrow> string \<Rightarrow> string \<Rightarrow> bool) \<Rightarrow> (canonicalEnvelope \<Rightarrow> string option) \<Rightarrow> verify_clock \<Rightarrow>
     SignedEnvelope \<Rightarrow> Ed25519Verifier \<Rightarrow> string option outcome \<times> Ed25519Verifier" where
  "Verify ed canon c envelope v =
     (if env_Signature envelope = '''' then (Ret (Some ''api: verifier: missing signature''), v)
      else if env_Nonce envelope = '''' then (Ret (Some ''api: verifier: missing nonce''), v)
      else if env_IssuedAt envelope = 0 then (Ret (Some ''api: verifier: missing issued_at''), v)
      else if t_stale c - env_IssuedAt envelope > DefaultStalenessWindow
        then (Ret (Some ''api: verifier: event is stale''), v)
      else if env_IssuedAt envelope > t_future c + DefaultStalenessWindow
        then (Ret (Some ''api: verifier: event timestamp is in the future''), v)
      else case DecodeString (env_Signature envelope) of
        None \<Rightarrow> (Ret (Some ''api: verifier: signature verification failed''), v)
      | Some sigBytes \<Rightarrow>
          (case canon (canonical_of envelope) of
             None \<Rightarrow> (Ret (Some ''api: verifier: signature verification failed''), v)
           | Some canonical \<Rightarrow>
               (let verified =
                  (case ed25519_Verify ed (v_currentKey v) canonical sigBytes of
                     Panic p \<Rightarrow> Panic p
                   | Ret b \<Rightarrow>
                       if \<not> b \<and> length (v_previousKey v) > 0 \<and> t_transition c < v_transitionExpires v
                       then ed25519_Verify ed (v_previousKey v) canonical sigBytes
                       else Ret b)
                in case verified of
                     Panic p \<Rightarrow> (Panic p, v)
                   | Ret False \<Rightarrow> (Ret (Some ''api: verifier: signature verification failed''), v)
                   | Ret True \<Rightarrow>
                       let (err, ns) = NonceStore_Add c (env_Nonce envelope) (env_IssuedAt envelope) (v_nonces v)
                       in (Ret err, v\<lparr>v_nonces := ns\<rparr>))))"

section \<open>Acceptance\<close>

text \<open>Clocks that never run backwards within a call.\<close>

definition mono_clock :: "verify_clock \<Rightarrow> bool" where
  "mono_clock c \<longleftrightarrow> t_stale c \<le> t_future c \<and> t_future c \<le> t_transition c \<and>
     t_transition c \<le> t_add c \<and> t_add c \<le> t_cutoff c \<and> t_cutoff c \<le> t_cleaned c"

text \<open>An envelope is authentic for a verifier when one of its keys that is in force signed it.\<close>

definition authentic ::
    "(string \<Rightarrow> string \<Rightarrow> string \<Rightarrow> bool) \<Rightarrow> (canonicalEnvelope \<Rightarrow> string option) \<Rightarrow> time \<Rightarrow>
     Ed25519Verifier \<Rightarrow> SignedEnvelope \<Rightarrow> bool" where
  "authentic ed canon now v env \<longleftrightarrow>
     (\<exists>msg sig. canon (canonical_of env) = Some msg \<and> DecodeString (env_Signature env) = Some sig \<and>
        (ed (v_currentKey v) msg sig \<or>
         v_previousKey v \<noteq> [] \<and> now < v_transitionExpires v \<and> ed (v_previousKey v) msg sig))"

definition fresh :: "verify_clock \<Rightarrow> SignedEnvelope \<Rightarrow> bool" where
  "fresh c env \<longleftrightarrow> env_IssuedAt env \<noteq> 0 \<and> t_stale c \<le> env_IssuedAt env + DefaultStalenessWindow \<and>
     env_IssuedAt env \<le> t_future c + DefaultStalenessWindow"

definition keys_ok :: "Ed25519Verifier \<Rightarrow> bool" where
  "keys_ok v \<longleftrightarrow> length (v_currentKey v) = 32 \<and> (v_previousKey v = [] \<or> length (v_previousKey v) = 32)"

text \<open>The nonces the store still knows when it looks the new one up.\<close>

definition known_nonces :: "verify_clock \<Rightarrow> NonceStore \<Rightarrow> (string, time) gomap" where
  "known_nonces c s =
     (if t_add c - ns_lastCleanup s \<ge> nonceCleanupInterval
      then filter (\<lambda>(k, v). \<not> v < t_cutoff c - nonceTTL) (ns_seen s) else ns_seen s)"

lemma NonceStore_Add_ok:
  "fst (NonceStore_Add c n a s) = None \<longleftrightarrow> mget (known_nonces c s) n = None"
  by (auto simp: NonceStore_Add_def known_nonces_def NonceStore_cleanup_def Let_def split: option.splits)

lemma NonceStore_Add_seen:
  "ns_seen (snd (NonceStore_Add c n a s)) =
     (if mget (known_nonces c s) n = None then mput n a (known_nonces c s) else known_nonces c s)"
  by (auto simp: NonceStore_Add_def known_nonces_def NonceStore_cleanup_def Let_def split: option.splits)

lemma Verify_no_panic_ok:
  assumes "keys_ok v"
  shows "Verify ed canon c env v =
     (if env_Signature env \<noteq> '''' \<and> env_Nonce env \<noteq> '''' \<and> fresh c env \<and>
         authentic ed canon (t_transition c) v env
      then (Ret (fst (NonceStore_Add c (env_Nonce env) (env_IssuedAt env) (v_nonces v))),
            v\<lparr>v_nonces := snd (NonceStore_Add c (env_Nonce env) (env_IssuedAt env) (v_nonces v))\<rparr>)
      else (fst (Verify ed canon c env v), v)) \<and>
   (\<not> (env_Signature env \<noteq> '''' \<and> env_Nonce env \<noteq> '''' \<and> fresh c env \<and>
         authentic ed canon (t_transition c) v env) \<longrightarrow> (\<exists>e. fst (Verify ed canon c env v) = Ret (Some e)))"
  using assms unfolding Verify_def fresh_def authentic_def keys_ok_def ed25519_Verify_def
  by (auto simp: Let_def split: option.splits prod.splits bool.splits)

section \<open>Sequences of calls\<close>

datatype verifier_op = OpVerify verify_clock SignedEnvelope | OpSetKeys string string time

fun verifier_step ::
    "(string \<Rightarrow> string \<Rightarrow> string \<Rightarrow> bool) \<Rightarrow> (canonicalEnvelope \<Rightarrow> string option) \<Rightarrow> verifier_op \<Rightarrow>
     Ed25519Verifier \<Rightarrow> Ed25519Verifier" where
  "verifier_step ed canon (OpVerify c env) v = snd (Verify ed canon c env v)"
| "verifier_step ed canon (OpSetKeys cur prev exp) v = SetKeys cur prev exp v"

abbreviation verifier_run where
  "verifier_run ed canon ops v \<equiv> fold (verifier_step ed canon) ops v"

text \<open>The clock runs forward from call to call, starting at the given instant.\<close>

fun well_timed :: "time \<Rightarrow> verifier_op list \<Rightarrow> bool" where
  "well_timed t [] \<longleftrightarrow> True"
| "well_timed t (OpVerify c env # ops) \<longleftrightarrow> t \<le> t_stale c \<and> mono_clock c \<and> well_timed (t_cleaned c) ops"
| "well_timed t (OpSetKeys cur prev exp # ops) \<longleftrightarrow> well_timed t ops"

fun last_time :: "time \<Rightarrow> verifier_op list \<Rightarrow> time" where
  "last_time t [] = t"
| "last_time t (OpVerify c env # ops) = last_time (t_cleaned c) ops"
| "last_time t (OpSetKeys cur prev exp # ops) = last_time t ops"

lemma well_timed_append: "well_timed t (xs @ ys) \<longleftrightarrow> well_timed t xs \<and> well_timed (last_time t xs) ys"
  by (induction t xs rule: well_timed.induct) auto

lemma well_timed_le: "well_timed t ops \<Longrightarrow> t \<le> last_time t ops"
  by (induction t ops rule: well_timed.induct) (auto simp: mono_clock_def)

lemma mget_filter_keep: "mget m k = Some v \<Longrightarrow> P (k, v) \<Longrightarrow> mget (filter P m) k = Some v"
  by (induction m) (auto split: if_splits)

lemma known_nonces_keep:
  "mget (ns_seen s) n = Some a \<Longrightarrow> t_cutoff c \<le> a + nonceTTL \<Longrightarrow> mget (known_nonces c s) n = Some a"
  by (auto simp: known_nonces_def intro: mget_filter_keep)

lemma Verify_cases:
  "(\<exists>e. Verify ed canon c env v = (Ret (Some e), v)) \<or> (\<exists>p. Verify ed canon c env v = (Panic p, v)) \<or>
   t_stale c \<le> env_IssuedAt env + DefaultStalenessWindow \<and>
   Verify ed canon c env v =
     (Ret (fst (NonceStore_Add c (env_Nonce env) (env_IssuedAt env) (v_nonces v))),
      v\<lparr>v_nonces := snd (NonceStore_Add c (env_Nonce env) (env_IssuedAt env) (v_nonces v))\<rparr>)"
  unfolding Verify_def Let_def
  by (cases "t_stale c - env_IssuedAt env > DefaultStalenessWindow")
     (simp_all add: split_beta split: option.split outcome.split bool.split)

lemma Verify_accepted:
  assumes "fst (Verify ed canon c env v) = Ret None"
  shows "t_stale c \<le> env_IssuedAt env + DefaultStalenessWindow"
    and "mget (known_nonces c (v_nonces v)) (env_Nonce env) = None"
    and "mget (ns_seen (v_nonces (snd (Verify ed canon c env v)))) (env_Nonce env) = Some (env_IssuedAt env)"
proof -
  have acc: "t_stale c \<le> env_IssuedAt env + DefaultStalenessWindow"
      "fst (NonceStore_Add c (env_Nonce env) (env_IssuedAt env) (v_nonces v)) = None"
      "snd (Verify ed canon c env v) =
        v\<lparr>v_nonces := snd (NonceStore_Add c (env_Nonce env) (env_IssuedAt env) (v_nonces v))\<rparr>"
    using Verify_cases[of ed canon c env v] assms by auto
  then show "t_stale c \<le> env_IssuedAt env + DefaultStalenessWindow" by simp
  show known: "mget (known_nonces c (v_nonces v)) (env_Nonce env) = None"
    using acc NonceStore_Add_ok by blast
  show "mget (ns_seen (v_nonces (snd (Verify ed canon c env v)))) (env_Nonce env) = Some (env_IssuedAt env)"
    using acc known by (simp add: NonceStore_Add_seen)
qed

lemma Verify_remembers:
  assumes "mget (ns_seen (v_nonces v)) n = Some a" "t_cutoff c \<le> a + nonceTTL"
  shows "mget (ns_seen (v_nonces (snd (Verify ed canon c env v)))) n = Some a"
  using Verify_cases[of ed canon c env v] known_nonces_keep[OF assms] assms(1)
  by (auto simp: NonceStore_Add_seen)

lemma run_remembers:
  assumes "mget (ns_seen (v_nonces v)) n = Some a" "well_timed t ops"
  shows "mget (ns_seen (v_nonces (verifier_run ed canon ops v))) n = Some a \<or> a + nonceTTL < last_time t ops"
  using assms
proof (induction t ops arbitrary: v rule: well_timed.induct)
  case (2 t c env ops)
  show ?case
  proof (cases "t_cutoff c \<le> a + nonceTTL")
    case True
    then show ?thesis using 2 Verify_remembers[OF 2(2) True] by simp
  next
    case False
    then have "a + nonceTTL < t_cleaned c" using 2(3) by (simp add: mono_clock_def)
    then show ?thesis using well_timed_le[of "t_cleaned c" ops] 2(3) by simp
  qed
qed (auto simp: SetKeys_def)

section \<open>Properties of the verifier\<close>

definition ex_env :: "string \<Rightarrow> time \<Rightarrow> SignedEnvelope" where
  "ex_env n t = \<lparr>env_EventType = ''peer_added'', env_EventID = ''e1'', env_IssuedAt = t, env_Nonce = n,
     env_Payload = ''{}'', env_Signature = ''QUJD''\<rparr>"

definition ex_clock :: "time \<Rightarrow> time \<Rightarrow> verify_clock" where
  "ex_clock t u = \<lparr>t_stale = t, t_future = t, t_transition = t, t_add = u, t_cutoff = u, t_cleaned = u\<rparr>"

definition ex_ed :: "string \<Rightarrow> string \<Rightarrow> string \<Rightarrow> bool" where
  "ex_ed key msg sig \<longleftrightarrow> sig = ''ABC''"

definition ex_verifier :: Ed25519Verifier where
  "ex_verifier = NewEd25519Verifier 0 (replicate 32 (CHR ''k''))"

lemma ex_decode: "DecodeString ''QUJD'' = Some ''ABC''"
  by code_simp

text \<open>C5: With keys of the right length the verifier accepts an envelope exactly when it carries a
  signature and a nonce, was issued within five minutes of the clock on either side, is signed by
  the current key or, before the transition expires, by the previous one, and its nonce is not
  known; an envelope that is not authentic leaves the nonce store unchanged.\<close>

theorem Verify_accepts:
  assumes "keys_ok v"
  shows "(fst (Verify ed canon c env v) = Ret None \<longleftrightarrow>
       env_Signature env \<noteq> '''' \<and> env_Nonce env \<noteq> '''' \<and> fresh c env \<and>
       authentic ed canon (t_transition c) v env \<and>
       mget (known_nonces c (v_nonces v)) (env_Nonce env) = None) \<and>
     (\<not> authentic ed canon (t_transition c) v env \<longrightarrow> snd (Verify ed canon c env v) = v)"
  using Verify_no_panic_ok[OF assms, of ed canon c env] NonceStore_Add_ok
  by (cases "env_Signature env \<noteq> '''' \<and> env_Nonce env \<noteq> '''' \<and> fresh c env \<and>
         authentic ed canon (t_transition c) v env") (auto simp: prod_eq_iff)

theorem Verify_accepts_witness:
  "fst (Verify ex_ed (\<lambda>_. Some ''m'') (ex_clock 1000 1000) (ex_env ''n'' 1000) ex_verifier) = Ret None \<and>
   snd (Verify (\<lambda>_ _ _. False) (\<lambda>_. Some ''m'') (ex_clock 1000 1000) (ex_env ''n'' 1000) ex_verifier) = ex_verifier"
proof -
  have k: "keys_ok ex_verifier" by (simp add: keys_ok_def ex_verifier_def NewEd25519Verifier_def)
  show ?thesis
    using Verify_accepts[OF k, of ex_ed "\<lambda>_. Some ''m''" "ex_clock 1000 1000" "ex_env ''n'' 1000"]
      Verify_accepts[OF k, of "\<lambda>_ _ _. False" "\<lambda>_. Some ''m''" "ex_clock 1000 1000" "ex_env ''n'' 1000"]
    by (simp add: ex_env_def ex_clock_def fresh_def authentic_def ex_decode ex_ed_def known_nonces_def
        ex_verifier_def NewEd25519Verifier_def NewNonceStore_def)
qed

text \<open>C6: Replay protection: over any sequence of verifications and key changes with a clock that does not
  run backwards, an envelope with the nonce and issue time of an accepted one is accepted again
  only in one way, namely when the five-minute window closes during that very call, after its
  staleness check and before the store is cleaned.\<close>

theorem Verify_no_replay:
  assumes "well_timed t0 (pre @ OpVerify c1 e1 # mid @ [OpVerify c2 e2])"
    and "fst (Verify ed canon c1 e1 (verifier_run ed canon pre v)) = Ret None"
    and "fst (Verify ed canon c2 e2 (verifier_run ed canon (pre @ OpVerify c1 e1 # mid) v)) = Ret None"
    and "env_Nonce e2 = env_Nonce e1" and "env_IssuedAt e2 = env_IssuedAt e1"
  shows "t_stale c2 \<le> env_IssuedAt e1 + DefaultStalenessWindow \<and>
     env_IssuedAt e1 + DefaultStalenessWindow < t_cutoff c2"
proof -
  let ?v1 = "snd (Verify ed canon c1 e1 (verifier_run ed canon pre v))"
  let ?v2 = "verifier_run ed canon mid ?v1"
  have timed: "well_timed (t_cleaned c1) mid" "last_time (t_cleaned c1) mid \<le> t_stale c2"
    using assms(1) by (simp_all add: well_timed_append)
  have seen1: "mget (ns_seen (v_nonces ?v1)) (env_Nonce e1) = Some (env_IssuedAt e1)"
    using Verify_accepted(3)[OF assms(2)] .
  have acc2: "fst (Verify ed canon c2 e2 ?v2) = Ret None"
    using assms(3) by simp
  have stale: "t_stale c2 \<le> env_IssuedAt e1 + DefaultStalenessWindow"
    using Verify_accepted(1)[OF acc2] assms(5) by simp
  have "mget (ns_seen (v_nonces ?v2)) (env_Nonce e1) = Some (env_IssuedAt e1)"
    using run_remembers[OF seen1 timed(1), of ed canon] stale timed(2) by auto
  then have "env_IssuedAt e1 + nonceTTL < t_cutoff c2"
    using known_nonces_keep Verify_accepted(2)[OF acc2] assms(4) by (metis not_le_imp_less option.distinct(1))
  then show ?thesis using stale by simp
qed

text \<open>The one remaining way does occur: the same envelope is accepted twice.\<close>

theorem Verify_no_replay_witness:
  "\<exists>t0 c1 c2 e. well_timed t0 [OpVerify c1 e, OpVerify c2 e] \<and>
     fst (Verify ex_ed (\<lambda>_. Some ''m'') c1 e ex_verifier) = Ret None \<and>
     fst (Verify ex_ed (\<lambda>_. Some ''m'') c2 e (verifier_run ex_ed (\<lambda>_. Some ''m'') [OpVerify c1 e] ex_verifier)) = Ret None \<and>
     t_stale c2 \<le> env_IssuedAt e + DefaultStalenessWindow \<and> env_IssuedAt e + DefaultStalenessWindow < t_cutoff c2"
proof -
  let ?e = "ex_env ''n'' 1000" and ?c1 = "ex_clock 1000 1000" and ?c2 = "ex_clock 300000001000 300000001001"
  have t: "well_timed 0 ([] @ OpVerify ?c1 ?e # [] @ [OpVerify ?c2 ?e])"
    by (simp add: ex_clock_def mono_clock_def)
  have 1: "fst (Verify ex_ed (\<lambda>_. Some ''m'') ?c1 ?e (verifier_run ex_ed (\<lambda>_. Some ''m'') [] ex_verifier)) = Ret None"
    by (simp add: Verify_def ex_env_def ex_clock_def ex_decode ex_ed_def ed25519_Verify_def ex_verifier_def
        NewEd25519Verifier_def NewNonceStore_def NonceStore_Add_def Let_def)
  have 2: "fst (Verify ex_ed (\<lambda>_. Some ''m'') ?c2 ?e
      (verifier_run ex_ed (\<lambda>_. Some ''m'') ([] @ OpVerify ?c1 ?e # []) ex_verifier)) = Ret None"
    by (simp add: Verify_def ex_env_def ex_clock_def ex_decode ex_ed_def ed25519_Verify_def ex_verifier_def
        NewEd25519Verifier_def NewNonceStore_def NonceStore_Add_def NonceStore_cleanup_def Let_def)
  show ?thesis
    using t 1 2 Verify_no_replay[OF t 1 2 refl refl] by auto
qed

text \<open>A current key that is not 32 bytes long brings the process down: every envelope that passes the
  format and freshness checks makes the verification panic, whoever signed it.\<close>

theorem Verify_panics_on_bad_key:
  assumes "length (v_currentKey v) \<noteq> 32"
    and "env_Signature env \<noteq> ''''" "env_Nonce env \<noteq> ''''" "fresh c env"
    and "DecodeString (env_Signature env) \<noteq> None" "canon (canonical_of env) \<noteq> None"
  shows "Verify ed canon c env v = (Panic ''ed25519: bad public key length'', v)"
  using assms by (auto simp: Verify_def fresh_def ed25519_Verify_def split: option.splits)

theorem Verify_panics_on_bad_key_witness:
  "Verify ex_ed (\<lambda>_. Some ''m'') (ex_clock 1000 1000) (ex_env ''n'' 1000) (SetKeys [] [] 0 ex_verifier) =
     (Panic ''ed25519: bad public key length'', SetKeys [] [] 0 ex_verifier)"
  by (rule Verify_panics_on_bad_key) (simp_all add: SetKeys_def ex_env_def ex_clock_def fresh_def ex_decode)

end
