(* ===== verification/Reconcile.thy ===== *)
theory Reconcile
  imports ApiTypes
begin

text \<open>
  The reconciliation loop of \<open>internal/reconcile\<close>: the diff between the desired and the last
  applied state (\<open>diff.go\<close>), the snapshot (\<open>snapshot.go\<close>), the drift report
  (\<open>drift.go\<close>), and the cycle and its loop (\<open>reconciler.go\<close>, \<open>config.go\<close>).

  The control plane client and the handlers act on a world \<open>'w\<close>; a handler either returns an
  error (or nil) or panics, and the cycle recovers the panic.
\<close>

section \<open>diff.go\<close>

record StateDiff =
  PeersToAdd :: "Peer list"
  PeersToRemove :: "string list"
  PeersToUpdate :: "Peer list"
  PoliciesToAdd :: "Policy list"
  PoliciesToRemove :: "string list"
  SigningKeysChanged :: bool
  NewSigningKeys :: "SigningKeys option"
  MetadataChanged :: bool
  DataChanged :: bool
  SecretRefsChanged :: bool

definition emptyStateDiff :: StateDiff where
  "emptyStateDiff = \<lparr>PeersToAdd = [], PeersToRemove = [], PeersToUpdate = [], PoliciesToAdd = [],
     PoliciesToRemove = [], SigningKeysChanged = False, NewSigningKeys = None,
     MetadataChanged = False, DataChanged = False, SecretRefsChanged = False\<rparr>"

definition IsEmpty :: "StateDiff \<Rightarrow> bool" where
  "IsEmpty d \<longleftrightarrow>
     length (PeersToAdd d) = 0 \<and> length (PeersToRemove d) = 0 \<and> length (PeersToUpdate d) = 0 \<and>
     length (PoliciesToAdd d) = 0 \<and> length (PoliciesToRemove d) = 0 \<and>
     \<not> SigningKeysChanged d \<and> \<not> MetadataChanged d \<and> \<not> DataChanged d \<and> \<not> SecretRefsChanged d"

definition sortedStringsEqual :: "string list \<Rightarrow> string list \<Rightarrow> bool" where
  "sortedStringsEqual a b =
     (if length a \<noteq> length b then False
      else let sa = sort a; sb = sort b in list_all (\<lambda>i. sa ! i = sb ! i) [0..<length sa])"

definition peerChanged :: "Peer \<Rightarrow> Peer \<Rightarrow> bool" where
  "peerChanged desired current =
     (if p_PublicKey desired \<noteq> p_PublicKey current \<or>
         p_MeshIP desired \<noteq> p_MeshIP current \<or>
         p_Endpoint desired \<noteq> p_Endpoint current \<or>
         p_PSK desired \<noteq> p_PSK current then True
      else \<not> sortedStringsEqual (p_AllowedIPs desired) (p_AllowedIPs current))"

definition diffPeers :: "Peer list \<Rightarrow> Peer list \<Rightarrow> StateDiff \<Rightarrow> StateDiff" where
  "diffPeers desired current diff =
     (let currentByID = fold (\<lambda>p. mput (p_ID p) p) current [];
          (desiredByID, diff) =
            fold (\<lambda>dp (desiredByID, diff).
                (mput (p_ID dp) () desiredByID,
                 case mget currentByID (p_ID dp) of
                   None \<Rightarrow> diff\<lparr>PeersToAdd := PeersToAdd diff @ [dp]\<rparr>
                 | Some cp \<Rightarrow>
                     if peerChanged dp cp then diff\<lparr>PeersToUpdate := PeersToUpdate diff @ [dp]\<rparr>
                     else diff))
              desired ([], diff)
      in fold (\<lambda>cp diff.
           if mget desiredByID (p_ID cp) = None
           then diff\<lparr>PeersToRemove := PeersToRemove diff @ [p_ID cp]\<rparr> else diff) current diff)"

definition diffPolicies :: "Policy list \<Rightarrow> Policy list \<Rightarrow> StateDiff \<Rightarrow> StateDiff" where
  "diffPolicies desired current diff =
     (let currentByID = fold (\<lambda>p. mput (pol_ID p) ()) current [];
          (desiredByID, diff) =
            fold (\<lambda>dp (desiredByID, diff).
                (mput (pol_ID dp) () desiredByID,
                 if mget currentByID (pol_ID dp) = None
                 then diff\<lparr>PoliciesToAdd := PoliciesToAdd diff @ [dp]\<rparr> else diff))
              desired ([], diff)
      in fold (\<lambda>cp diff.
           if mget desiredByID (pol_ID cp) = None
           then diff\<lparr>PoliciesToRemove := PoliciesToRemove diff @ [pol_ID cp]\<rparr> else diff)
         current diff)"

fun diffSigningKeys :: "SigningKeys option \<Rightarrow> SigningKeys option \<Rightarrow> StateDiff \<Rightarrow> StateDiff" where
  "diffSigningKeys None None diff = diff"
| "diffSigningKeys (Some d) (Some c) diff =
     (if sk_Current d \<noteq> sk_Current c \<or> sk_Previous d \<noteq> sk_Previous c
      then diff\<lparr>SigningKeysChanged := True, NewSigningKeys := Some d\<rparr> else diff)"
| "diffSigningKeys desired _ diff =
     diff\<lparr>SigningKeysChanged := True, NewSigningKeys := desired\<rparr>"

text \<open>\<open>maps.Equal\<close> of the Go library: equal sizes, and every entry of the first is in the second.\<close>

definition maps_Equal :: "('k, 'v) gomap \<Rightarrow> ('k, 'v) gomap \<Rightarrow> bool" where
  "maps_Equal m1 m2 =
     (if length m1 \<noteq> length m2 then False
      else list_all (\<lambda>(k, v1). case mget m2 k of None \<Rightarrow> False | Some v2 \<Rightarrow> v1 = v2) m1)"

definition diffMetadata ::
    "(string, string) gomap \<Rightarrow> (string, string) gomap \<Rightarrow> StateDiff \<Rightarrow> StateDiff" where
  "diffMetadata desired current diff =
     (if \<not> maps_Equal desired current then diff\<lparr>MetadataChanged := True\<rparr> else diff)"

definition diffData :: "DataEntry list \<Rightarrow> DataEntry list \<Rightarrow> StateDiff \<Rightarrow> StateDiff" where
  "diffData desired current diff =
     (let currentMap = fold (\<lambda>e. mput (de_Key e) (de_Version e)) current [];
          desiredMap = fold (\<lambda>e. mput (de_Key e) (de_Version e)) desired []
      in if list_ex (\<lambda>(k, dv). case mget currentMap k of None \<Rightarrow> True | Some cv \<Rightarrow> dv \<noteq> cv) desiredMap
         then diff\<lparr>DataChanged := True\<rparr>
         else if list_ex (\<lambda>(k, cv). mget desiredMap k = None) currentMap
         then diff\<lparr>DataChanged := True\<rparr>
         else diff)"

definition diffSecretRefs :: "SecretRef list \<Rightarrow> SecretRef list \<Rightarrow> StateDiff \<Rightarrow> StateDiff" where
  "diffSecretRefs desired current diff =
     (let currentMap = fold (\<lambda>s. mput (sr_Key s) (sr_Version s)) current [];
          desiredMap = fold (\<lambda>s. mput (sr_Key s) (sr_Version s)) desired []
      in if list_ex (\<lambda>(k, dv). case mget currentMap k of None \<Rightarrow> True | Some cv \<Rightarrow> dv \<noteq> cv) desiredMap
         then diff\<lparr>SecretRefsChanged := True\<rparr>
         else if list_ex (\<lambda>(k, cv). mget desiredMap k = None) currentMap
         then diff\<lparr>SecretRefsChanged := True\<rparr>
         else diff)"

definition ComputeDiff :: "StateResponse option \<Rightarrow> StateResponse option \<Rightarrow> StateDiff" where
  "ComputeDiff desired current =
     (case desired of
        None \<Rightarrow> emptyStateDiff
      | Some desired \<Rightarrow>
          let cur = (case current of None \<Rightarrow> emptyStateResponse | Some c \<Rightarrow> c);
              diff = emptyStateDiff;
              diff = diffPeers (sr_Peers desired) (sr_Peers cur) diff;
              diff = diffPolicies (sr_Policies desired) (sr_Policies cur) diff;
              diff = diffSigningKeys (sr_SigningKeys desired) (sr_SigningKeys cur) diff;
              diff = diffMetadata (sr_Metadata desired) (sr_Metadata cur) diff;
              diff = diffData (sr_Data desired) (sr_Data cur) diff
          in diffSecretRefs (sr_SecretRefs desired) (sr_SecretRefs cur) diff)"

section \<open>snapshot.go\<close>

text \<open>The deep copies of the source are the identity on values.\<close>

record stateSnapshot =
  ss_peers :: "Peer list"
  ss_policies :: "Policy list"
  ss_signingKeys :: "SigningKeys option"
  ss_metadata :: "(string, string) gomap"
  ss_data :: "DataEntry list"
  ss_secretRefs :: "SecretRef list"

definition NewStateSnapshot :: stateSnapshot where
  "NewStateSnapshot = \<lparr>ss_peers = [], ss_policies = [], ss_signingKeys = None, ss_metadata = [],
     ss_data = [], ss_secretRefs = []\<rparr>"

definition stateSnapshot_Get :: "stateSnapshot \<Rightarrow> StateResponse" where
  "stateSnapshot_Get s = emptyStateResponse\<lparr>sr_Peers := ss_peers s, sr_Policies := ss_policies s,
     sr_SigningKeys := ss_signingKeys s, sr_Metadata := ss_metadata s, sr_Data := ss_data s,
     sr_SecretRefs := ss_secretRefs s\<rparr>"

definition stateSnapshot_Update :: "StateResponse \<Rightarrow> stateSnapshot \<Rightarrow> stateSnapshot" where
  "stateSnapshot_Update desired s = s\<lparr>ss_peers := sr_Peers desired, ss_policies := sr_Policies desired,
     ss_signingKeys := sr_SigningKeys desired, ss_metadata := sr_Metadata desired,
     ss_data := sr_Data desired, ss_secretRefs := sr_SecretRefs desired\<rparr>"

definition stateSnapshot_UpdatePartial :: "StateResponse \<Rightarrow> string list \<Rightarrow> stateSnapshot \<Rightarrow> stateSnapshot" where
  "stateSnapshot_UpdatePartial desired categories s =
     fold (\<lambda>cat s.
         if cat = ''peers'' then s\<lparr>ss_peers := sr_Peers desired\<rparr>
         else if cat = ''policies'' then s\<lparr>ss_policies := sr_Policies desired\<rparr>
         else if cat = ''signing_keys'' then s\<lparr>ss_signingKeys := sr_SigningKeys desired\<rparr>
         else if cat = ''metadata'' then s\<lparr>ss_metadata := sr_Metadata desired\<rparr>
         else if cat = ''data'' then s\<lparr>ss_data := sr_Data desired\<rparr>
         else if cat = ''secret_refs'' then s\<lparr>ss_secretRefs := sr_SecretRefs desired\<rparr>
         else s)
       categories s"

section \<open>drift.go\<close>

definition BuildDriftReport :: "time \<Rightarrow> StateDiff \<Rightarrow> DriftReport" where
  "BuildDriftReport now diff =
     (let corrections = [];
          corrections = fold (\<lambda>p cs. cs @ [\<lparr>dc_Type = ''peer_added'', dc_Detail = ''peer '' @ p_ID p\<rparr>])
            (PeersToAdd diff) corrections;
          corrections = fold (\<lambda>i cs. cs @ [\<lparr>dc_Type = ''peer_removed'', dc_Detail = ''peer '' @ i\<rparr>])
            (PeersToRemove diff) corrections;
          corrections = fold (\<lambda>p cs. cs @ [\<lparr>dc_Type = ''peer_updated'', dc_Detail = ''peer '' @ p_ID p\<rparr>])
            (PeersToUpdate diff) corrections;
          corrections = fold (\<lambda>p cs. cs @ [\<lparr>dc_Type = ''policy_added'', dc_Detail = ''policy '' @ pol_ID p\<rparr>])
            (PoliciesToAdd diff) corrections;
          corrections = fold (\<lambda>i cs. cs @ [\<lparr>dc_Type = ''policy_removed'', dc_Detail = ''policy '' @ i\<rparr>])
            (PoliciesToRemove diff) corrections;
          corrections = (if SigningKeysChanged diff
            then corrections @ [\<lparr>dc_Type = ''signing_keys_updated'', dc_Detail = ''signing keys rotated''\<rparr>]
            else corrections);
          corrections = (if MetadataChanged diff
            then corrections @ [\<lparr>dc_Type = ''metadata_updated'', dc_Detail = ''metadata updated''\<rparr>]
            else corrections);
          corrections = (if DataChanged diff
            then corrections @ [\<lparr>dc_Type = ''data_updated'', dc_Detail = ''data updated''\<rparr>]
            else corrections);
          corrections = (if SecretRefsChanged diff
            then corrections @ [\<lparr>dc_Type = ''secret_refs_updated'', dc_Detail = ''secret refs updated''\<rparr>]
            else corrections)
      in \<lparr>dr_Timestamp = now, dr_Corrections = corrections\<rparr>)"

section \<open>config.go\<close>

record ReconcileConfig =
  rcfg_Interval :: duration

definition ReconcileConfig_ApplyDefaults :: "ReconcileConfig \<Rightarrow> ReconcileConfig" where
  "ReconcileConfig_ApplyDefaults c =
     (if rcfg_Interval c = 0 then c\<lparr>rcfg_Interval := 60 * Second\<rparr> else c)"

definition ReconcileConfig_Validate :: "ReconcileConfig \<Rightarrow> string option" where
  "ReconcileConfig_Validate c =
     (if rcfg_Interval c < 0 then Some ''reconcile: config: Interval must not be negative''
      else if rcfg_Interval c < Second then Some ''reconcile: config: Interval must be at least 1s''
      else None)"

section \<open>reconciler.go\<close>

record 'w StateFetcher =
  FetchState :: "string \<Rightarrow> 'w \<Rightarrow> (string + StateResponse option) \<times> 'w"
  ReportDrift :: "string \<Rightarrow> DriftReport \<Rightarrow> 'w \<Rightarrow> string option \<times> 'w"

type_synonym 'w ReconcileHandler =
  "StateResponse \<Rightarrow> StateDiff \<Rightarrow> 'w \<Rightarrow> string option outcome \<times> 'w"

record 'w Reconciler =
  r_client :: "'w StateFetcher option"
  r_cfg :: ReconcileConfig
  r_snapshot :: stateSnapshot
  r_handlers :: "'w ReconcileHandler list"
  r_triggerCh :: nat

definition NewReconciler :: "'w StateFetcher option \<Rightarrow> ReconcileConfig \<Rightarrow> 'w Reconciler" where
  "NewReconciler client cfg = \<lparr>r_client = client, r_cfg = ReconcileConfig_ApplyDefaults cfg,
     r_snapshot = NewStateSnapshot, r_handlers = [], r_triggerCh = 0\<rparr>"

definition RegisterHandler :: "'w ReconcileHandler \<Rightarrow> 'w Reconciler \<Rightarrow> 'w Reconciler" where
  "RegisterHandler handler r = r\<lparr>r_handlers := r_handlers r @ [handler]\<rparr>"

text \<open>The trigger channel has capacity one; a send to the full channel takes the default branch.\<close>

definition TriggerReconcile :: "'w Reconciler \<Rightarrow> 'w Reconciler" where
  "TriggerReconcile r = (if r_triggerCh r < 1 then r\<lparr>r_triggerCh := r_triggerCh r + 1\<rparr> else r)"

definition safeInvoke ::
    "'w ReconcileHandler \<Rightarrow> StateResponse \<Rightarrow> StateDiff \<Rightarrow> 'w \<Rightarrow> string option \<times> 'w" where
  "safeInvoke handler desired diff w =
     (case handler desired diff w of
        (Ret err, w') \<Rightarrow> (err, w')
      | (Panic v, w') \<Rightarrow> (Some (''handler panicked: '' @ v), w'))"

definition invokeHandlers ::
    "'w ReconcileHandler list \<Rightarrow> StateResponse \<Rightarrow> StateDiff \<Rightarrow> 'w \<Rightarrow> bool \<times> 'w" where
  "invokeHandlers handlers desired diff w =
     fold (\<lambda>handler (anyFailed, w).
         case safeInvoke handler desired diff w of
           (Some err, w') \<Rightarrow> (True, w')
         | (None, w') \<Rightarrow> (anyFailed, w'))
       handlers (False, w)"

definition runCycle ::
    "('w \<Rightarrow> time) \<Rightarrow> 'w StateFetcher \<Rightarrow> string \<Rightarrow> 'w Reconciler \<Rightarrow> 'w \<Rightarrow> 'w Reconciler \<times> 'w" where
  "runCycle now client nodeID r w =
     (case FetchState client nodeID w of
        (Inl err, w) \<Rightarrow> (r, w)
      | (Inr desired, w) \<Rightarrow>
          let current = stateSnapshot_Get (r_snapshot r);
              diff = ComputeDiff desired (Some current)
          in if IsEmpty diff then (r, w)
             else case desired of
               None \<Rightarrow> (r, w)
             | Some desired \<Rightarrow>
                 let (handlerFailed, w) = invokeHandlers (r_handlers r) desired diff w;
                     report = BuildDriftReport (now w) diff;
                     (err, w) = ReportDrift client nodeID report w
                 in if \<not> handlerFailed
                    then (r\<lparr>r_snapshot := stateSnapshot_Update desired (r_snapshot r)\<rparr>, w)
                    else (r, w))"

text \<open>
  \<open>Run\<close> validates its arguments, runs one cycle, and then serves the channels of its select:
  each step of the loop takes one ready case.  Other goroutines may call
  \<open>TriggerReconcile\<close> at any time, which is the step \<open>Call\<close>.
\<close>

datatype run_event = Done | Tick | Trigger | Call

record 'w run_state =
  rs_rec :: "'w Reconciler"
  rs_world :: 'w
  rs_stopped :: bool
  rs_cycles :: nat

definition Run_start :: "('w \<Rightarrow> time) \<Rightarrow> string \<Rightarrow> 'w Reconciler \<Rightarrow> 'w \<Rightarrow> string + 'w run_state" where
  "Run_start now nodeID r w =
     (case r_client r of
        None \<Rightarrow> Inl ''reconcile: client is nil''
      | Some client \<Rightarrow>
          if nodeID = '''' then Inl ''reconcile: nodeID is empty''
          else let (r', w') = runCycle now client nodeID r w
               in Inr \<lparr>rs_rec = r', rs_world = w', rs_stopped = False, rs_cycles = 1\<rparr>)"

definition Run_cycle :: "('w \<Rightarrow> time) \<Rightarrow> 'w StateFetcher \<Rightarrow> string \<Rightarrow> 'w run_state \<Rightarrow> 'w run_state" where
  "Run_cycle now client nodeID s =
     (let (r', w') = runCycle now client nodeID (rs_rec s) (rs_world s)
      in s\<lparr>rs_rec := r', rs_world := w', rs_cycles := rs_cycles s + 1\<rparr>)"

inductive Run_step ::
    "('w \<Rightarrow> time) \<Rightarrow> 'w StateFetcher \<Rightarrow> string \<Rightarrow> 'w run_state \<Rightarrow> run_event \<Rightarrow> 'w run_state \<Rightarrow> bool"
  for now client nodeID where
  Run_done: "\<not> rs_stopped s \<Longrightarrow> Run_step now client nodeID s Done (s\<lparr>rs_stopped := True\<rparr>)"
| Run_tick: "\<not> rs_stopped s \<Longrightarrow> Run_step now client nodeID s Tick (Run_cycle now client nodeID s)"
| Run_trigger:
    "\<not> rs_stopped s \<Longrightarrow> r_triggerCh (rs_rec s) = Suc n \<Longrightarrow>
     Run_step now client nodeID s Trigger
       (Run_cycle now client nodeID (s\<lparr>rs_rec := (rs_rec s)\<lparr>r_triggerCh := n\<rparr>\<rparr>))"
| Run_call: "Run_step now client nodeID s Call (s\<lparr>rs_rec := TriggerReconcile (rs_rec s)\<rparr>)"

inductive Run_steps ::
    "('w \<Rightarrow> time) \<Rightarrow> 'w StateFetcher \<Rightarrow> string \<Rightarrow> 'w run_state \<Rightarrow> run_event list \<Rightarrow> 'w run_state \<Rightarrow> bool"
  for now client nodeID where
  Run_nil: "Run_steps now client nodeID s [] s"
| Run_snoc: "Run_steps now client nodeID s es t \<Longrightarrow> Run_step now client nodeID t e u \<Longrightarrow>
     Run_steps now client nodeID s (es @ [e]) u"

inductive_cases Run_step_cases: "Run_step now client nodeID s e t"

section \<open>What the differ computes\<close>

lemma sortedStringsEqual_iff: "sortedStringsEqual a b \<longleftrightarrow> mset a = mset b"
proof -
  have nth: "xs = ys \<longleftrightarrow> length xs = length ys \<and> list_all (\<lambda>i. xs ! i = ys ! i) [0..<length xs]"
    for xs ys :: "string list"
    by (simp add: list_eq_iff_nth_eq[of xs ys] list_all_iff Ball_def)
  have "sortedStringsEqual a b \<longleftrightarrow> sort a = sort b"
    by (simp add: sortedStringsEqual_def Let_def nth[of "sort a" "sort b"])
  then show ?thesis by (simp add: sort_eq_iff_mset)
qed

definition same_peer :: "Peer \<Rightarrow> Peer \<Rightarrow> bool" where
  "same_peer p q \<longleftrightarrow> p_PublicKey p = p_PublicKey q \<and> p_MeshIP p = p_MeshIP q \<and>
     p_Endpoint p = p_Endpoint q \<and> p_PSK p = p_PSK q \<and> mset (p_AllowedIPs p) = mset (p_AllowedIPs q)"

lemma peerChanged_iff: "peerChanged d c \<longleftrightarrow> \<not> same_peer d c"
  by (auto simp: peerChanged_def same_peer_def sortedStringsEqual_iff)

lemma same_peer_refl [simp]: "same_peer p p"
  by (simp add: same_peer_def)

lemma diffPeers_fold:
  "fold (\<lambda>dp (desiredByID, diff).
      (mput (p_ID dp) () desiredByID,
       case mget cur (p_ID dp) of
         None \<Rightarrow> diff\<lparr>PeersToAdd := PeersToAdd diff @ [dp]\<rparr>
       | Some cp \<Rightarrow> if peerChanged dp cp then diff\<lparr>PeersToUpdate := PeersToUpdate diff @ [dp]\<rparr> else diff))
     desired (seen, diff) =
   (fold (\<lambda>dp. mput (p_ID dp) ()) desired seen,
    diff\<lparr>PeersToAdd := PeersToAdd diff @ filter (\<lambda>dp. mget cur (p_ID dp) = None) desired,
         PeersToUpdate := PeersToUpdate diff @
           filter (\<lambda>dp. \<exists>cp. mget cur (p_ID dp) = Some cp \<and> peerChanged dp cp) desired\<rparr>)"
  by (induction desired arbitrary: seen diff) (auto split: option.splits)

lemma diffPeers_remove_fold:
  "fold (\<lambda>cp diff. if P cp then diff\<lparr>PeersToRemove := PeersToRemove diff @ [p_ID cp]\<rparr> else diff) cs diff =
   diff\<lparr>PeersToRemove := PeersToRemove diff @ map p_ID (filter P cs)\<rparr>"
  by (induction cs arbitrary: diff) auto

lemma diffPolicies_fold:
  "fold (\<lambda>dp (desiredByID, diff).
      (mput (pol_ID dp) () desiredByID,
       if mget cur (pol_ID dp) = None
       then diff\<lparr>PoliciesToAdd := PoliciesToAdd diff @ [dp]\<rparr> else diff))
     desired (seen, diff) =
   (fold (\<lambda>dp. mput (pol_ID dp) ()) desired seen,
    diff\<lparr>PoliciesToAdd := PoliciesToAdd diff @ filter (\<lambda>dp. mget cur (pol_ID dp) = None) desired\<rparr>)"
  by (induction desired arbitrary: seen diff) auto

lemma diffPolicies_remove_fold:
  "fold (\<lambda>cp diff. if P cp then diff\<lparr>PoliciesToRemove := PoliciesToRemove diff @ [pol_ID cp]\<rparr> else diff) cs diff =
   diff\<lparr>PoliciesToRemove := PoliciesToRemove diff @ map pol_ID (filter P cs)\<rparr>"
  by (induction cs arbitrary: diff) auto

lemma diffPeers_eq:
  "diffPeers desired current diff = diff
     \<lparr>PeersToAdd := PeersToAdd diff @ filter (\<lambda>dp. p_ID dp \<notin> p_ID ` set current) desired,
      PeersToUpdate := PeersToUpdate diff @
        filter (\<lambda>dp. \<exists>cp. mget (fold (\<lambda>p. mput (p_ID p) p) current []) (p_ID dp) = Some cp \<and>
                          \<not> same_peer dp cp) desired,
      PeersToRemove := PeersToRemove diff @
        map p_ID (filter (\<lambda>cp. p_ID cp \<notin> p_ID ` set desired) current)\<rparr>"
proof -
  have absent: "mget (fold (\<lambda>p. mput (p_ID p) (g p)) ps []) k = None \<longleftrightarrow> k \<notin> p_ID ` set ps"
    for k ps and g :: "Peer \<Rightarrow> 'x"
    using gm.has_build[of p_ID g ps "[]" k] by auto
  show ?thesis
    unfolding diffPeers_def Let_def diffPeers_fold split_conv diffPeers_remove_fold absent
    by (simp add: peerChanged_iff)
qed

lemma diffPolicies_eq:
  "diffPolicies desired current diff = diff
     \<lparr>PoliciesToAdd := PoliciesToAdd diff @ filter (\<lambda>dp. pol_ID dp \<notin> pol_ID ` set current) desired,
      PoliciesToRemove := PoliciesToRemove diff @
        map pol_ID (filter (\<lambda>cp. pol_ID cp \<notin> pol_ID ` set desired) current)\<rparr>"
proof -
  have absent: "mget (fold (\<lambda>p. mput (pol_ID p) ()) ps []) k = None \<longleftrightarrow> k \<notin> pol_ID ` set ps" for k ps
    using gm.has_build[of pol_ID "\<lambda>_. ()" ps "[]" k] by auto
  show ?thesis
    unfolding diffPolicies_def Let_def diffPolicies_fold split_conv diffPolicies_remove_fold absent
    by simp
qed

text \<open>The version table of a list of entries: the last entry of a key wins.\<close>

definition data_versions :: "DataEntry list \<Rightarrow> string \<rightharpoonup> int" where
  "data_versions es = map_of (rev (map (\<lambda>e. (de_Key e, de_Version e)) es))"

definition secret_versions :: "SecretRef list \<Rightarrow> string \<rightharpoonup> int" where
  "secret_versions ss = map_of (rev (map (\<lambda>s. (sr_Key s, sr_Version s)) ss))"

lemma version_maps_differ:
  assumes "mwf d" "mwf c"
  shows "(list_ex (\<lambda>(k, dv). case mget c k of None \<Rightarrow> True | Some cv \<Rightarrow> dv \<noteq> cv) d \<or>
          list_ex (\<lambda>(k, cv). mget d k = None) c) \<longleftrightarrow> mget d \<noteq> mget c"
proof -
  have 1: "list_ex (\<lambda>(k, dv). case mget c k of None \<Rightarrow> True | Some cv \<Rightarrow> dv \<noteq> cv) d \<longleftrightarrow>
      (\<exists>k dv. mget d k = Some dv \<and> mget c k \<noteq> Some dv)"
    using assms(1) by (fastforce simp: list_ex_iff split: option.splits)
  have 2: "list_ex (\<lambda>(k, cv). mget d k = None) c \<longleftrightarrow> (\<exists>k cv. mget c k = Some cv \<and> mget d k = None)"
    using assms(2) by (fastforce simp: list_ex_iff)
  show ?thesis
    unfolding 1 2 fun_eq_iff by (metis not_None_eq)
qed

lemma diffData_eq:
  "diffData desired current diff = diff
     \<lparr>DataChanged := DataChanged diff \<or> data_versions desired \<noteq> data_versions current\<rparr>"
proof -
  let ?m = "\<lambda>es. fold (\<lambda>e. mput (de_Key e) (de_Version e)) es []"
  have v: "mget (?m es) = data_versions es" for es
    by (auto simp: data_versions_def fun_eq_iff gm.get_build split: option.splits)
  have wf: "mwf (?m es)" for es by (rule gm.wf_build) simp
  note differ = version_maps_differ[OF wf[of desired] wf[of current], unfolded v]
  show ?thesis
    unfolding diffData_def Let_def using differ by (auto simp: v)
qed

lemma diffSecretRefs_eq:
  "diffSecretRefs desired current diff = diff
     \<lparr>SecretRefsChanged := SecretRefsChanged diff \<or> secret_versions desired \<noteq> secret_versions current\<rparr>"
proof -
  let ?m = "\<lambda>es. fold (\<lambda>e. mput (sr_Key e) (sr_Version e)) es []"
  have v: "mget (?m es) = secret_versions es" for es
    by (auto simp: secret_versions_def fun_eq_iff gm.get_build split: option.splits)
  have wf: "mwf (?m es)" for es by (rule gm.wf_build) simp
  note differ = version_maps_differ[OF wf[of desired] wf[of current], unfolded v]
  show ?thesis
    unfolding diffSecretRefs_def Let_def using differ by (auto simp: v)
qed

lemma maps_Equal_iff:
  assumes "mwf m1" "mwf m2"
  shows "maps_Equal m1 m2 \<longleftrightarrow> mget m1 = mget m2"
proof
  assume eq: "maps_Equal m1 m2"
  then have len: "length m1 = length m2"
    and sub: "\<And>k v. mget m1 k = Some v \<Longrightarrow> mget m2 k = Some v"
    by (fastforce simp: maps_Equal_def list_all_iff split: if_splits option.splits dest: map_of_SomeD)+
  have "set (mkeys m1) \<subseteq> set (mkeys m2)"
    unfolding gm.set_keys using sub by auto
  moreover have "card (set (mkeys m1)) = card (set (mkeys m2))"
    using len assms by (metis distinct_card length_map)
  ultimately have keys: "set (mkeys m1) = set (mkeys m2)"
    by (simp add: card_subset_eq)
  show "mget m1 = mget m2"
  proof
    fix k
    have "mhas m1 k \<longleftrightarrow> mhas m2 k" using keys unfolding gm.set_keys by blast
    then show "mget m1 k = mget m2 k"
      using sub[of k] by (cases "mget m1 k"; cases "mget m2 k") auto
  qed
next
  assume eq: "mget m1 = mget m2"
  then have "set (mkeys m1) = set (mkeys m2)" by (simp only: gm.set_keys)
  then have "length m1 = length m2"
    using assms by (metis distinct_card length_map)
  then show "maps_Equal m1 m2"
    using assms(1) by (auto simp: maps_Equal_def list_all_iff eq[symmetric])
qed

definition signing_keys_differ :: "SigningKeys option \<Rightarrow> SigningKeys option \<Rightarrow> bool" where
  "signing_keys_differ d c \<longleftrightarrow>
     map_option (\<lambda>k. (sk_Current k, sk_Previous k)) d \<noteq> map_option (\<lambda>k. (sk_Current k, sk_Previous k)) c"

lemma diffSigningKeys_eq:
  "diffSigningKeys d c diff =
     (if signing_keys_differ d c then diff\<lparr>SigningKeysChanged := True, NewSigningKeys := d\<rparr> else diff)"
  by (cases "(d, c, diff)" rule: diffSigningKeys.cases) (auto simp: signing_keys_differ_def)

lemma ComputeDiff_eq:
  "ComputeDiff (Some d) (Some c) =
     \<lparr>PeersToAdd = filter (\<lambda>dp. p_ID dp \<notin> p_ID ` set (sr_Peers c)) (sr_Peers d),
      PeersToRemove = map p_ID (filter (\<lambda>cp. p_ID cp \<notin> p_ID ` set (sr_Peers d)) (sr_Peers c)),
      PeersToUpdate = filter (\<lambda>dp. \<exists>cp. mget (fold (\<lambda>p. mput (p_ID p) p) (sr_Peers c) []) (p_ID dp) = Some cp \<and>
                          \<not> same_peer dp cp) (sr_Peers d),
      PoliciesToAdd = filter (\<lambda>dp. pol_ID dp \<notin> pol_ID ` set (sr_Policies c)) (sr_Policies d),
      PoliciesToRemove = map pol_ID (filter (\<lambda>cp. pol_ID cp \<notin> pol_ID ` set (sr_Policies d)) (sr_Policies c)),
      SigningKeysChanged = signing_keys_differ (sr_SigningKeys d) (sr_SigningKeys c),
      NewSigningKeys = (if signing_keys_differ (sr_SigningKeys d) (sr_SigningKeys c) then sr_SigningKeys d else None),
      MetadataChanged = (\<not> maps_Equal (sr_Metadata d) (sr_Metadata c)),
      DataChanged = (data_versions (sr_Data d) \<noteq> data_versions (sr_Data c)),
      SecretRefsChanged = (secret_versions (sr_SecretRefs d) \<noteq> secret_versions (sr_SecretRefs c))\<rparr>"
  unfolding ComputeDiff_def option.case Let_def diffSecretRefs_eq diffData_eq diffMetadata_def
    diffSigningKeys_eq diffPolicies_eq diffPeers_eq emptyStateDiff_def
  by simp

text \<open>The peers of a state as a table, and two tables that hold the same peers.\<close>

definition peer_table :: "Peer list \<Rightarrow> string \<rightharpoonup> Peer" where
  "peer_table ps = map_of (map (\<lambda>p. (p_ID p, p)) ps)"

definition unique_peers :: "Peer list \<Rightarrow> bool" where
  "unique_peers ps \<longleftrightarrow> distinct (map p_ID ps)"

definition same_peers :: "Peer list \<Rightarrow> Peer list \<Rightarrow> bool" where
  "same_peers ps qs \<longleftrightarrow> p_ID ` set ps = p_ID ` set qs \<and>
     (\<forall>p \<in> set ps. \<forall>q \<in> set qs. p_ID p = p_ID q \<longrightarrow> same_peer p q)"

definition in_sync :: "StateResponse \<Rightarrow> StateResponse \<Rightarrow> bool" where
  "in_sync d c \<longleftrightarrow>
     same_peers (sr_Peers d) (sr_Peers c) \<and>
     pol_ID ` set (sr_Policies d) = pol_ID ` set (sr_Policies c) \<and>
     map_option (\<lambda>k. (sk_Current k, sk_Previous k)) (sr_SigningKeys d) =
       map_option (\<lambda>k. (sk_Current k, sk_Previous k)) (sr_SigningKeys c) \<and>
     mget (sr_Metadata d) = mget (sr_Metadata c) \<and>
     data_versions (sr_Data d) = data_versions (sr_Data c) \<and>
     secret_versions (sr_SecretRefs d) = secret_versions (sr_SecretRefs c)"

definition wf_state :: "StateResponse \<Rightarrow> bool" where
  "wf_state s \<longleftrightarrow> unique_peers (sr_Peers s) \<and> mwf (sr_Metadata s)"

lemma current_index:
  assumes "unique_peers ps"
  shows "mget (fold (\<lambda>p. mput (p_ID p) p) ps []) k = Some p \<longleftrightarrow> p \<in> set ps \<and> p_ID p = k"
proof
  have inj: "inj_on p_ID (set ps)" using assms by (simp add: unique_peers_def distinct_map)
  { assume "p \<in> set ps \<and> p_ID p = k"
    then show "mget (fold (\<lambda>p. mput (p_ID p) p) ps []) k = Some p"
      using gm.get_build_in[OF _ inj, of p "\<lambda>p. p" "[]"] by auto }
  assume get: "mget (fold (\<lambda>p. mput (p_ID p) p) ps []) k = Some p"
  then have "k \<in> p_ID ` set ps"
    using gm.has_build[of p_ID "\<lambda>p. p" ps "[]" k] by auto
  then obtain q where q: "q \<in> set ps" "p_ID q = k" by blast
  then show "p \<in> set ps \<and> p_ID p = k"
    using gm.get_build_in[OF q(1) inj, of "\<lambda>p. p" "[]"] get by simp
qed

lemma peers_diff_empty_iff:
  assumes "unique_peers (sr_Peers c)"
  shows "PeersToAdd (ComputeDiff (Some d) (Some c)) = [] \<and> PeersToRemove (ComputeDiff (Some d) (Some c)) = [] \<and>
      PeersToUpdate (ComputeDiff (Some d) (Some c)) = [] \<longleftrightarrow> same_peers (sr_Peers d) (sr_Peers c)"
  unfolding ComputeDiff_eq same_peers_def using current_index[OF assms]
  by (auto simp: filter_empty_conv)

lemma policies_diff_empty_iff:
  "PoliciesToAdd (ComputeDiff (Some d) (Some c)) = [] \<and> PoliciesToRemove (ComputeDiff (Some d) (Some c)) = [] \<longleftrightarrow>
     pol_ID ` set (sr_Policies d) = pol_ID ` set (sr_Policies c)"
  unfolding ComputeDiff_eq by (auto simp: filter_empty_conv)

lemma IsEmpty_iff:
  assumes "unique_peers (sr_Peers c)" "mwf (sr_Metadata d)" "mwf (sr_Metadata c)"
  shows "IsEmpty (ComputeDiff (Some d) (Some c)) \<longleftrightarrow> in_sync d c"
  using peers_diff_empty_iff[OF assms(1), of d] policies_diff_empty_iff[of d c]
  unfolding IsEmpty_def in_sync_def length_0_conv
  by (simp add: ComputeDiff_eq maps_Equal_iff[OF assms(2,3)] signing_keys_differ_def) blast

section \<open>Applying a diff\<close>

text \<open>What a handler that follows the diff does to its own list of peers and of policies.\<close>

definition apply_peers :: "StateDiff \<Rightarrow> Peer list \<Rightarrow> Peer list" where
  "apply_peers diff cur =
     filter (\<lambda>p. p_ID p \<notin> set (PeersToRemove diff) \<and> p_ID p \<notin> p_ID ` set (PeersToUpdate diff)) cur @
     PeersToUpdate diff @ PeersToAdd diff"

definition apply_policies :: "StateDiff \<Rightarrow> Policy list \<Rightarrow> Policy list" where
  "apply_policies diff cur =
     filter (\<lambda>p. pol_ID p \<notin> set (PoliciesToRemove diff)) cur @ PoliciesToAdd diff"

lemma unique_peers_filter: "unique_peers ps \<Longrightarrow> unique_peers (filter P ps)"
  by (simp add: unique_peers_def distinct_map_filter)

lemma unique_peersD: "unique_peers ps \<Longrightarrow> p \<in> set ps \<Longrightarrow> q \<in> set ps \<Longrightarrow> p_ID p = p_ID q \<Longrightarrow> p = q"
  by (auto simp: unique_peers_def distinct_map inj_on_def)

lemma unique_peers_append:
  "unique_peers (ps @ qs) \<longleftrightarrow> unique_peers ps \<and> unique_peers qs \<and> p_ID ` set ps \<inter> p_ID ` set qs = {}"
  by (simp add: unique_peers_def)

lemma apply_peers_unique:
  assumes "unique_peers (sr_Peers d)" "unique_peers (sr_Peers c)"
  shows "unique_peers (apply_peers (ComputeDiff (Some d) (Some c)) (sr_Peers c))"
  unfolding apply_peers_def ComputeDiff_eq
  using assms by (auto simp: unique_peers_append unique_peers_filter current_index) (metis image_eqI)+

lemma merged_ids:
  assumes "U \<subseteq> D"
  shows "f ` ({c \<in> C. f c \<in> f ` D \<and> f c \<notin> f ` U} \<union> U \<union> {d \<in> D. f d \<notin> f ` C}) = f ` D"
proof (intro equalityI subsetI)
  fix k assume "k \<in> f ` D"
  then consider "k \<in> f ` U" | "k \<in> f ` D" "k \<notin> f ` C" | c where "c \<in> C" "k = f c" "f c \<in> f ` D" "f c \<notin> f ` U"
    by blast
  then show "k \<in> f ` ({c \<in> C. f c \<in> f ` D \<and> f c \<notin> f ` U} \<union> U \<union> {d \<in> D. f d \<notin> f ` C})"
    by cases blast+
qed (use assms in blast)

lemma apply_peers_same:
  assumes "unique_peers (sr_Peers d)" "unique_peers (sr_Peers c)"
  shows "same_peers (apply_peers (ComputeDiff (Some d) (Some c)) (sr_Peers c)) (sr_Peers d)"
proof -
  let ?D = "set (sr_Peers d)" and ?C = "set (sr_Peers c)" and ?diff = "ComputeDiff (Some d) (Some c)"
  define U where "U = {dp \<in> ?D. \<exists>cp. (cp \<in> ?C \<and> p_ID cp = p_ID dp) \<and> \<not> same_peer dp cp}"
  have U: "set (PeersToUpdate ?diff) = U" "U \<subseteq> ?D"
    by (auto simp: ComputeDiff_eq current_index[OF assms(2)] U_def)
  have "set (PeersToRemove ?diff) = p_ID ` {cp \<in> ?C. p_ID cp \<notin> p_ID ` ?D}"
    "set (PeersToAdd ?diff) = {dp \<in> ?D. p_ID dp \<notin> p_ID ` ?C}"
    by (simp_all add: ComputeDiff_eq)
  moreover have "p_ID cp \<notin> p_ID ` {x \<in> ?C. p_ID x \<notin> p_ID ` ?D} \<longleftrightarrow> p_ID cp \<in> p_ID ` ?D" if "cp \<in> ?C" for cp
    using that by (auto simp: image_iff)
  ultimately have set_eq: "set (apply_peers ?diff (sr_Peers c)) =
      {cp \<in> ?C. p_ID cp \<in> p_ID ` ?D \<and> p_ID cp \<notin> p_ID ` U} \<union> U \<union> {dp \<in> ?D. p_ID dp \<notin> p_ID ` ?C}"
    unfolding apply_peers_def set_append set_filter U(1) by (simp add: Un_assoc cong: conj_cong)
  have kept: "same_peer p q" if p: "p \<in> ?C" "p_ID p \<notin> p_ID ` U" and q: "q \<in> ?D" "p_ID p = p_ID q" for p q
  proof -
    have "q \<notin> U" using p(2) q(2) by auto
    then have "same_peer q p" using p(1) q unfolding U_def by blast
    then show ?thesis by (simp add: same_peer_def)
  qed
  have new: "same_peer p q" if "p \<in> ?D" "q \<in> ?D" "p_ID p = p_ID q" for p q
    using unique_peersD[OF assms(1) that] by simp
  show ?thesis
    unfolding same_peers_def set_eq merged_ids[OF U(2)] using kept new U(2) by blast
qed

lemma apply_policies_ids:
  "pol_ID ` set (apply_policies (ComputeDiff (Some d) (Some c)) (sr_Policies c)) = pol_ID ` set (sr_Policies d)"
proof -
  let ?D = "set (sr_Policies d)" and ?C = "set (sr_Policies c)"
  have "pol_ID cp \<notin> pol_ID ` {x \<in> ?C. pol_ID x \<notin> pol_ID ` ?D} \<longleftrightarrow> pol_ID cp \<in> pol_ID ` ?D" if "cp \<in> ?C" for cp
    using that by (auto simp: image_iff)
  then have "set (apply_policies (ComputeDiff (Some d) (Some c)) (sr_Policies c)) =
      {cp \<in> ?C. pol_ID cp \<in> pol_ID ` ?D} \<union> {dp \<in> ?D. pol_ID dp \<notin> pol_ID ` ?C}"
    by (simp add: apply_policies_def ComputeDiff_eq cong: conj_cong)
  then show ?thesis using merged_ids[of "{}" ?D pol_ID ?C] by simp
qed

section \<open>The drift report\<close>

lemma fold_snoc: "fold (\<lambda>x cs. cs @ [f x]) xs cs = cs @ map f xs"
  by (induction xs arbitrary: cs) auto

lemma BuildDriftReport_eq:
  "dr_Corrections (BuildDriftReport now diff) =
     map (\<lambda>p. \<lparr>dc_Type = ''peer_added'', dc_Detail = ''peer '' @ p_ID p\<rparr>) (PeersToAdd diff) @
     map (\<lambda>i. \<lparr>dc_Type = ''peer_removed'', dc_Detail = ''peer '' @ i\<rparr>) (PeersToRemove diff) @
     map (\<lambda>p. \<lparr>dc_Type = ''peer_updated'', dc_Detail = ''peer '' @ p_ID p\<rparr>) (PeersToUpdate diff) @
     map (\<lambda>p. \<lparr>dc_Type = ''policy_added'', dc_Detail = ''policy '' @ pol_ID p\<rparr>) (PoliciesToAdd diff) @
     map (\<lambda>i. \<lparr>dc_Type = ''policy_removed'', dc_Detail = ''policy '' @ i\<rparr>) (PoliciesToRemove diff) @
     (if SigningKeysChanged diff
      then [\<lparr>dc_Type = ''signing_keys_updated'', dc_Detail = ''signing keys rotated''\<rparr>] else []) @
     (if MetadataChanged diff then [\<lparr>dc_Type = ''metadata_updated'', dc_Detail = ''metadata updated''\<rparr>] else []) @
     (if DataChanged diff then [\<lparr>dc_Type = ''data_updated'', dc_Detail = ''data updated''\<rparr>] else []) @
     (if SecretRefsChanged diff
      then [\<lparr>dc_Type = ''secret_refs_updated'', dc_Detail = ''secret refs updated''\<rparr>] else [])"
  unfolding BuildDriftReport_def Let_def fold_snoc by simp

section \<open>The cycle\<close>

lemma snapshot_roundtrip:
  "stateSnapshot_Get (stateSnapshot_Update d s) = emptyStateResponse\<lparr>sr_Peers := sr_Peers d,
     sr_Policies := sr_Policies d, sr_SigningKeys := sr_SigningKeys d, sr_Metadata := sr_Metadata d,
     sr_Data := sr_Data d, sr_SecretRefs := sr_SecretRefs d\<rparr>"
  by (simp add: stateSnapshot_Get_def stateSnapshot_Update_def)

lemma same_peers_refl: "unique_peers ps \<Longrightarrow> same_peers ps ps"
  using unique_peersD[of ps] unfolding same_peers_def by (metis same_peer_refl)

lemma in_sync_snapshot: "unique_peers (sr_Peers d) \<Longrightarrow> in_sync d (stateSnapshot_Get (stateSnapshot_Update d s))"
  unfolding snapshot_roundtrip in_sync_def by (simp add: same_peers_refl)

text \<open>The worlds through which the handlers run, and whether handler \<open>i\<close> failed in its own.\<close>

definition handler_world :: "'w ReconcileHandler list \<Rightarrow> StateResponse \<Rightarrow> StateDiff \<Rightarrow> 'w \<Rightarrow> nat \<Rightarrow> 'w" where
  "handler_world hs d diff w i = fold (\<lambda>h w. snd (h d diff w)) (take i hs) w"

lemma snd_safeInvoke: "snd (safeInvoke h d diff w) = snd (h d diff w)"
  by (auto simp: safeInvoke_def split: prod.splits outcome.splits)

lemma fst_safeInvoke: "fst (safeInvoke h d diff w) = None \<longleftrightarrow> fst (h d diff w) = Ret None"
  by (auto simp: safeInvoke_def split: prod.splits outcome.splits)

lemma invokeHandlers_snoc:
  "invokeHandlers (hs @ [h]) d diff w =
     (fst (invokeHandlers hs d diff w) \<or> fst (h d diff (snd (invokeHandlers hs d diff w))) \<noteq> Ret None,
      snd (h d diff (snd (invokeHandlers hs d diff w))))"
  by (simp add: invokeHandlers_def safeInvoke_def split: prod.splits outcome.splits option.splits)

lemma invokeHandlers_eq:
  "invokeHandlers hs d diff w =
     ((\<exists>i < length hs. fst ((hs ! i) d diff (handler_world hs d diff w i)) \<noteq> Ret None),
      handler_world hs d diff w (length hs))"
proof (induction hs rule: rev_induct)
  case Nil
  then show ?case by (simp add: invokeHandlers_def handler_world_def)
next
  case (snoc h hs)
  have prefix: "i \<le> length hs \<Longrightarrow> handler_world (hs @ [h]) d diff w i = handler_world hs d diff w i" for i
    by (simp add: handler_world_def)
  have last: "handler_world (hs @ [h]) d diff w (length (hs @ [h])) =
      snd (h d diff (handler_world hs d diff w (length hs)))"
    by (simp add: handler_world_def)
  show ?case
    unfolding invokeHandlers_snoc snoc last
    by (simp add: Ex_less_Suc prefix nth_append disj_commute cong: conj_cong)
qed

lemma runCycle_fetched:
  assumes "FetchState client nodeID w = (Inr (Some d), w1)"
  shows "runCycle now client nodeID r w =
     (let diff = ComputeDiff (Some d) (Some (stateSnapshot_Get (r_snapshot r)));
          w2 = handler_world (r_handlers r) d diff w1 (length (r_handlers r));
          w3 = snd (ReportDrift client nodeID (BuildDriftReport (now w2) diff) w2)
      in if IsEmpty diff then (r, w1)
         else if \<forall>i < length (r_handlers r).
             fst ((r_handlers r ! i) d diff (handler_world (r_handlers r) d diff w1 i)) = Ret None
         then (r\<lparr>r_snapshot := stateSnapshot_Update d (r_snapshot r)\<rparr>, w3)
         else (r, w3))"
  using assms unfolding runCycle_def invokeHandlers_eq by (auto simp: Let_def split: prod.splits)

lemma runCycle_keeps:
  "r_triggerCh (fst (runCycle now client nodeID r w)) = r_triggerCh r"
  "r_handlers (fst (runCycle now client nodeID r w)) = r_handlers r"
  unfolding runCycle_def by (auto simp: Let_def split: prod.splits sum.splits option.splits)

lemma Run_cycle_triggerCh: "r_triggerCh (rs_rec (Run_cycle now client nodeID s)) = r_triggerCh (rs_rec s)"
  by (simp add: Run_cycle_def split_beta runCycle_keeps)

lemma Run_cycle_cycles: "rs_cycles (Run_cycle now client nodeID s) = rs_cycles s + 1"
  by (simp add: Run_cycle_def split_beta)

text \<open>Whether some call of \<open>TriggerReconcile\<close> has not been followed by a triggered cycle.\<close>

definition unserved :: "run_event list \<Rightarrow> bool" where
  "unserved es = fold (\<lambda>e b. if e = Call then True else if e = Trigger then False else b) es False"

definition trigger_inv :: "nat \<Rightarrow> run_event list \<Rightarrow> 'w run_state \<Rightarrow> bool" where
  "trigger_inv n es s \<longleftrightarrow>
     r_triggerCh (rs_rec s) = (if unserved es then 1 else 0) \<and>
     count_list es Trigger + r_triggerCh (rs_rec s) \<le> count_list es Call \<and>
     rs_cycles s = n + count_list es Tick + count_list es Trigger"

lemma trigger_inv_step:
  assumes "trigger_inv n es s" "Run_step now client nodeID s e t"
  shows "trigger_inv n (es @ [e]) t"
  using assms(2,1) unfolding trigger_inv_def
  by cases (auto simp: Run_cycle_triggerCh Run_cycle_cycles TriggerReconcile_def unserved_def split: if_splits)

lemma trigger_inv_steps:
  assumes "Run_steps now client nodeID s es t" "r_triggerCh (rs_rec s) = 0"
  shows "trigger_inv (rs_cycles s) es t"
  using assms
proof induction
  case (Run_nil s)
  then show ?case by (simp add: trigger_inv_def unserved_def)
next
  case (Run_snoc s es t e u)
  then show ?case using trigger_inv_step by blast
qed

section \<open>Properties of the reconciler\<close>

definition ex_peer :: "string \<Rightarrow> string \<Rightarrow> Peer" where
  "ex_peer i ep = \<lparr>p_ID = i, p_PublicKey = ''k'' @ i, p_MeshIP = ''10.0.0.1'', p_Endpoint = ep,
     p_AllowedIPs = [''10.0.0.1/32''], p_PSK = ''''\<rparr>"

definition ex_desired :: StateResponse where
  "ex_desired = emptyStateResponse\<lparr>sr_Peers := [ex_peer ''a'' ''e1'', ex_peer ''b'' ''e2'']\<rparr>"

definition ex_current :: StateResponse where
  "ex_current = emptyStateResponse\<lparr>sr_Peers := [ex_peer ''c'' ''e3'', ex_peer ''a'' ''e0'']\<rparr>"

definition ex_fetcher :: "nat StateFetcher" where
  "ex_fetcher = \<lparr>FetchState = \<lambda>_ w. (Inr (Some ex_desired), w), ReportDrift = \<lambda>_ _ w. (None, Suc w)\<rparr>"

lemmas ex_state_simps = ex_desired_def ex_current_def ex_peer_def ex_fetcher_def emptyStateResponse_def
  unique_peers_def



text \<open>The diff is empty exactly when the two states agree on everything the reconciler tracks: peers,
  policy identifiers, current and previous signing keys, metadata, and the version of every data
  entry and secret reference.\<close>

theorem IsEmpty_ComputeDiff:
  assumes "wf_state d" "wf_state c"
  shows "IsEmpty (ComputeDiff (Some d) (Some c)) \<longleftrightarrow> in_sync d c"
  using assms IsEmpty_iff by (simp add: wf_state_def)

theorem IsEmpty_ComputeDiff_witness:
  "\<not> in_sync ex_desired ex_current \<and> in_sync ex_desired ex_desired"
proof -
  have wf: "wf_state ex_desired" "wf_state ex_current"
    by (simp_all add: ex_state_simps wf_state_def)
  have "\<not> IsEmpty (ComputeDiff (Some ex_desired) (Some ex_current))"
    "IsEmpty (ComputeDiff (Some ex_desired) (Some ex_desired))"
    by (simp_all add: IsEmpty_def ComputeDiff_eq) (simp_all add: ex_state_simps same_peer_def maps_Equal_def signing_keys_differ_def)
  then show ?thesis using IsEmpty_ComputeDiff wf by blast
qed

text \<open>C2: One cycle, on every branch.  A failed fetch or an empty diff changes nothing but what the fetch
  did.  Otherwise every handler runs once, in registration order, whatever the earlier ones
  returned and even if they panicked; the drift is reported; and the snapshot becomes the desired
  state exactly when every handler returned nil.\<close>

theorem runCycle_behaviour:
  "runCycle now client nodeID r w =
     (case FetchState client nodeID w of
        (Inl err, w1) \<Rightarrow> (r, w1)
      | (Inr None, w1) \<Rightarrow> (r, w1)
      | (Inr (Some d), w1) \<Rightarrow>
          let diff = ComputeDiff (Some d) (Some (stateSnapshot_Get (r_snapshot r)));
              hs = r_handlers r;
              before = (\<lambda>i. fold (\<lambda>h w. snd (h d diff w)) (take i hs) w1);
              w2 = before (length hs);
              w3 = snd (ReportDrift client nodeID (BuildDriftReport (now w2) diff) w2)
          in if IsEmpty diff then (r, w1)
             else if \<exists>i < length hs. fst ((hs ! i) d diff (before i)) \<noteq> Ret None then (r, w3)
             else (r\<lparr>r_snapshot := stateSnapshot_Update d (r_snapshot r)\<rparr>, w3))"
proof (cases "FetchState client nodeID w")
  case (Pair res w1)
  show ?thesis
  proof (cases res)
    case (Inl err)
    then show ?thesis using Pair by (simp add: runCycle_def)
  next
    case (Inr d)
    show ?thesis
    proof (cases d)
      case None
      then show ?thesis using Pair Inr by (simp add: runCycle_def Let_def)
    next
      case (Some x)
      then show ?thesis
        using runCycle_fetched[of client nodeID w x w1 now r] Pair Inr
        unfolding handler_world_def Let_def by auto
    qed
  qed
qed

text \<open>C3: Convergence: after a cycle in which no handler failed, a cycle that fetches a state that agrees
  with the applied one runs no handler, reports nothing and keeps the reconciler as it is.\<close>

theorem runCycle_converges:
  assumes "FetchState client nodeID w = (Inr (Some d), w1)"
    and "wf_state d"
    and "\<not> fst (invokeHandlers (r_handlers r) d (ComputeDiff (Some d) (Some (stateSnapshot_Get (r_snapshot r)))) w1)"
    and "\<not> IsEmpty (ComputeDiff (Some d) (Some (stateSnapshot_Get (r_snapshot r))))"
    and "runCycle now client nodeID r w = (r', w')"
    and "FetchState client nodeID w' = (Inr (Some d'), w2)"
    and "mwf (sr_Metadata d')" and "in_sync d' d"
  shows "runCycle now client nodeID r' w' = (r', w2)"
proof -
  have snap: "r_snapshot r' = stateSnapshot_Update d (r_snapshot r)"
    using assms(3-5) unfolding runCycle_fetched[OF assms(1)] invokeHandlers_eq
    by (auto simp: Let_def)
  have "in_sync d' (stateSnapshot_Get (r_snapshot r'))"
    using assms(8) unfolding snap snapshot_roundtrip in_sync_def by simp
  then have "IsEmpty (ComputeDiff (Some d') (Some (stateSnapshot_Get (r_snapshot r'))))"
    using assms(2,7) by (subst IsEmpty_iff) (simp_all add: snap snapshot_roundtrip wf_state_def)
  then show ?thesis
    unfolding runCycle_fetched[OF assms(6)] by (simp add: Let_def)
qed

definition ex_reconciler :: "nat Reconciler" where
  "ex_reconciler = RegisterHandler (\<lambda>d diff w. (Ret None, w + 10)) (NewReconciler (Some ex_fetcher) \<lparr>rcfg_Interval = 0\<rparr>)"

theorem runCycle_converges_witness:
  "\<exists>r'. runCycle int ex_fetcher ''n'' ex_reconciler 0 = (r', 11) \<and> runCycle int ex_fetcher ''n'' r' 11 = (r', 11)"
proof -
  have ex: "stateSnapshot_Get (r_snapshot ex_reconciler) = emptyStateResponse"
      "r_handlers ex_reconciler = [\<lambda>d diff w. (Ret None, w + 10)]"
    by (simp_all add: ex_reconciler_def RegisterHandler_def NewReconciler_def NewStateSnapshot_def
        stateSnapshot_Get_def emptyStateResponse_def)
  have fetch: "FetchState ex_fetcher ''n'' w = (Inr (Some ex_desired), w)" for w
    by (simp add: ex_fetcher_def)
  have diff: "\<not> IsEmpty (ComputeDiff (Some ex_desired) (Some emptyStateResponse))"
    by (simp add: IsEmpty_def ComputeDiff_eq) (simp add: ex_state_simps)
  have wf: "wf_state ex_desired" by (simp add: wf_state_def ex_state_simps)
  obtain r' where run: "runCycle int ex_fetcher ''n'' ex_reconciler 0 = (r', 11)"
    unfolding runCycle_fetched[OF fetch] ex using diff
    by (simp add: Let_def handler_world_def ex_fetcher_def)
  have ok: "\<not> fst (invokeHandlers (r_handlers ex_reconciler) ex_desired
      (ComputeDiff (Some ex_desired) (Some (stateSnapshot_Get (r_snapshot ex_reconciler)))) 0)"
    by (simp add: ex invokeHandlers_def safeInvoke_def)
  have sync: "in_sync ex_desired ex_desired"
    using wf by (simp add: in_sync_def wf_state_def same_peers_refl)
  show ?thesis
    using run runCycle_converges[OF fetch wf ok diff[folded ex(1)] run fetch _ sync] wf
    by (simp add: wf_state_def)
qed

text \<open>The drift report has one correction per drifted item, peers first in the order added, removed,
  updated, then policies, then the changed categories; it is empty exactly for an empty diff.\<close>

theorem BuildDriftReport_complete:
  "map dc_Type (dr_Corrections (BuildDriftReport now diff)) =
     replicate (length (PeersToAdd diff)) ''peer_added'' @
     replicate (length (PeersToRemove diff)) ''peer_removed'' @
     replicate (length (PeersToUpdate diff)) ''peer_updated'' @
     replicate (length (PoliciesToAdd diff)) ''policy_added'' @
     replicate (length (PoliciesToRemove diff)) ''policy_removed'' @
     (if SigningKeysChanged diff then [''signing_keys_updated''] else []) @
     (if MetadataChanged diff then [''metadata_updated''] else []) @
     (if DataChanged diff then [''data_updated''] else []) @
     (if SecretRefsChanged diff then [''secret_refs_updated''] else []) \<and>
   (dr_Corrections (BuildDriftReport now diff) = [] \<longleftrightarrow> IsEmpty diff)"
  unfolding BuildDriftReport_eq IsEmpty_def by (simp add: map_replicate_const comp_def)



text \<open>Changes outside the tracked categories are invisible: when the fetched state has the identifiers
  and tracked fields of the applied one, a cycle runs no handler, although the rules of a policy,
  the expiry of the key transition, the payload of a data entry or any of the bridge, relay, user
  access, ingress and site-to-site configurations may have changed.\<close>

theorem runCycle_untracked_changes:
  assumes "FetchState client nodeID w = (Inr (Some d), w1)"
    and "stateSnapshot_Get (r_snapshot r) = c"
    and "unique_peers (sr_Peers c)" and "mwf (sr_Metadata c)"
    and "sr_Peers d = sr_Peers c" and "map pol_ID (sr_Policies d) = map pol_ID (sr_Policies c)"
    and "map_option (\<lambda>k. (sk_Current k, sk_Previous k)) (sr_SigningKeys d) =
         map_option (\<lambda>k. (sk_Current k, sk_Previous k)) (sr_SigningKeys c)"
    and "sr_Metadata d = sr_Metadata c"
    and "map (\<lambda>e. (de_Key e, de_Version e)) (sr_Data d) = map (\<lambda>e. (de_Key e, de_Version e)) (sr_Data c)"
    and "sr_SecretRefs d = sr_SecretRefs c"
  shows "runCycle now client nodeID r w = (r, w1)"
proof -
  have "pol_ID ` set (sr_Policies d) = pol_ID ` set (sr_Policies c)"
    using assms(6) by (metis list.set_map)
  then have "in_sync d c"
    using assms by (simp add: in_sync_def same_peers_refl data_versions_def)
  then have "IsEmpty (ComputeDiff (Some d) (Some c))"
    using IsEmpty_iff[of c d] assms(3,4,8) by simp
  then show ?thesis
    unfolding runCycle_fetched[OF assms(1)] using assms(2) by (simp add: Let_def)
qed

theorem runCycle_untracked_changes_witness:
  "runCycle int
     \<lparr>FetchState = \<lambda>_ w. (Inr (Some (emptyStateResponse\<lparr>sr_Policies := [\<lparr>pol_ID = ''p'', pol_Rules = []\<rparr>]\<rparr>)), w),
      ReportDrift = \<lambda>_ _ w. (None, Suc w)\<rparr> ''n''
     (ex_reconciler\<lparr>r_snapshot := NewStateSnapshot\<lparr>ss_policies := [\<lparr>pol_ID = ''p'',
        pol_Rules = [\<lparr>pr_Src = ''*'', pr_Dst = ''*'', pr_Port = 0, pr_Protocol = '''', pr_Action = ''allow''\<rparr>]\<rparr>]\<rparr>\<rparr>) 0 =
   (ex_reconciler\<lparr>r_snapshot := NewStateSnapshot\<lparr>ss_policies := [\<lparr>pol_ID = ''p'',
        pol_Rules = [\<lparr>pr_Src = ''*'', pr_Dst = ''*'', pr_Port = 0, pr_Protocol = '''', pr_Action = ''allow''\<rparr>]\<rparr>]\<rparr>\<rparr>, 0)"
  by (rule runCycle_untracked_changes[where d = "emptyStateResponse\<lparr>sr_Policies := [\<lparr>pol_ID = ''p'', pol_Rules = []\<rparr>]\<rparr>",
        OF _ refl])
     (simp_all add: stateSnapshot_Get_def NewStateSnapshot_def emptyStateResponse_def unique_peers_def)

end
