(* ===== verification/Relay.thy ===== *)
theory Relay
  imports KeyedTable EventVerifier Reconcile
begin

text \<open>
  The UDP relay of a bridge node, \<open>internal/bridge/relay.go\<close> and \<open>relay_handler.go\<close>: the session
  table with its address index, the time-to-live timers, the forwarding of one packet, and the
  handlers.

  Sessions are shared by pointer between the table, the index and the dispatch goroutine, so a
  session carries the number of its object and the set of closed objects is part of the state.  A
  timer is armed, then its callback is due, then the callback runs as its own goroutine; between
  these steps any other operation may run.  Resolving an address is a parameter that gives the
  canonical text of the address.
\<close>

section \<open>relay.go\<close>

record RelaySession =
  se_obj :: nat
  se_SessionID :: string
  se_PeerAAddr :: string
  se_PeerBAddr :: string
  se_conn :: "nat option"

record Relay =
  rl_listenPort :: int
  rl_maxSessions :: int
  rl_sessionTTL :: duration
  rl_conn :: "nat option"
  rl_sessions :: "(string, RelaySession) gomap"
  rl_addrIndex :: "(string, RelaySession) gomap"
  rl_timers :: "(string, nat) gomap"
  rl_active :: bool
  rl_closed :: "nat list"
  rl_armed :: "(nat \<times> string \<times> time) list"
  rl_due :: "string list"
  rl_next :: nat

definition NewRelay :: "int \<Rightarrow> int \<Rightarrow> duration \<Rightarrow> Relay" where
  "NewRelay listenPort maxSessions sessionTTL = \<lparr>rl_listenPort = listenPort, rl_maxSessions = maxSessions,
     rl_sessionTTL = sessionTTL, rl_conn = None, rl_sessions = [], rl_addrIndex = [], rl_timers = [],
     rl_active = False, rl_closed = [], rl_armed = [], rl_due = [], rl_next = 0\<rparr>"

text \<open>Where a session sends a packet, if it sends it at all: the socket and the destination.\<close>

definition Forward :: "Relay \<Rightarrow> RelaySession \<Rightarrow> string \<Rightarrow> (nat option \<times> string) option" where
  "Forward r s srcAddr =
     (if se_obj s \<in> set (rl_closed r) then None
      else if srcAddr = se_PeerAAddr s then Some (se_conn s, se_PeerBAddr s)
      else if srcAddr = se_PeerBAddr s then Some (se_conn s, se_PeerAAddr s)
      else None)"

definition Session_Close :: "RelaySession \<Rightarrow> Relay \<Rightarrow> Relay" where
  "Session_Close s r = (if se_obj s \<in> set (rl_closed r) then r else r\<lparr>rl_closed := se_obj s # rl_closed r\<rparr>)"

definition dispatch_packet :: "Relay \<Rightarrow> string \<Rightarrow> (nat option \<times> string) option" where
  "dispatch_packet r srcAddr =
     (case mget (rl_addrIndex r) srcAddr of None \<Rightarrow> None | Some session \<Rightarrow> Forward r session srcAddr)"

definition Relay_Start :: "(int \<Rightarrow> string + nat) \<Rightarrow> Relay \<Rightarrow> string option \<times> Relay" where
  "Relay_Start listenUDP r =
     (case listenUDP (rl_listenPort r) of
        Inl err \<Rightarrow> (Some (''bridge: relay: listen on :'' @ Itoa (rl_listenPort r) @ '': '' @ err), r)
      | Inr conn \<Rightarrow> (None, r\<lparr>rl_conn := Some conn, rl_active := True\<rparr>))"

definition session_ttl :: "duration \<Rightarrow> time \<Rightarrow> time \<Rightarrow> duration" where
  "session_ttl sessionTTL now expiresAt =
     (let ttl = sessionTTL in
      if expiresAt \<noteq> 0 then
        let remaining = expiresAt - now in if remaining > 0 \<and> remaining < ttl then remaining else ttl
      else ttl)"

definition AddSession ::
    "(string \<Rightarrow> string + string) \<Rightarrow> time \<Rightarrow> RelaySessionAssignment \<Rightarrow> Relay \<Rightarrow> string option \<times> Relay" where
  "AddSession resolve now a r =
     (if rsa_SessionID a = '''' then (Some ''bridge: relay: empty session ID'', r)
      else case resolve (rsa_PeerAEndpoint a) of
        Inl err \<Rightarrow> (Some (''bridge: relay: resolve peer A endpoint '' @ rsa_PeerAEndpoint a @ '': '' @ err), r)
      | Inr peerA \<Rightarrow>
      (case resolve (rsa_PeerBEndpoint a) of
        Inl err \<Rightarrow> (Some (''bridge: relay: resolve peer B endpoint '' @ rsa_PeerBEndpoint a @ '': '' @ err), r)
      | Inr peerB \<Rightarrow>
      if peerA = peerB then (Some (''bridge: relay: peer A and peer B endpoints must differ: '' @ peerA), r)
      else if mhas (rl_sessions r) (rsa_SessionID a) then
        (Some (''bridge: relay: duplicate session ID: '' @ rsa_SessionID a), r)
      else if int (length (rl_sessions r)) \<ge> rl_maxSessions r then
        (Some (''bridge: relay: max sessions reached ('' @ Itoa (rl_maxSessions r) @ '')''), r)
      else
        let session = \<lparr>se_obj = rl_next r, se_SessionID = rsa_SessionID a, se_PeerAAddr = peerA,
              se_PeerBAddr = peerB, se_conn = rl_conn r\<rparr>;
            timer = Suc (rl_next r);
            ttl = session_ttl (rl_sessionTTL r) now (rsa_ExpiresAt a)
        in (None, r\<lparr>rl_sessions := mput (rsa_SessionID a) session (rl_sessions r),
              rl_addrIndex := mput peerB session (mput peerA session (rl_addrIndex r)),
              rl_armed := (timer, rsa_SessionID a, now + ttl) # rl_armed r,
              rl_timers := mput (rsa_SessionID a) timer (rl_timers r),
              rl_next := Suc (Suc (rl_next r))\<rparr>)))"

definition stop_timer :: "nat \<Rightarrow> Relay \<Rightarrow> Relay" where
  "stop_timer t r = r\<lparr>rl_armed := filter (\<lambda>(u, _). u \<noteq> t) (rl_armed r)\<rparr>"

definition RemoveSession :: "string \<Rightarrow> Relay \<Rightarrow> Relay" where
  "RemoveSession sessionID r =
     (case mget (rl_sessions r) sessionID of
        None \<Rightarrow> r
      | Some session \<Rightarrow>
          let r = (case mget (rl_timers r) sessionID of
                     Some timer \<Rightarrow> (stop_timer timer r)\<lparr>rl_timers := mdel sessionID (rl_timers r)\<rparr>
                   | None \<Rightarrow> r);
              r = r\<lparr>rl_addrIndex := mdel (se_PeerBAddr session) (mdel (se_PeerAAddr session) (rl_addrIndex r)),
                    rl_sessions := mdel sessionID (rl_sessions r)\<rparr>
          in Session_Close session r)"

definition Relay_Stop :: "Relay \<Rightarrow> string option \<times> Relay" where
  "Relay_Stop r =
     (if \<not> rl_active r then (None, r)
      else
        let sessions = map snd (rl_sessions r);
            r = r\<lparr>rl_active := False, rl_timers := [],
                  rl_armed := filter (\<lambda>(u, _). u \<notin> snd ` set (rl_timers r)) (rl_armed r),
                  rl_sessions := [], rl_addrIndex := [], rl_conn := None\<rparr>
        in (None, fold Session_Close sessions r))"

definition ActiveCount :: "Relay \<Rightarrow> int" where
  "ActiveCount r = int (length (rl_sessions r))"

definition SessionIDs :: "(string list \<Rightarrow> string list) \<Rightarrow> Relay \<Rightarrow> string list" where
  "SessionIDs ord r = ord (mkeys (rl_sessions r))"

section \<open>relay\_handler.go\<close>

definition HandleRelaySessionAssigned ::
    "(string \<Rightarrow> string + RelaySessionAssignment) \<Rightarrow> (string \<Rightarrow> string + string) \<Rightarrow> time \<Rightarrow> SignedEnvelope \<Rightarrow> Relay \<Rightarrow>
     string option \<times> Relay" where
  "HandleRelaySessionAssigned unmarshal resolve now envelope r =
     (case unmarshal (env_Payload envelope) of
        Inl err \<Rightarrow> (Some (''bridge: relay_session_assigned: parse payload: '' @ err), r)
      | Inr assignment \<Rightarrow>
          (case AddSession resolve now assignment r of
             (Some err, r) \<Rightarrow> (Some (''bridge: relay_session_assigned: '' @ err), r)
           | (None, r) \<Rightarrow> (None, r)))"

definition HandleRelaySessionRevoked ::
    "(string \<Rightarrow> string + string) \<Rightarrow> SignedEnvelope \<Rightarrow> Relay \<Rightarrow> string option \<times> Relay" where
  "HandleRelaySessionRevoked unmarshal envelope r =
     (case unmarshal (env_Payload envelope) of
        Inl err \<Rightarrow> (Some (''bridge: relay_session_revoked: parse payload: '' @ err), r)
      | Inr sessionID \<Rightarrow> (None, RemoveSession sessionID r))"

text \<open>The set of current identifiers as the reconcile handler sees it.\<close>

definition has_session :: "string \<Rightarrow> Relay \<Rightarrow> unit option" where
  "has_session i r = map_option (\<lambda>_. ()) (mget (rl_sessions r) i)"

text \<open>The loop that adds ranges over the Go map of the desired sessions.\<close>

definition RelayReconcileHandler ::
    "(string list \<Rightarrow> string list) \<Rightarrow> (string \<Rightarrow> string + string) \<Rightarrow> time \<Rightarrow> StateResponse \<Rightarrow> StateDiff \<Rightarrow> Relay \<Rightarrow>
     string option outcome \<times> Relay" where
  "RelayReconcileHandler ord resolve now desired diff r =
     (case sr_RelayConfig desired of
        None \<Rightarrow> (Ret None, r)
      | Some cfg \<Rightarrow>
          let desiredSet = desired_set rsa_SessionID (rlc_Sessions cfg);
              (err, r) = sync_table (SessionIDs ord) has_session (AddSession resolve now)
                RemoveSession rsa_SessionID (\<lambda>_ _. False) (rlc_Sessions cfg)
                (map (\<lambda>k. the (mget desiredSet k)) (ord (mkeys desiredSet))) r
          in (Ret err, r))"

section \<open>The relay as a state machine\<close>

datatype relay_event =
    AddEv RelaySessionAssignment time
  | RemoveEv string
  | ExpireEv nat time
  | CallbackEv string
  | StartEv
  | StopEv

inductive relay_step :: "(string \<Rightarrow> string + string) \<Rightarrow> (int \<Rightarrow> string + nat) \<Rightarrow> Relay \<Rightarrow> relay_event \<Rightarrow> Relay \<Rightarrow> bool"
  for resolve listenUDP where
  step_add: "relay_step resolve listenUDP r (AddEv a now) (snd (AddSession resolve now a r))"
| step_remove: "relay_step resolve listenUDP r (RemoveEv i) (RemoveSession i r)"
| step_expire: "(t, i, deadline) \<in> set (rl_armed r) \<Longrightarrow> now \<ge> deadline \<Longrightarrow>
    relay_step resolve listenUDP r (ExpireEv t now) ((stop_timer t r)\<lparr>rl_due := i # rl_due r\<rparr>)"
| step_callback: "i \<in> set (rl_due r) \<Longrightarrow>
    relay_step resolve listenUDP r (CallbackEv i) (RemoveSession i (r\<lparr>rl_due := remove1 i (rl_due r)\<rparr>))"
| step_start: "relay_step resolve listenUDP r StartEv (snd (Relay_Start listenUDP r))"
| step_stop: "relay_step resolve listenUDP r StopEv (snd (Relay_Stop r))"

inductive relay_reach :: "(string \<Rightarrow> string + string) \<Rightarrow> (int \<Rightarrow> string + nat) \<Rightarrow> Relay \<Rightarrow> Relay \<Rightarrow> bool"
  for resolve listenUDP r0 where
  reach_init: "relay_reach resolve listenUDP r0 r0"
| reach_step: "relay_reach resolve listenUDP r0 r \<Longrightarrow> relay_step resolve listenUDP r e r' \<Longrightarrow>
    relay_reach resolve listenUDP r0 r'"

inductive_cases relay_step_cases: "relay_step resolve listenUDP r e r'"

section \<open>The invariant\<close>

text \<open>
  Everything a relay maintains, with a set of identifiers whose timer is exempt while their
  removal is under way.
\<close>

definition has_timer :: "Relay \<Rightarrow> string \<Rightarrow> bool" where
  "has_timer r i \<longleftrightarrow> (\<exists>t. mget (rl_timers r) i = Some t \<and>
     ((\<exists>d. (t, i, d) \<in> set (rl_armed r)) \<or> i \<in> set (rl_due r)))"

definition timers_ok :: "Relay \<Rightarrow> bool" where
  "timers_ok r \<longleftrightarrow> mwf (rl_timers r) \<and>
     (\<forall>i t. mget (rl_timers r) i = Some t \<longrightarrow> t < rl_next r) \<and>
     (\<forall>i j t. mget (rl_timers r) i = Some t \<longrightarrow> mget (rl_timers r) j = Some t \<longrightarrow> i = j) \<and>
     (\<forall>t i d. (t, i, d) \<in> set (rl_armed r) \<longrightarrow> t < rl_next r) \<and>
     (\<forall>t i d j. (t, i, d) \<in> set (rl_armed r) \<longrightarrow> mget (rl_timers r) j = Some t \<longrightarrow> i = j)"

definition sessions_ok :: "Relay \<Rightarrow> bool" where
  "sessions_ok r \<longleftrightarrow> mwf (rl_sessions r) \<and> int (length (rl_sessions r)) \<le> max 0 (rl_maxSessions r) \<and>
     (\<forall>i s. mget (rl_sessions r) i = Some s \<longrightarrow> se_SessionID s = i \<and> se_PeerAAddr s \<noteq> se_PeerBAddr s \<and>
        se_obj s < rl_next r \<and> se_obj s \<notin> set (rl_closed r)) \<and>
     (\<forall>i j s s'. mget (rl_sessions r) i = Some s \<longrightarrow> mget (rl_sessions r) j = Some s' \<longrightarrow>
        se_obj s = se_obj s' \<longrightarrow> i = j) \<and>
     (\<forall>n \<in> set (rl_closed r). n < rl_next r)"

definition index_ok :: "Relay \<Rightarrow> bool" where
  "index_ok r \<longleftrightarrow> mwf (rl_addrIndex r) \<and>
     (\<forall>a s. mget (rl_addrIndex r) a = Some s \<longrightarrow>
        mget (rl_sessions r) (se_SessionID s) = Some s \<and> (a = se_PeerAAddr s \<or> a = se_PeerBAddr s))"

definition relay_inv :: "string set \<Rightarrow> Relay \<Rightarrow> bool" where
  "relay_inv X r \<longleftrightarrow> timers_ok r \<and> sessions_ok r \<and> index_ok r \<and>
     (\<forall>i. i \<notin> X \<longrightarrow> mhas (rl_sessions r) i \<longrightarrow> has_timer r i)"

lemma NewRelay_inv: "relay_inv {} (NewRelay port m ttl)"
  by (simp add: relay_inv_def timers_ok_def sessions_ok_def index_ok_def NewRelay_def)

definition added_session :: "RelaySessionAssignment \<Rightarrow> string \<Rightarrow> string \<Rightarrow> Relay \<Rightarrow> RelaySession" where
  "added_session a peerA peerB r = \<lparr>se_obj = rl_next r, se_SessionID = rsa_SessionID a, se_PeerAAddr = peerA,
     se_PeerBAddr = peerB, se_conn = rl_conn r\<rparr>"

definition added_relay :: "RelaySessionAssignment \<Rightarrow> string \<Rightarrow> string \<Rightarrow> time \<Rightarrow> Relay \<Rightarrow> Relay" where
  "added_relay a peerA peerB deadline r =
     r\<lparr>rl_sessions := mput (rsa_SessionID a) (added_session a peerA peerB r) (rl_sessions r),
       rl_addrIndex := mput peerB (added_session a peerA peerB r) (mput peerA (added_session a peerA peerB r) (rl_addrIndex r)),
       rl_armed := (Suc (rl_next r), rsa_SessionID a, deadline) # rl_armed r,
       rl_timers := mput (rsa_SessionID a) (Suc (rl_next r)) (rl_timers r), rl_next := Suc (Suc (rl_next r))\<rparr>"

lemma AddSession_result:
  "AddSession resolve now a r = (e, r') \<Longrightarrow>
     e \<noteq> None \<and> r' = r \<or>
     e = None \<and> \<not> mhas (rl_sessions r) (rsa_SessionID a) \<and> int (length (rl_sessions r)) < rl_maxSessions r \<and>
     (\<exists>peerA peerB deadline. peerA \<noteq> peerB \<and> r' = added_relay a peerA peerB deadline r)"
  unfolding AddSession_def added_relay_def added_session_def Let_def
  by (simp split: if_splits sum.splits) (metis linorder_not_le)+

lemma AddSession_cases:
  assumes "AddSession resolve now a r = (e, r')"
  obtains (failed) "e \<noteq> None" "r' = r"
  | (added) peerA peerB deadline where "e = None" "peerA \<noteq> peerB" "\<not> mhas (rl_sessions r) (rsa_SessionID a)"
      "int (length (rl_sessions r)) < rl_maxSessions r" "r' = added_relay a peerA peerB deadline r"
  using AddSession_result [OF assms] by blast

lemma AddSession_inv:
  assumes inv: "relay_inv {} r" and add: "AddSession resolve now a r = (e, r')"
  shows "relay_inv {} r'"
  using add
proof (cases rule: AddSession_cases)
  case failed
  then show ?thesis using inv by simp
next
  case (added peerA peerB deadline)
  note new = added(5) [unfolded added_relay_def] added_session_def
  have t: "timers_ok r'"
    using inv new unfolding relay_inv_def timers_ok_def
    by (auto simp: gm.wf_put less_Suc_eq split: if_splits) (metis less_irrefl less_SucI)+
  have s: "sessions_ok r'"
    using inv added(2-4) new unfolding relay_inv_def sessions_ok_def
    by (auto simp: gm.wf_put mlen_put less_Suc_eq split: if_splits) (metis less_irrefl_nat)+
  have i: "index_ok r'"
    using inv added(2,3) new unfolding relay_inv_def index_ok_def
    by (auto simp: gm.wf_put split: if_splits) (metis option.simps(3))+
  have "has_timer r' j" if "mhas (rl_sessions r') j" for j
  proof (cases "j = rsa_SessionID a")
    case True
    then show ?thesis using new by (auto simp: has_timer_def)
  next
    case False
    then have "has_timer r j" using that inv new by (simp add: relay_inv_def)
    then show ?thesis using False new by (auto simp: has_timer_def)
  qed
  then show ?thesis using t s i by (simp add: relay_inv_def)
qed

lemma fold_Session_Close: "\<exists>c. fold Session_Close ss r = r\<lparr>rl_closed := c\<rparr>"
proof (induction ss arbitrary: r)
  case Nil
  have "r = r\<lparr>rl_closed := rl_closed r\<rparr>" by simp
  then show ?case by (metis fold_simps(1))
next
  case (Cons s ss)
  obtain c1 where c1: "Session_Close s r = r\<lparr>rl_closed := c1\<rparr>"
    by (cases "se_obj s \<in> set (rl_closed r)") (auto simp: Session_Close_def intro: that [of "rl_closed r"])
  obtain c where "fold Session_Close ss (r\<lparr>rl_closed := c1\<rparr>) = r\<lparr>rl_closed := c1\<rparr>\<lparr>rl_closed := c\<rparr>" using Cons by blast
  then show ?case using c1 by auto
qed

lemma fold_Session_Close_closed:
  "set (rl_closed (fold Session_Close ss r)) = set (rl_closed r) \<union> se_obj ` set ss"
proof (induction ss arbitrary: r)
  case (Cons s ss)
  have "set (rl_closed (Session_Close s r)) = insert (se_obj s) (set (rl_closed r))" by (auto simp: Session_Close_def)
  then show ?case using Cons by auto
qed simp

text \<open>The relay without one session.\<close>

definition dropped_relay :: "RelaySession \<Rightarrow> Relay \<Rightarrow> Relay" where
  "dropped_relay s r =
     r\<lparr>rl_timers := mdel (se_SessionID s) (rl_timers r),
       rl_armed := filter (\<lambda>(u, _). Some u \<noteq> mget (rl_timers r) (se_SessionID s)) (rl_armed r),
       rl_addrIndex := mdel (se_PeerBAddr s) (mdel (se_PeerAAddr s) (rl_addrIndex r)),
       rl_sessions := mdel (se_SessionID s) (rl_sessions r), rl_closed := se_obj s # rl_closed r\<rparr>"

lemma RemoveSession_eq:
  assumes "sessions_ok r"
  shows "RemoveSession i r = (case mget (rl_sessions r) i of None \<Rightarrow> r | Some s \<Rightarrow> dropped_relay s r)"
proof (cases "mget (rl_sessions r) i")
  case (Some s)
  then have "se_SessionID s = i" "se_obj s \<notin> set (rl_closed r)" using assms by (auto simp: sessions_ok_def)
  then show ?thesis
    using Some
    by (cases "mget (rl_timers r) i")
       (auto simp: RemoveSession_def dropped_relay_def Session_Close_def stop_timer_def Let_def mdel_absent
         intro!: filter_cong)
qed (simp add: RemoveSession_def)

lemma RemoveSession_inv:
  assumes inv: "relay_inv {i} r"
  shows "relay_inv {} (RemoveSession i r)"
proof (cases "mget (rl_sessions r) i")
  case None
  then have "mhas (rl_sessions r) j \<Longrightarrow> j \<noteq> i" for j by auto
  then show ?thesis using None inv by (simp add: RemoveSession_def relay_inv_def)
next
  case (Some s)
  have ok: "timers_ok r" "sessions_ok r" "index_ok r" using inv by (simp_all add: relay_inv_def)
  have s: "se_SessionID s = i" "se_obj s < rl_next r" using ok(2) Some by (auto simp: sessions_ok_def)
  have eq: "RemoveSession i r = dropped_relay s r" using RemoveSession_eq [OF ok(2)] Some by simp
  have wf: "mwf (rl_sessions r)" "mwf (rl_timers r)" "mwf (rl_addrIndex r)"
    using ok by (simp_all add: timers_ok_def sessions_ok_def index_ok_def)
  have ses: "mget (rl_sessions (dropped_relay s r)) j = (if j = i then None else mget (rl_sessions r) j)" for j
    using wf s by (simp add: dropped_relay_def gm.get_del)
  have tim: "mget (rl_timers (dropped_relay s r)) j = (if j = i then None else mget (rl_timers r) j)" for j
    using wf s by (simp add: dropped_relay_def gm.get_del)
  have idx: "mget (rl_addrIndex (dropped_relay s r)) a =
      (if a = se_PeerAAddr s \<or> a = se_PeerBAddr s then None else mget (rl_addrIndex r) a)" for a
    using wf by (simp add: dropped_relay_def gm.get_del gm.wf_del)
  have arm: "set (rl_armed (dropped_relay s r)) = {x \<in> set (rl_armed r). Some (fst x) \<noteq> mget (rl_timers r) i}"
    using s by (auto simp: dropped_relay_def)
  have "timers_ok (dropped_relay s r)"
    unfolding timers_ok_def tim arm using ok(1) wf s
    by (auto simp: timers_ok_def dropped_relay_def gm.wf_del split: if_splits) blast+
  moreover have "sessions_ok (dropped_relay s r)"
    unfolding sessions_ok_def ses using ok(2) wf s Some mlen_del_le [of i "rl_sessions r"]
    by (auto simp: sessions_ok_def dropped_relay_def gm.wf_del split: if_splits)
  moreover have "mwf (rl_addrIndex (dropped_relay s r))" using wf by (simp add: dropped_relay_def gm.wf_del)
  moreover have "se_SessionID x \<noteq> i \<and> mget (rl_sessions r) (se_SessionID x) = Some x \<and> (a = se_PeerAAddr x \<or> a = se_PeerBAddr x)"
    if "mget (rl_addrIndex r) a = Some x" "a \<noteq> se_PeerAAddr s" "a \<noteq> se_PeerBAddr s" for a x
    using ok(3) that Some unfolding index_ok_def by (metis option.inject)
  ultimately have "index_ok (dropped_relay s r)" unfolding index_ok_def idx ses by simp
  note this \<open>timers_ok (dropped_relay s r)\<close> \<open>sessions_ok (dropped_relay s r)\<close>
  moreover have "has_timer (dropped_relay s r) j" if "mhas (rl_sessions (dropped_relay s r)) j" for j
  proof -
    have "j \<noteq> i" "has_timer r j" using that ses [of j] inv by (auto simp: relay_inv_def split: if_splits)
    then obtain t where t: "mget (rl_timers r) j = Some t" "(\<exists>d. (t, j, d) \<in> set (rl_armed r)) \<or> j \<in> set (rl_due r)"
      by (auto simp: has_timer_def)
    moreover have "mget (rl_timers r) i \<noteq> Some t" using ok(1) t(1) \<open>j \<noteq> i\<close> by (auto simp: timers_ok_def)
    moreover have "rl_due (dropped_relay s r) = rl_due r" by (simp add: dropped_relay_def)
    ultimately show ?thesis using \<open>j \<noteq> i\<close> by (auto simp: has_timer_def tim arm)
  qed
  ultimately show ?thesis unfolding eq relay_inv_def by simp
qed

lemma Expire_inv:
  assumes inv: "relay_inv {} r" and a: "(t, i, d) \<in> set (rl_armed r)"
  shows "relay_inv {} ((stop_timer t r)\<lparr>rl_due := i # rl_due r\<rparr>)" (is "relay_inv {} ?r")
proof -
  have ok: "timers_ok r" "sessions_ok r" "index_ok r" using inv by (simp_all add: relay_inv_def)
  have arm: "set (rl_armed ?r) = {x \<in> set (rl_armed r). fst x \<noteq> t}" by (auto simp: stop_timer_def)
  have "timers_ok ?r" unfolding timers_ok_def arm using ok(1) by (auto simp: timers_ok_def stop_timer_def) blast+
  moreover have "sessions_ok ?r" "index_ok ?r"
    using ok by (simp_all add: sessions_ok_def index_ok_def stop_timer_def)
  moreover have "has_timer ?r j" if m: "mhas (rl_sessions r) j" for j
  proof -
    obtain u where u: "mget (rl_timers r) j = Some u" "(\<exists>d. (u, j, d) \<in> set (rl_armed r)) \<or> j \<in> set (rl_due r)"
      using inv m unfolding relay_inv_def has_timer_def by blast
    moreover have "u = t \<Longrightarrow> j = i" using ok(1) a u(1) unfolding timers_ok_def by blast
    ultimately show ?thesis by (auto simp: has_timer_def arm stop_timer_def)
  qed
  ultimately show ?thesis by (simp add: relay_inv_def stop_timer_def)
qed

lemma Callback_inv:
  assumes inv: "relay_inv {} r"
  shows "relay_inv {} (RemoveSession i (r\<lparr>rl_due := remove1 i (rl_due r)\<rparr>))"
proof (rule RemoveSession_inv)
  let ?r = "r\<lparr>rl_due := remove1 i (rl_due r)\<rparr>"
  have "has_timer ?r j" if "has_timer r j" "j \<noteq> i" for j
    using that by (auto simp: has_timer_def in_set_remove1)
  then show "relay_inv {i} ?r"
    using inv by (simp add: relay_inv_def timers_ok_def sessions_ok_def index_ok_def)
qed

lemma Stop_inv:
  assumes inv: "relay_inv {} r"
  shows "relay_inv {} (snd (Relay_Stop r))"
proof (cases "rl_active r")
  case True
  let ?r = "r\<lparr>rl_active := False, rl_timers := [],
    rl_armed := filter (\<lambda>(u, _). u \<notin> snd ` set (rl_timers r)) (rl_armed r),
    rl_sessions := [], rl_addrIndex := [], rl_conn := None\<rparr>"
  let ?ss = "map snd (rl_sessions r)"
  obtain c where c: "fold Session_Close ?ss ?r = ?r\<lparr>rl_closed := c\<rparr>" using fold_Session_Close by blast
  have wf: "mwf (rl_sessions r)" using inv by (simp add: relay_inv_def sessions_ok_def)
  have "set c = set (rl_closed r) \<union> se_obj ` set ?ss"
    using fold_Session_Close_closed [of ?ss ?r] unfolding c by simp
  then have "\<forall>n \<in> set c. n < rl_next r"
    using inv wf by (fastforce simp: relay_inv_def sessions_ok_def)
  moreover have "\<forall>t i d. (t, i, d) \<in> set (rl_armed ?r) \<longrightarrow> t < rl_next r"
    using inv by (auto simp: relay_inv_def timers_ok_def)
  ultimately have "relay_inv {} (?r\<lparr>rl_closed := c\<rparr>)"
    by (simp add: relay_inv_def timers_ok_def sessions_ok_def index_ok_def)
  then show ?thesis using True c by (simp add: Relay_Stop_def)
qed (use inv in \<open>simp add: Relay_Stop_def\<close>)

lemma relay_step_inv:
  assumes "relay_inv {} r" and "relay_step resolve listenUDP r e r'"
  shows "relay_inv {} r'"
  using assms(2)
proof cases
  case (step_add a now)
  then show ?thesis using AddSession_inv [OF assms(1)] by (cases "AddSession resolve now a r") auto
next
  case (step_remove i)
  have "relay_inv {i} r" using assms(1) by (simp add: relay_inv_def)
  then show ?thesis using RemoveSession_inv step_remove by simp
next
  case (step_expire t i d now)
  then show ?thesis using Expire_inv [OF assms(1)] by simp
next
  case (step_callback i)
  then show ?thesis using Callback_inv [OF assms(1)] by simp
next
  case step_start
  then show ?thesis using assms(1)
    by (auto simp: Relay_Start_def relay_inv_def timers_ok_def sessions_ok_def index_ok_def has_timer_def split: sum.splits)
next
  case step_stop
  then show ?thesis using Stop_inv [OF assms(1)] by simp
qed

lemma relay_reach_inv: "relay_reach resolve listenUDP r0 r \<Longrightarrow> relay_inv {} r0 \<Longrightarrow> relay_inv {} r"
  by (induction rule: relay_reach.induct) (auto intro: relay_step_inv)

lemma AddSession_max: "rl_maxSessions (snd (AddSession resolve now a r)) = rl_maxSessions r"
proof (cases "AddSession resolve now a r")
  case (Pair e r')
  then show ?thesis using AddSession_result [OF Pair] by (auto simp: added_relay_def)
qed

lemma RemoveSession_max: "rl_maxSessions (RemoveSession i r) = rl_maxSessions r"
  by (auto simp: RemoveSession_def Session_Close_def stop_timer_def Let_def split: option.splits)

lemma relay_step_max: "relay_step resolve listenUDP r e r' \<Longrightarrow> rl_maxSessions r' = rl_maxSessions r"
proof (induction rule: relay_step.induct)
  case (step_stop r)
  have "rl_maxSessions (fold Session_Close ss q) = rl_maxSessions q" for ss q
    using fold_Session_Close [of ss q] by auto
  then show ?case by (simp add: Relay_Stop_def Let_def)
qed (auto simp: AddSession_max RemoveSession_max stop_timer_def Relay_Start_def split: sum.splits)

lemma relay_reach_max: "relay_reach resolve listenUDP r0 r \<Longrightarrow> rl_maxSessions r = rl_maxSessions r0"
  by (induction rule: relay_reach.induct) (auto dest: relay_step_max)

section \<open>The session table\<close>

interpretation rt: strict_table has_session "AddSession resolve now" RemoveSession rsa_SessionID "\<lambda>_. ()" "relay_inv {}"
  for resolve now
proof unfold_locales
  fix a r r' k e
  assume inv: "relay_inv {} r"
  show "relay_inv {} (snd (AddSession resolve now a r))"
    using AddSession_inv [OF inv] by (cases "AddSession resolve now a r") auto
  show "has_session k r' = (if k = rsa_SessionID a then Some () else has_session k r)"
    if "AddSession resolve now a r = (None, r')"
    using that by (cases rule: AddSession_cases) (auto simp: has_session_def added_relay_def)
  show "has_session k r' = has_session k r" if "AddSession resolve now a r = (Some e, r')"
    using that by (cases rule: AddSession_cases) auto
next
  fix r j k
  assume inv: "relay_inv {} r"
  have ok: "sessions_ok r" "mwf (rl_sessions r)" using inv by (simp_all add: relay_inv_def sessions_ok_def)
  have get: "mget (rl_sessions (RemoveSession k r)) i = (if i = k then None else mget (rl_sessions r) i)" for i
    unfolding RemoveSession_eq [OF ok(1)] using ok
    by (auto simp: dropped_relay_def gm.get_del sessions_ok_def split: option.splits)
  show "j \<noteq> k \<Longrightarrow> has_session j (RemoveSession k r) = has_session j r"
    and "has_session k (RemoveSession k r) = None"
    and "has_session k (RemoveSession k r) = None \<or> has_session k (RemoveSession k r) = has_session k r"
    by (simp_all add: has_session_def get)
  show "relay_inv {} (RemoveSession k r)"
    using inv by (intro RemoveSession_inv) (simp add: relay_inv_def)
qed

lemma desired_values:
  fixes id_of :: "'i \<Rightarrow> string" and items :: "'i list"
  assumes "\<And>l. mset (ord l) = mset l"
  defines "m \<equiv> desired_set id_of items"
  assumes "distinct (map id_of items)"
  shows "set (map (\<lambda>k. the (mget m k)) (ord (mkeys m))) = set items"
    and "distinct (map id_of (map (\<lambda>k. the (mget m k)) (ord (mkeys m))))"
proof -
  have keys: "set (ord (mkeys m)) = id_of ` set items"
    using mset_eq_setD [OF assms(1)] desired_set_has [of id_of items] gm.set_keys [of m] unfolding m_def by auto
  have the: "the (mget m (id_of i)) = i" if "i \<in> set items" for i
    using desired_set_get [OF assms(3) that] by (simp add: m_def)
  have "set (map (\<lambda>k. the (mget m k)) (ord (mkeys m))) = (\<lambda>i. the (mget m (id_of i))) ` set items"
    using keys by auto
  also have "\<dots> = set items" using the by force
  finally show "set (map (\<lambda>k. the (mget m k)) (ord (mkeys m))) = set items" .
  have "mwf m" unfolding m_def desired_set_def using gm.wf_build [of "[]" id_of "\<lambda>i. i"] by simp
  then have d: "distinct (ord (mkeys m))" using assms(1) by (metis mset_eq_imp_distinct_iff)
  have "map id_of (map (\<lambda>k. the (mget m k)) (ord (mkeys m))) = ord (mkeys m)"
    using keys the by (auto intro!: map_idI)
  then show "distinct (map id_of (map (\<lambda>k. the (mget m k)) (ord (mkeys m))))" using d by simp
qed

lemma RelayReconcileHandler_converges:
  assumes inv: "relay_inv {} r" and ord: "\<And>l. mset (ord l) = mset l"
    and cfg: "sr_RelayConfig desired = Some cfg" and d: "distinct (map rsa_SessionID (rlc_Sessions cfg))"
    and run: "RelayReconcileHandler ord resolve now desired diff r = (Ret None, r')"
  shows "mhas (rl_sessions r') i \<longleftrightarrow> i \<in> rsa_SessionID ` set (rlc_Sessions cfg)"
proof -
  let ?m = "desired_set rsa_SessionID (rlc_Sessions cfg)"
  have s: "sync_table (SessionIDs ord) has_session (AddSession resolve now) RemoveSession rsa_SessionID (\<lambda>_ _. False)
      (rlc_Sessions cfg) (map (\<lambda>k. the (mget ?m k)) (ord (mkeys ?m))) r = (None, r')"
    using run cfg by (auto simp: RelayReconcileHandler_def Let_def split: prod.splits)
  have "mwf (rl_sessions r)" using inv by (simp add: relay_inv_def sessions_ok_def)
  then have ids: "distinct (SessionIDs ord r)" using ord unfolding SessionIDs_def by (metis mset_eq_imp_distinct_iff)
  have keys: "set (SessionIDs ord r) = {k. has_session k r \<noteq> None}"
    unfolding SessionIDs_def has_session_def using mset_eq_setD [OF ord, of "mkeys (rl_sessions r)"] gm.set_keys [of "rl_sessions r"]
    by simp
  have "has_session i r' = map_option (\<lambda>_. ()) (mget ?m i)"
    using rt.sync_converges [OF inv ids keys d desired_values [OF ord d] _ s] by simp
  then show ?thesis using desired_set_has [of rsa_SessionID "rlc_Sessions cfg" i] by (auto simp: has_session_def)
qed

section \<open>Properties of the relay\<close>


definition ex_assignment :: RelaySessionAssignment where
  "ex_assignment = \<lparr>rsa_SessionID = ''s1'', rsa_PeerAID = ''a'', rsa_PeerAEndpoint = ''198.51.100.1:7'',
     rsa_PeerBID = ''b'', rsa_PeerBEndpoint = ''198.51.100.2:7'', rsa_ExpiresAt = 0\<rparr>"

definition ex_relay :: Relay where
  "ex_relay = snd (AddSession Inr 0 ex_assignment (snd (Relay_Start (\<lambda>_. Inr 0) (NewRelay 51821 2 (5 * Minute)))))"


end
