(* ===== verification/WireGuard.thy ===== *)
theory WireGuard
  imports EventVerifier Reconcile
begin

text \<open>
  WireGuard tunnel management of \<open>internal/wireguard\<close>: the peer index (\<open>index.go\<close>), the
  translation of peers and the controller interface (\<open>controller.go\<close>), the netlink controller
  (\<open>controller_linux.go\<close>), the manager (\<open>manager.go\<close>), and the reconcile and event handlers
  (\<open>handler.go\<close>).

  The kernel, reached through netlink and wgctrl, is a device state \<open>'d\<close>; the operations on it
  are parameters.  What a controller promises about the peers of the device is the predicate
  \<open>device_laws\<close>.
\<close>

section \<open>config.go\<close>

record WGConfig =
  wgc_InterfaceName :: string
  wgc_ListenPort :: int
  wgc_MTU :: int

definition WGConfig_ApplyDefaults :: "WGConfig \<Rightarrow> WGConfig" where
  "WGConfig_ApplyDefaults c =
     (let c = (if wgc_InterfaceName c = '''' then c\<lparr>wgc_InterfaceName := ''plexd0''\<rparr> else c)
      in if wgc_ListenPort c = 0 then c\<lparr>wgc_ListenPort := 51820\<rparr> else c)"

definition WGConfig_Validate :: "WGConfig \<Rightarrow> string option" where
  "WGConfig_Validate c =
     (if wgc_ListenPort c \<le> 0 \<or> wgc_ListenPort c > 65535
      then Some ''wireguard: config: ListenPort must be between 1 and 65535''
      else if wgc_MTU c < 0 then Some ''wireguard: config: MTU must not be negative''
      else None)"

section \<open>index.go\<close>

type_synonym PeerIndex = "(string, string) gomap"

definition PeerIndex_Add :: "string \<Rightarrow> string \<Rightarrow> PeerIndex \<Rightarrow> PeerIndex" where
  "PeerIndex_Add peerID publicKey p = mput peerID publicKey p"

definition PeerIndex_Remove :: "string \<Rightarrow> PeerIndex \<Rightarrow> PeerIndex" where
  "PeerIndex_Remove peerID p = mdel peerID p"

definition PeerIndex_Lookup :: "string \<Rightarrow> PeerIndex \<Rightarrow> string option" where
  "PeerIndex_Lookup peerID p = mget p peerID"

definition PeerIndex_Update :: "string \<Rightarrow> string \<Rightarrow> PeerIndex \<Rightarrow> PeerIndex" where
  "PeerIndex_Update peerID newPublicKey p = mput peerID newPublicKey p"

definition PeerIndex_LoadFromPeers :: "Peer list \<Rightarrow> PeerIndex" where
  "PeerIndex_LoadFromPeers peers = fold (\<lambda>p. mput (p_ID p) (p_PublicKey p)) peers []"

section \<open>controller.go\<close>

record PeerConfig =
  pc_PublicKey :: string
  pc_Endpoint :: string
  pc_AllowedIPs :: "string list"
  pc_PSK :: string
  pc_PersistentKeepalive :: int

record 'd WGController =
  wg_CreateInterface :: "string \<Rightarrow> string \<Rightarrow> int \<Rightarrow> 'd \<Rightarrow> string option \<times> 'd"
  wg_DeleteInterface :: "string \<Rightarrow> 'd \<Rightarrow> string option \<times> 'd"
  wg_ConfigureAddress :: "string \<Rightarrow> string \<Rightarrow> 'd \<Rightarrow> string option \<times> 'd"
  wg_SetInterfaceUp :: "string \<Rightarrow> 'd \<Rightarrow> string option \<times> 'd"
  wg_SetMTU :: "string \<Rightarrow> int \<Rightarrow> 'd \<Rightarrow> string option \<times> 'd"
  wg_AddPeer :: "string \<Rightarrow> PeerConfig \<Rightarrow> 'd \<Rightarrow> string option \<times> 'd"
  wg_RemovePeer :: "string \<Rightarrow> string \<Rightarrow> 'd \<Rightarrow> string option \<times> 'd"

definition PeerConfigFromAPI :: "Peer \<Rightarrow> string + PeerConfig" where
  "PeerConfigFromAPI peer =
     (case DecodeString (p_PublicKey peer) of
        None \<Rightarrow> Inl ''wireguard: decode public key''
      | Some pubKey \<Rightarrow>
          (case (if p_PSK peer \<noteq> '''' then DecodeString (p_PSK peer) else Some []) of
             None \<Rightarrow> Inl ''wireguard: decode psk''
           | Some psk \<Rightarrow> Inr \<lparr>pc_PublicKey = pubKey, pc_Endpoint = p_Endpoint peer,
               pc_AllowedIPs = p_AllowedIPs peer, pc_PSK = psk, pc_PersistentKeepalive = 0\<rparr>))"

section \<open>manager.go\<close>

record WGManager =
  wm_cfg :: WGConfig
  wm_peers :: PeerIndex

definition NewWGManager :: "WGConfig \<Rightarrow> WGManager" where
  "NewWGManager cfg = \<lparr>wm_cfg = WGConfig_ApplyDefaults cfg, wm_peers = []\<rparr>"

definition WG_Setup :: "'d WGController \<Rightarrow> string \<Rightarrow> string \<Rightarrow> WGManager \<Rightarrow> 'd \<Rightarrow> string option \<times> 'd" where
  "WG_Setup ctrl privateKey meshIP m d =
     (let i = wgc_InterfaceName (wm_cfg m)
      in case wg_CreateInterface ctrl i privateKey (wgc_ListenPort (wm_cfg m)) d of
           (Some err, d) \<Rightarrow> (Some (''wireguard: setup: '' @ err), d)
         | (None, d) \<Rightarrow>
             (case wg_ConfigureAddress ctrl i (meshIP @ ''/32'') d of
                (Some err, d) \<Rightarrow> (Some (''wireguard: setup: '' @ err), d)
              | (None, d) \<Rightarrow>
                  (case (if wgc_MTU (wm_cfg m) > 0 then wg_SetMTU ctrl i (wgc_MTU (wm_cfg m)) d else (None, d)) of
                     (Some err, d) \<Rightarrow> (Some (''wireguard: setup: '' @ err), d)
                   | (None, d) \<Rightarrow>
                       (case wg_SetInterfaceUp ctrl i d of
                          (Some err, d) \<Rightarrow> (Some (''wireguard: setup: '' @ err), d)
                        | (None, d) \<Rightarrow> (None, d)))))"

definition WG_Teardown :: "'d WGController \<Rightarrow> WGManager \<Rightarrow> 'd \<Rightarrow> string option \<times> 'd" where
  "WG_Teardown ctrl m d =
     (case wg_DeleteInterface ctrl (wgc_InterfaceName (wm_cfg m)) d of
        (Some err, d) \<Rightarrow> (Some (''wireguard: teardown: '' @ err), d)
      | (None, d) \<Rightarrow> (None, d))"

definition WG_AddPeer :: "'d WGController \<Rightarrow> Peer \<Rightarrow> WGManager \<times> 'd \<Rightarrow> string option \<times> WGManager \<times> 'd" where
  "WG_AddPeer ctrl peer s =
     (let (m, d) = s
      in case PeerConfigFromAPI peer of
           Inl err \<Rightarrow> (Some (''wireguard: add peer: '' @ err), m, d)
         | Inr peerCfg \<Rightarrow>
             (case wg_AddPeer ctrl (wgc_InterfaceName (wm_cfg m)) peerCfg d of
                (Some err, d) \<Rightarrow> (Some (''wireguard: add peer: '' @ err), m, d)
              | (None, d) \<Rightarrow> (None, m\<lparr>wm_peers := PeerIndex_Add (p_ID peer) (p_PublicKey peer) (wm_peers m)\<rparr>, d)))"

definition WG_RemovePeer :: "'d WGController \<Rightarrow> string \<Rightarrow> WGManager \<Rightarrow> 'd \<Rightarrow> string option \<times> 'd" where
  "WG_RemovePeer ctrl publicKey m d =
     (case wg_RemovePeer ctrl (wgc_InterfaceName (wm_cfg m)) publicKey d of
        (Some err, d) \<Rightarrow> (Some (''wireguard: remove peer: '' @ err), d)
      | (None, d) \<Rightarrow> (None, d))"

definition WG_RemovePeerByID ::
    "'d WGController \<Rightarrow> string \<Rightarrow> WGManager \<times> 'd \<Rightarrow> string option \<times> WGManager \<times> 'd" where
  "WG_RemovePeerByID ctrl peerID s =
     (let (m, d) = s
      in case PeerIndex_Lookup peerID (wm_peers m) of
           None \<Rightarrow> (Some (''wireguard: unknown peer ID: '' @ peerID), m, d)
         | Some pubKeyB64 \<Rightarrow>
             (case DecodeString pubKeyB64 of
                None \<Rightarrow> (Some ''wireguard: decode public key'', m, d)
              | Some pubKeyBytes \<Rightarrow>
                  (case wg_RemovePeer ctrl (wgc_InterfaceName (wm_cfg m)) pubKeyBytes d of
                     (Some err, d) \<Rightarrow> (Some (''wireguard: remove peer: '' @ err), m, d)
                   | (None, d) \<Rightarrow> (None, m\<lparr>wm_peers := PeerIndex_Remove peerID (wm_peers m)\<rparr>, d))))"

definition WG_UpdatePeer :: "'d WGController \<Rightarrow> Peer \<Rightarrow> WGManager \<times> 'd \<Rightarrow> string option \<times> WGManager \<times> 'd" where
  "WG_UpdatePeer ctrl peer s =
     (let (m, d) = s
      in case PeerConfigFromAPI peer of
           Inl err \<Rightarrow> (Some (''wireguard: update peer: '' @ err), m, d)
         | Inr peerCfg \<Rightarrow>
             (case wg_AddPeer ctrl (wgc_InterfaceName (wm_cfg m)) peerCfg d of
                (Some err, d) \<Rightarrow> (Some (''wireguard: update peer: '' @ err), m, d)
              | (None, d) \<Rightarrow> (None, m\<lparr>wm_peers := PeerIndex_Update (p_ID peer) (p_PublicKey peer) (wm_peers m)\<rparr>, d)))"

text \<open>The context is cancelled before peer \<open>n\<close> when \<open>cancelled n\<close>.\<close>

fun configure_loop :: "'d WGController \<Rightarrow> (nat \<Rightarrow> bool) \<Rightarrow> nat \<Rightarrow> string \<Rightarrow> Peer list \<Rightarrow> 'd \<Rightarrow> string option \<times> 'd" where
  "configure_loop ctrl cancelled n i [] d = (None, d)"
| "configure_loop ctrl cancelled n i (peer # peers) d =
     (if cancelled n then (Some ''wireguard: configure peers: context canceled'', d)
      else case PeerConfigFromAPI peer of
        Inl err \<Rightarrow> configure_loop ctrl cancelled (n + 1) i peers d
      | Inr peerCfg \<Rightarrow> configure_loop ctrl cancelled (n + 1) i peers (snd (wg_AddPeer ctrl i peerCfg d)))"

definition WG_ConfigurePeers ::
    "'d WGController \<Rightarrow> (nat \<Rightarrow> bool) \<Rightarrow> Peer list \<Rightarrow> WGManager \<times> 'd \<Rightarrow> string option \<times> WGManager \<times> 'd" where
  "WG_ConfigurePeers ctrl cancelled peers s =
     (let (m, d) = s;
          m = m\<lparr>wm_peers := PeerIndex_LoadFromPeers peers\<rparr>;
          (err, d) = configure_loop ctrl cancelled 0 (wgc_InterfaceName (wm_cfg m)) peers d
      in (err, m, d))"

section \<open>handler.go\<close>

definition WG_ReconcileHandler ::
    "'d WGController \<Rightarrow> StateResponse \<Rightarrow> StateDiff \<Rightarrow> WGManager \<times> 'd \<Rightarrow> string option outcome \<times> WGManager \<times> 'd" where
  "WG_ReconcileHandler ctrl desired diff s =
     (let (errs, s) = collect_errs (WG_RemovePeerByID ctrl) (PeersToRemove diff) ([], s);
          (errs, s) = collect_errs (WG_UpdatePeer ctrl) (PeersToUpdate diff) (errs, s);
          (errs, s) = collect_errs (WG_AddPeer ctrl) (PeersToAdd diff) (errs, s)
      in (Ret (errors_Join errs), s))"

definition HandlePeerAdded ::
    "(string \<Rightarrow> string + Peer) \<Rightarrow> 'd WGController \<Rightarrow> SignedEnvelope \<Rightarrow> WGManager \<times> 'd \<Rightarrow> string option \<times> WGManager \<times> 'd" where
  "HandlePeerAdded unmarshal ctrl env s =
     (case unmarshal (env_Payload env) of
        Inl err \<Rightarrow> (Some (''wireguard: peer_added: parse payload: '' @ err), s)
      | Inr peer \<Rightarrow>
          (case WG_AddPeer ctrl peer s of
             (Some err, s) \<Rightarrow> (Some (''wireguard: peer_added: '' @ err), s)
           | (None, s) \<Rightarrow> (None, s)))"

definition HandlePeerRemoved ::
    "(string \<Rightarrow> string + string) \<Rightarrow> 'd WGController \<Rightarrow> SignedEnvelope \<Rightarrow> WGManager \<times> 'd \<Rightarrow> string option \<times> WGManager \<times> 'd" where
  "HandlePeerRemoved unmarshal ctrl env s =
     (case unmarshal (env_Payload env) of
        Inl err \<Rightarrow> (Some (''wireguard: peer_removed: parse payload: '' @ err), s)
      | Inr peerID \<Rightarrow>
          (case WG_RemovePeerByID ctrl peerID s of
             (Some err, s) \<Rightarrow> (Some (''wireguard: peer_removed: '' @ err), s)
           | (None, s) \<Rightarrow> (None, s)))"

definition HandlePeerKeyRotated ::
    "(string \<Rightarrow> string + Peer) \<Rightarrow> 'd WGController \<Rightarrow> SignedEnvelope \<Rightarrow> WGManager \<times> 'd \<Rightarrow> string option \<times> WGManager \<times> 'd" where
  "HandlePeerKeyRotated unmarshal ctrl env s =
     (case unmarshal (env_Payload env) of
        Inl err \<Rightarrow> (Some (''wireguard: peer_key_rotated: parse payload: '' @ err), s)
      | Inr peer \<Rightarrow>
          (let (_, s) = WG_RemovePeerByID ctrl (p_ID peer) s
           in case WG_AddPeer ctrl peer s of
                (Some err, s) \<Rightarrow> (Some (''wireguard: peer_key_rotated: add new peer: '' @ err), s)
              | (None, s) \<Rightarrow> (None, s)))"

definition HandlePeerEndpointChanged ::
    "(string \<Rightarrow> string + Peer) \<Rightarrow> 'd WGController \<Rightarrow> SignedEnvelope \<Rightarrow> WGManager \<times> 'd \<Rightarrow> string option \<times> WGManager \<times> 'd" where
  "HandlePeerEndpointChanged unmarshal ctrl env s =
     (case unmarshal (env_Payload env) of
        Inl err \<Rightarrow> (Some (''wireguard: peer_endpoint_changed: parse payload: '' @ err), s)
      | Inr peer \<Rightarrow>
          (case WG_UpdatePeer ctrl peer s of
             (Some err, s) \<Rightarrow> (Some (''wireguard: peer_endpoint_changed: '' @ err), s)
           | (None, s) \<Rightarrow> (None, s)))"

section \<open>controller\_linux.go\<close>

text \<open>
  The kernel operations behind the controller.  An update of a device either sets its own key and
  port, inserts or replaces one peer, or removes one.
\<close>

datatype link_lookup = LinkFound | LinkNotFound | LinkError string

record wg_peer =
  wp_PublicKey :: string
  wp_Endpoint :: "string option"
  wp_AllowedIPs :: "string list"
  wp_PresharedKey :: "string option"
  wp_Keepalive :: "duration option"

datatype wg_update = SetDevice string int | UpsertPeer wg_peer | DropPeer string

record 'd kernel =
  k_LinkAdd :: "string \<Rightarrow> 'd \<Rightarrow> string option \<times> 'd"
  k_LinkByName :: "string \<Rightarrow> 'd \<Rightarrow> link_lookup"
  k_LinkDel :: "string \<Rightarrow> 'd \<Rightarrow> string option \<times> 'd"
  k_ParseAddr :: "string \<Rightarrow> string option"
  k_AddrAdd :: "string \<Rightarrow> string \<Rightarrow> 'd \<Rightarrow> string option \<times> 'd"
  k_LinkSetUp :: "string \<Rightarrow> 'd \<Rightarrow> string option \<times> 'd"
  k_LinkSetMTU :: "string \<Rightarrow> int \<Rightarrow> 'd \<Rightarrow> string option \<times> 'd"
  k_wgctrl_New :: "'d \<Rightarrow> string option"
  k_NewKey :: "string \<Rightarrow> string + string"
  k_ResolveUDPAddr :: "string \<Rightarrow> string + string"
  k_ParseCIDR :: "string \<Rightarrow> string + string"
  k_ConfigureDevice :: "string \<Rightarrow> wg_update \<Rightarrow> 'd \<Rightarrow> string option \<times> 'd"

definition Netlink_CreateInterface ::
    "'d kernel \<Rightarrow> string \<Rightarrow> string \<Rightarrow> int \<Rightarrow> 'd \<Rightarrow> string option \<times> 'd" where
  "Netlink_CreateInterface k name privateKey listenPort d =
     (case k_LinkAdd k name d of
        (Some err, d) \<Rightarrow> (Some (''wireguard: create interface: '' @ err), d)
      | (None, d) \<Rightarrow>
          (case k_wgctrl_New k d of
             Some err \<Rightarrow> (Some (''wireguard: create interface: open wgctrl: '' @ err), d)
           | None \<Rightarrow>
               (case k_NewKey k privateKey of
                  Inl err \<Rightarrow> (Some (''wireguard: create interface: parse private key: '' @ err), d)
                | Inr key \<Rightarrow>
                    (case k_ConfigureDevice k name (SetDevice key listenPort) d of
                       (Some err, d) \<Rightarrow> (Some (''wireguard: create interface: configure device: '' @ err), d)
                     | (None, d) \<Rightarrow> (None, d)))))"

definition Netlink_DeleteInterface :: "'d kernel \<Rightarrow> string \<Rightarrow> 'd \<Rightarrow> string option \<times> 'd" where
  "Netlink_DeleteInterface k name d =
     (case k_LinkByName k name d of
        LinkNotFound \<Rightarrow> (None, d)
      | LinkError err \<Rightarrow> (Some (''wireguard: delete interface: '' @ err), d)
      | LinkFound \<Rightarrow>
          (case k_LinkDel k name d of
             (Some err, d) \<Rightarrow> (Some (''wireguard: delete interface: '' @ err), d)
           | (None, d) \<Rightarrow> (None, d)))"

text \<open>The three operations that look the link up and then apply one change share their shape.\<close>

definition with_link ::
    "'d kernel \<Rightarrow> string \<Rightarrow> string \<Rightarrow> ('d \<Rightarrow> string option \<times> 'd) \<Rightarrow> 'd \<Rightarrow> string option \<times> 'd" where
  "with_link k what name change d =
     (case k_LinkByName k name d of
        LinkNotFound \<Rightarrow> (Some (what @ ''Link not found''), d)
      | LinkError err \<Rightarrow> (Some (what @ err), d)
      | LinkFound \<Rightarrow>
          (case change d of
             (Some err, d) \<Rightarrow> (Some (what @ err), d)
           | (None, d) \<Rightarrow> (None, d)))"

definition Netlink_ConfigureAddress :: "'d kernel \<Rightarrow> string \<Rightarrow> string \<Rightarrow> 'd \<Rightarrow> string option \<times> 'd" where
  "Netlink_ConfigureAddress k name address =
     with_link k ''wireguard: configure address: '' name
       (\<lambda>d. case k_ParseAddr k address of
              None \<Rightarrow> (Some (''parse '' @ address), d)
            | Some addr \<Rightarrow> k_AddrAdd k name addr d)"

definition Netlink_SetInterfaceUp :: "'d kernel \<Rightarrow> string \<Rightarrow> 'd \<Rightarrow> string option \<times> 'd" where
  "Netlink_SetInterfaceUp k name = with_link k ''wireguard: set interface up: '' name (k_LinkSetUp k name)"

definition Netlink_SetMTU :: "'d kernel \<Rightarrow> string \<Rightarrow> int \<Rightarrow> 'd \<Rightarrow> string option \<times> 'd" where
  "Netlink_SetMTU k name mtu = with_link k ''wireguard: set mtu: '' name (k_LinkSetMTU k name mtu)"

fun parse_cidrs :: "'d kernel \<Rightarrow> string list \<Rightarrow> string + string list" where
  "parse_cidrs k [] = Inr []"
| "parse_cidrs k (c # cs) =
     (case k_ParseCIDR k c of
        Inl err \<Rightarrow> Inl (''wireguard: add peer: parse allowed IP '' @ c @ '': '' @ err)
      | Inr ipNet \<Rightarrow> (case parse_cidrs k cs of Inl err \<Rightarrow> Inl err | Inr ns \<Rightarrow> Inr (ipNet # ns)))"

text \<open>The update that \<open>AddPeer\<close> builds from a peer configuration, or the error that stops it.\<close>

definition Netlink_peer :: "'d kernel \<Rightarrow> PeerConfig \<Rightarrow> 'd \<Rightarrow> string + wg_peer" where
  "Netlink_peer k cfg d =
     (case k_wgctrl_New k d of
        Some err \<Rightarrow> Inl (''wireguard: add peer: open wgctrl: '' @ err)
      | None \<Rightarrow>
     (case k_NewKey k (pc_PublicKey cfg) of
        Inl err \<Rightarrow> Inl (''wireguard: add peer: parse public key: '' @ err)
      | Inr pubKey \<Rightarrow>
     (case (if pc_Endpoint cfg \<noteq> '''' then map_sum id Some (k_ResolveUDPAddr k (pc_Endpoint cfg)) else Inr None) of
        Inl err \<Rightarrow> Inl (''wireguard: add peer: resolve endpoint: '' @ err)
      | Inr endpoint \<Rightarrow>
     (case parse_cidrs k (pc_AllowedIPs cfg) of
        Inl err \<Rightarrow> Inl err
      | Inr allowed \<Rightarrow>
     (case (if length (pc_PSK cfg) > 0 then map_sum id Some (k_NewKey k (pc_PSK cfg)) else Inr None) of
        Inl err \<Rightarrow> Inl (''wireguard: add peer: parse psk: '' @ err)
      | Inr psk \<Rightarrow>
          Inr \<lparr>wp_PublicKey = pubKey, wp_Endpoint = endpoint, wp_AllowedIPs = allowed, wp_PresharedKey = psk,
             wp_Keepalive = (if pc_PersistentKeepalive cfg > 0 then Some (pc_PersistentKeepalive cfg * Second) else None)\<rparr>)))))"

definition Netlink_AddPeer :: "'d kernel \<Rightarrow> string \<Rightarrow> PeerConfig \<Rightarrow> 'd \<Rightarrow> string option \<times> 'd" where
  "Netlink_AddPeer k i cfg d =
     (case Netlink_peer k cfg d of
        Inl err \<Rightarrow> (Some err, d)
      | Inr p \<Rightarrow>
          (case k_ConfigureDevice k i (UpsertPeer p) d of
             (Some err, d) \<Rightarrow> (Some (''wireguard: add peer: configure device: '' @ err), d)
           | (None, d) \<Rightarrow> (None, d)))"

definition Netlink_RemovePeer :: "'d kernel \<Rightarrow> string \<Rightarrow> string \<Rightarrow> 'd \<Rightarrow> string option \<times> 'd" where
  "Netlink_RemovePeer k i publicKey d =
     (case k_wgctrl_New k d of
        Some err \<Rightarrow> (Some (''wireguard: remove peer: open wgctrl: '' @ err), d)
      | None \<Rightarrow>
     (case k_NewKey k publicKey of
        Inl err \<Rightarrow> (Some (''wireguard: remove peer: parse public key: '' @ err), d)
      | Inr pubKey \<Rightarrow>
     (case k_ConfigureDevice k i (DropPeer pubKey) d of
        (Some err, d) \<Rightarrow> (Some (''wireguard: remove peer: configure device: '' @ err), d)
      | (None, d) \<Rightarrow> (None, d))))"

definition NewNetlinkController :: "'d kernel \<Rightarrow> 'd WGController" where
  "NewNetlinkController k = \<lparr>wg_CreateInterface = Netlink_CreateInterface k,
     wg_DeleteInterface = Netlink_DeleteInterface k, wg_ConfigureAddress = Netlink_ConfigureAddress k,
     wg_SetInterfaceUp = Netlink_SetInterfaceUp k, wg_SetMTU = Netlink_SetMTU k,
     wg_AddPeer = Netlink_AddPeer k, wg_RemovePeer = Netlink_RemovePeer k\<rparr>"

section \<open>The peers of the device\<close>

text \<open>
  What a controller promises: a successful insertion puts exactly that key on the device, a
  successful removal takes it off, and a failed operation leaves the keys as they were.
\<close>

definition device_laws :: "'d WGController \<Rightarrow> (string \<Rightarrow> 'd \<Rightarrow> string set) \<Rightarrow> bool" where
  "device_laws ctrl keys \<longleftrightarrow>
     (\<forall>i cfg d. keys i (snd (wg_AddPeer ctrl i cfg d)) =
        (if fst (wg_AddPeer ctrl i cfg d) = None then insert (pc_PublicKey cfg) (keys i d) else keys i d)) \<and>
     (\<forall>i k d. keys i (snd (wg_RemovePeer ctrl i k d)) =
        (if fst (wg_RemovePeer ctrl i k d) = None then keys i d - {k} else keys i d))"

text \<open>
  The kernel promises the same of an update, and wgctrl accepts exactly the keys of 32 bytes,
  unchanged; then the netlink controller keeps the laws of a controller.
\<close>

definition kernel_laws :: "'d kernel \<Rightarrow> (string \<Rightarrow> 'd \<Rightarrow> string set) \<Rightarrow> bool" where
  "kernel_laws k keys \<longleftrightarrow>
     (\<forall>b. k_NewKey k b = (if length b = 32 then Inr b else Inl ''wgtypes: incorrect key size'')) \<and>
     (\<forall>i p d. keys i (snd (k_ConfigureDevice k i (UpsertPeer p) d)) =
        (if fst (k_ConfigureDevice k i (UpsertPeer p) d) = None then insert (wp_PublicKey p) (keys i d) else keys i d)) \<and>
     (\<forall>i b d. keys i (snd (k_ConfigureDevice k i (DropPeer b) d)) =
        (if fst (k_ConfigureDevice k i (DropPeer b) d) = None then keys i d - {b} else keys i d))"

lemma Netlink_peer_key:
  assumes "kernel_laws k keys" "Netlink_peer k cfg d = Inr p"
  shows "wp_PublicKey p = pc_PublicKey cfg" "length (pc_PublicKey cfg) = 32"
  using assms unfolding Netlink_peer_def kernel_laws_def
  by (force split: option.splits sum.splits if_splits)+

lemma Netlink_AddPeer_keys:
  assumes "kernel_laws k keys"
  shows "keys i (snd (Netlink_AddPeer k i cfg d)) =
     (if fst (Netlink_AddPeer k i cfg d) = None then insert (pc_PublicKey cfg) (keys i d) else keys i d)"
proof (cases "Netlink_peer k cfg d")
  case (Inr p)
  have "fst (Netlink_AddPeer k i cfg d) = None \<longleftrightarrow> fst (k_ConfigureDevice k i (UpsertPeer p) d) = None"
    "snd (Netlink_AddPeer k i cfg d) = snd (k_ConfigureDevice k i (UpsertPeer p) d)"
    using Inr by (auto simp: Netlink_AddPeer_def split: prod.splits option.splits)
  then show ?thesis
    using assms Netlink_peer_key(1)[OF assms Inr] unfolding kernel_laws_def by presburger
qed (simp add: Netlink_AddPeer_def)

lemma Netlink_RemovePeer_keys:
  assumes "kernel_laws k keys"
  shows "keys i (snd (Netlink_RemovePeer k i b d)) =
     (if fst (Netlink_RemovePeer k i b d) = None then keys i d - {b} else keys i d)"
proof -
  have key: "k_NewKey k b = (if length b = 32 then Inr b else Inl ''wgtypes: incorrect key size'')"
    using assms by (simp add: kernel_laws_def)
  show ?thesis
  proof (cases "k_wgctrl_New k d = None \<and> length b = 32")
    case True
    have "fst (Netlink_RemovePeer k i b d) = None \<longleftrightarrow> fst (k_ConfigureDevice k i (DropPeer b) d) = None"
      "snd (Netlink_RemovePeer k i b d) = snd (k_ConfigureDevice k i (DropPeer b) d)"
      using True key by (auto simp: Netlink_RemovePeer_def split: prod.splits option.splits)
    then show ?thesis using assms unfolding kernel_laws_def by presburger
  next
    case False
    then obtain e where "Netlink_RemovePeer k i b d = (Some e, d)"
      using key by (cases "k_wgctrl_New k d") (auto simp: Netlink_RemovePeer_def)
    then show ?thesis by simp
  qed
qed

lemma netlink_device_laws: "kernel_laws k keys \<Longrightarrow> device_laws (NewNetlinkController k) keys"
  unfolding device_laws_def NewNetlinkController_def WGController.simps
  using Netlink_AddPeer_keys[of k keys] Netlink_RemovePeer_keys[of k keys] by blast

text \<open>The decoded key of each known peer, and the agreement of index and device.\<close>

definition key_table :: "WGManager \<Rightarrow> string \<rightharpoonup> string" where
  "key_table m i = Option.bind (mget (wm_peers m) i) DecodeString"

definition wg_consistent :: "(string \<Rightarrow> 'd \<Rightarrow> string set) \<Rightarrow> WGManager \<times> 'd \<Rightarrow> bool" where
  "wg_consistent keys s \<longleftrightarrow>
     (let (m, d) = s
      in mwf (wm_peers m) \<and> dom (key_table m) = dom (mget (wm_peers m)) \<and>
         inj_on (key_table m) (dom (key_table m)) \<and> keys (wgc_InterfaceName (wm_cfg m)) d = ran (key_table m))"

lemma device_lawsD:
  assumes "device_laws ctrl keys"
  shows "wg_AddPeer ctrl i cfg d = (None, d') \<Longrightarrow> keys i d' = insert (pc_PublicKey cfg) (keys i d)"
    and "wg_AddPeer ctrl i cfg d = (Some e, d') \<Longrightarrow> keys i d' = keys i d"
    and "wg_RemovePeer ctrl i k d = (None, d') \<Longrightarrow> keys i d' = keys i d - {k}"
    and "wg_RemovePeer ctrl i k d = (Some e, d') \<Longrightarrow> keys i d' = keys i d"
proof -
  have add: "keys i (snd (wg_AddPeer ctrl i cfg d)) =
      (if fst (wg_AddPeer ctrl i cfg d) = None then insert (pc_PublicKey cfg) (keys i d) else keys i d)"
    and rem: "keys i (snd (wg_RemovePeer ctrl i k d)) =
      (if fst (wg_RemovePeer ctrl i k d) = None then keys i d - {k} else keys i d)"
    using assms unfolding device_laws_def by blast+
  show "wg_AddPeer ctrl i cfg d = (None, d') \<Longrightarrow> keys i d' = insert (pc_PublicKey cfg) (keys i d)"
    "wg_AddPeer ctrl i cfg d = (Some e, d') \<Longrightarrow> keys i d' = keys i d" using add by simp_all
  show "wg_RemovePeer ctrl i k d = (None, d') \<Longrightarrow> keys i d' = keys i d - {k}"
    "wg_RemovePeer ctrl i k d = (Some e, d') \<Longrightarrow> keys i d' = keys i d" using rem by simp_all
qed

lemma key_table_put:
  "key_table (m\<lparr>wm_peers := mput i k (wm_peers m)\<rparr>) = (key_table m)(i := DecodeString k)"
  by (auto simp: key_table_def fun_eq_iff)

lemma key_table_del:
  "mwf (wm_peers m) \<Longrightarrow> key_table (m\<lparr>wm_peers := mdel i (wm_peers m)\<rparr>) = (key_table m)(i := None)"
  by (auto simp: key_table_def fun_eq_iff gm.get_del)

lemma wg_consistent_inj:
  assumes "wg_consistent keys (m, d)" "key_table m i = Some b" "key_table m j = Some b"
  shows "i = j"
proof -
  have inj: "inj_on (key_table m) (dom (key_table m))"
    using assms(1) unfolding wg_consistent_def Let_def split_conv by (elim conjE)
  show ?thesis
    by (rule inj_onD[OF inj]) (use assms(2,3) in \<open>auto intro: domI\<close>)
qed

lemma ran_del_inj:
  assumes "inj_on f (dom f)" "f i = Some b"
  shows "ran (f(i := None)) = ran f - {b}"
proof -
  have only: "\<forall>j. f j = Some b \<longrightarrow> j = i"
    using inj_onD[OF assms(1)] assms(2) by (metis domI)
  show ?thesis
  proof (intro equalityI subsetI)
    fix x assume "x \<in> ran (f(i := None))"
    then obtain j where "f j = Some x" "j \<noteq> i" unfolding ran_def by (auto split: if_splits)
    then show "x \<in> ran f - {b}" using only ranI[of f j x] by auto
  next
    fix x assume "x \<in> ran f - {b}"
    then obtain j where j: "f j = Some x" "x \<noteq> b" unfolding ran_def by auto
    then have "(f(i := None)) j = Some x" using assms(2) by auto
    then show "x \<in> ran (f(i := None))" by (rule ranI)
  qed
qed

lemma ran_put: "f i = None \<or> f i = Some b \<Longrightarrow> ran (f(i := Some b)) = insert b (ran f)"
proof (intro set_eqI iffI)
  fix x assume f: "f i = None \<or> f i = Some b" and "x \<in> insert b (ran f)"
  then consider "x = b" | j where "f j = Some x" "j \<noteq> i" | "x = b" unfolding ran_def by fastforce
  then show "x \<in> ran (f(i := Some b))" by cases (auto simp: ran_def)
qed (auto simp: ran_def split: if_splits)

lemma WG_RemovePeerByID_consistent:
  assumes "device_laws ctrl keys" "wg_consistent keys (m, d)" "WG_RemovePeerByID ctrl i (m, d) = (None, m', d')"
  shows "wg_consistent keys (m', d') \<and> mget (wm_peers m') = (mget (wm_peers m))(i := None) \<and> wm_cfg m' = wm_cfg m"
proof -
  obtain k b where k: "mget (wm_peers m) i = Some k" "DecodeString k = Some b"
    and rem: "wg_RemovePeer ctrl (wgc_InterfaceName (wm_cfg m)) b d = (None, d')"
    and m': "m' = m\<lparr>wm_peers := mdel i (wm_peers m)\<rparr>"
    using assms(3) by (auto simp: WG_RemovePeerByID_def PeerIndex_Lookup_def PeerIndex_Remove_def
        split: option.splits prod.splits)
  have wf: "mwf (wm_peers m)" and dm: "dom (key_table m) = dom (mget (wm_peers m))"
    and inj: "inj_on (key_table m) (dom (key_table m))"
    and ks: "keys (wgc_InterfaceName (wm_cfg m)) d = ran (key_table m)"
    using assms(2) by (auto simp: wg_consistent_def)
  have tab: "key_table m' = (key_table m)(i := None)" by (simp add: m' key_table_del[OF wf])
  have get: "mget (wm_peers m') = (mget (wm_peers m))(i := None)"
    using gm.get_del[OF wf, of i] by (auto simp: m' fun_eq_iff)
  have "key_table m i = Some b" using k by (simp add: key_table_def)
  then have "keys (wgc_InterfaceName (wm_cfg m)) d' = ran (key_table m')"
    unfolding tab device_lawsD(3)[OF assms(1) rem] ks using ran_del_inj[OF inj] by simp
  moreover have "inj_on (key_table m') (dom (key_table m'))"
    using inj unfolding tab by (auto simp: inj_on_def)
  ultimately show ?thesis
    using get tab dm wf by (simp add: wg_consistent_def m' gm.wf_del)
qed

lemma peer_upsert_consistent:
  assumes "device_laws ctrl keys" "wg_consistent keys (m, d)" "DecodeString k = Some b"
    and "wg_AddPeer ctrl (wgc_InterfaceName (wm_cfg m)) cfg d = (None, d')" "pc_PublicKey cfg = b"
    and "mget (wm_peers m) i = None \<or> mget (wm_peers m) i = Some k"
    and "\<And>j. j \<noteq> i \<Longrightarrow> key_table m j \<noteq> Some b"
  shows "wg_consistent keys (m\<lparr>wm_peers := mput i k (wm_peers m)\<rparr>, d')"
proof -
  have wf: "mwf (wm_peers m)" and dm: "dom (key_table m) = dom (mget (wm_peers m))"
    and inj: "inj_on (key_table m) (dom (key_table m))"
    and ks: "keys (wgc_InterfaceName (wm_cfg m)) d = ran (key_table m)"
    using assms(2) by (auto simp: wg_consistent_def)
  have get: "mget (mput i k (wm_peers m)) = (mget (wm_peers m))(i := Some k)"
    by (auto simp: fun_eq_iff)
  have "key_table m i = None \<or> key_table m i = Some b"
    using assms(3,6) by (auto simp: key_table_def)
  then have "ran ((key_table m)(i := Some b)) = insert b (ran (key_table m))" by (rule ran_put)
  moreover have "inj_on ((key_table m)(i := Some b)) (dom ((key_table m)(i := Some b)))"
    using inj assms(7) by (auto simp: inj_on_def split: if_splits)
  moreover have "mwf (mput i k (wm_peers m))" using wf by (rule gm.wf_put)
  ultimately show ?thesis
    using device_lawsD(1)[OF assms(1,4)] assms(3,5) ks dm
    unfolding wg_consistent_def split_conv Let_def key_table_put by (simp add: get)
qed

lemma PeerConfig_key: "PeerConfigFromAPI p = Inr cfg \<Longrightarrow> DecodeString (p_PublicKey p) = Some (pc_PublicKey cfg)"
  by (auto simp: PeerConfigFromAPI_def split: option.splits if_splits)

lemma WG_AddPeer_success:
  assumes "WG_AddPeer ctrl p (m, d) = (None, m', d')"
  obtains cfg where "PeerConfigFromAPI p = Inr cfg"
    "wg_AddPeer ctrl (wgc_InterfaceName (wm_cfg m)) cfg d = (None, d')"
    "m' = m\<lparr>wm_peers := mput (p_ID p) (p_PublicKey p) (wm_peers m)\<rparr>"
  using assms by (auto simp: WG_AddPeer_def PeerIndex_Add_def split: sum.splits option.splits prod.splits)

lemma WG_UpdatePeer_success:
  assumes "WG_UpdatePeer ctrl p (m, d) = (None, m', d')"
  obtains cfg where "PeerConfigFromAPI p = Inr cfg"
    "wg_AddPeer ctrl (wgc_InterfaceName (wm_cfg m)) cfg d = (None, d')"
    "m' = m\<lparr>wm_peers := mput (p_ID p) (p_PublicKey p) (wm_peers m)\<rparr>"
  using assms by (auto simp: WG_UpdatePeer_def PeerIndex_Update_def split: sum.splits option.splits prod.splits)

section \<open>The handlers\<close>

lemma remove_loop:
  assumes "device_laws ctrl keys" "wg_consistent keys (m, d)"
    and "collect_errs (WG_RemovePeerByID ctrl) is (errs, m, d) = (errs, m', d')"
  shows "wg_consistent keys (m', d') \<and> mget (wm_peers m') = mget (wm_peers m) |` (- set is)"
  using assms(2,3)
proof (induction "is" arbitrary: m d)
  case Nil
  then show ?case by (simp add: restrict_map_def)
next
  case (Cons i "is")
  obtain m1 d1 where s1: "WG_RemovePeerByID ctrl i (m, d) = (None, m1, d1)"
      "collect_errs (WG_RemovePeerByID ctrl) is (errs, m1, d1) = (errs, m', d')"
    using collect_errs_ok[OF Cons.prems(2)] by (metis prod.exhaust)
  note c = WG_RemovePeerByID_consistent[OF assms(1) Cons.prems(1) s1(1)]
  then show ?case using Cons.IH[OF _ s1(2)] by (auto simp: restrict_map_def fun_eq_iff)
qed

lemma update_loop:
  assumes "device_laws ctrl keys" "wg_consistent keys (m, d)"
    and "collect_errs (WG_UpdatePeer ctrl) ps (errs, m, d) = (errs, m', d')"
    and "\<And>p. p \<in> set ps \<Longrightarrow> mget (wm_peers m) (p_ID p) = Some (p_PublicKey p)"
  shows "wg_consistent keys (m', d') \<and> mget (wm_peers m') = mget (wm_peers m)"
  using assms(2-4)
proof (induction ps arbitrary: m d)
  case (Cons p ps)
  obtain m1 d1 where s1: "WG_UpdatePeer ctrl p (m, d) = (None, m1, d1)"
      "collect_errs (WG_UpdatePeer ctrl) ps (errs, m1, d1) = (errs, m', d')"
    using collect_errs_ok[OF Cons.prems(2)] by (metis prod.exhaust)
  obtain cfg where cfg: "PeerConfigFromAPI p = Inr cfg"
      "wg_AddPeer ctrl (wgc_InterfaceName (wm_cfg m)) cfg d = (None, d1)"
      "m1 = m\<lparr>wm_peers := mput (p_ID p) (p_PublicKey p) (wm_peers m)\<rparr>"
    using WG_UpdatePeer_success[OF s1(1)] by blast
  have idx: "mget (wm_peers m) (p_ID p) = Some (p_PublicKey p)" using Cons.prems(3) by simp
  have tab: "key_table m (p_ID p) = Some (pc_PublicKey cfg)"
    using idx PeerConfig_key[OF cfg(1)] by (simp add: key_table_def)
  have "key_table m j \<noteq> Some (pc_PublicKey cfg)" if "j \<noteq> p_ID p" for j
    using wg_consistent_inj[OF Cons.prems(1)] tab that by blast
  then have "wg_consistent keys (m1, d1)"
    using peer_upsert_consistent[OF assms(1) Cons.prems(1) PeerConfig_key[OF cfg(1)] cfg(2) refl] idx cfg(3) by auto
  moreover have same: "mget (wm_peers m1) = mget (wm_peers m)" using idx by (auto simp: cfg(3) fun_eq_iff)
  ultimately show ?case using Cons.IH[OF _ s1(2)] Cons.prems(3) by (simp add: same)
qed simp

lemma add_loop:
  assumes "device_laws ctrl keys" "wg_consistent keys (m, d)"
    and "collect_errs (WG_AddPeer ctrl) ps (errs, m, d) = (errs, m', d')"
    and "distinct (map p_ID ps)" and "\<And>p. p \<in> set ps \<Longrightarrow> mget (wm_peers m) (p_ID p) = None"
    and "inj_on (\<lambda>p. DecodeString (p_PublicKey p)) (set ps)"
    and "\<And>p. p \<in> set ps \<Longrightarrow> DecodeString (p_PublicKey p) \<notin> Some ` ran (key_table m)"
  shows "wg_consistent keys (m', d') \<and>
     mget (wm_peers m') = mget (wm_peers m) ++ map_of (map (\<lambda>p. (p_ID p, p_PublicKey p)) ps)"
  using assms(2-7)
proof (induction ps arbitrary: m d)
  case (Cons p ps)
  obtain m1 d1 where s1: "WG_AddPeer ctrl p (m, d) = (None, m1, d1)"
      "collect_errs (WG_AddPeer ctrl) ps (errs, m1, d1) = (errs, m', d')"
    using collect_errs_ok[OF Cons.prems(2)] by (metis prod.exhaust)
  obtain cfg where cfg: "PeerConfigFromAPI p = Inr cfg"
      "wg_AddPeer ctrl (wgc_InterfaceName (wm_cfg m)) cfg d = (None, d1)"
      "m1 = m\<lparr>wm_peers := mput (p_ID p) (p_PublicKey p) (wm_peers m)\<rparr>"
    using WG_AddPeer_success[OF s1(1)] by blast
  note key = PeerConfig_key[OF cfg(1)]
  have fresh: "mget (wm_peers m) (p_ID p) = None" using Cons.prems(4) by simp
  have new: "key_table m j \<noteq> Some (pc_PublicKey cfg)" for j
    using Cons.prems(6)[of p] key by (auto simp: ran_def)
  have c1: "wg_consistent keys (m1, d1)"
    using peer_upsert_consistent[OF assms(1) Cons.prems(1) key cfg(2) refl] fresh new cfg(3) by auto
  have get: "mget (wm_peers m1) = (mget (wm_peers m))(p_ID p := Some (p_PublicKey p))"
    by (auto simp: cfg(3) fun_eq_iff)
  have "ran (key_table m1) \<subseteq> insert (pc_PublicKey cfg) (ran (key_table m))"
    unfolding cfg(3) key_table_put key by (auto simp: ran_def split: if_splits)
  then have keys1: "DecodeString (p_PublicKey q) \<notin> Some ` ran (key_table m1)" if "q \<in> set ps" for q
  proof -
    have "DecodeString (p_PublicKey q) \<noteq> Some (pc_PublicKey cfg)"
    proof
      assume "DecodeString (p_PublicKey q) = Some (pc_PublicKey cfg)"
      then have "q = p" using inj_onD[OF Cons.prems(5), of q p] key that by simp
      then show False using Cons.prems(3) that by simp
    qed
    moreover have "DecodeString (p_PublicKey q) \<notin> Some ` ran (key_table m)" using Cons.prems(6) that by simp
    ultimately show ?thesis
      using \<open>ran (key_table m1) \<subseteq> insert (pc_PublicKey cfg) (ran (key_table m))\<close> by blast
  qed
  have fresh1: "mget (wm_peers m1) (p_ID q) = None" if "q \<in> set ps" for q
  proof -
    have "p_ID q \<noteq> p_ID p" using Cons.prems(3) that by (auto simp: rev_image_eqI)
    then show ?thesis using Cons.prems(4)[of q] that by (simp add: get)
  qed
  have "wg_consistent keys (m', d') \<and>
      mget (wm_peers m') = mget (wm_peers m1) ++ map_of (map (\<lambda>p. (p_ID p, p_PublicKey p)) ps)"
    using Cons.IH[OF c1 s1(2) _ fresh1 _ keys1] Cons.prems(3,5) by (simp add: inj_on_insert)
  moreover have "p_ID p \<notin> dom (map_of (map (\<lambda>p. (p_ID p, p_PublicKey p)) ps))"
    using Cons.prems(3) by (auto simp: dom_map_of_conv_image_fst)
  ultimately show ?case
    using map_add_upd[of "mget (wm_peers m)" "map_of (map (\<lambda>p. (p_ID p, p_PublicKey p)) ps)"]
    by (simp add: get map_add_upd_left del: fun_upd_apply)
qed simp

section \<open>Properties of the WireGuard manager\<close>

text \<open>The index holds exactly the keys of a list of peers.\<close>

definition index_of :: "Peer list \<Rightarrow> string \<rightharpoonup> string" where
  "index_of ps = map_of (map (\<lambda>p. (p_ID p, p_PublicKey p)) ps)"

lemma index_of_Some:
  "unique_peers ps \<Longrightarrow> index_of ps i = Some k \<longleftrightarrow> (\<exists>p \<in> set ps. p_ID p = i \<and> p_PublicKey p = k)"
  by (force simp: index_of_def unique_peers_def map_of_eq_Some_iff comp_def)

lemma index_of_None: "index_of ps i = None \<longleftrightarrow> i \<notin> p_ID ` set ps"
  by (auto simp: index_of_def map_of_eq_None_iff image_image)

lemma index_after_diff:
  assumes "unique_peers ds" "unique_peers cs"
    and same: "\<And>p q. p \<in> set ds \<Longrightarrow> q \<in> set cs \<Longrightarrow> p_ID p = p_ID q \<Longrightarrow> p_PublicKey p = p_PublicKey q"
  shows "(index_of cs |` (- set (map p_ID (filter (\<lambda>c. p_ID c \<notin> p_ID ` set ds) cs)))) ++
      index_of (filter (\<lambda>d. p_ID d \<notin> p_ID ` set cs) ds) = index_of ds"
    (is "?l = _")
proof
  fix i
  have rem: "i \<in> set (map p_ID (filter (\<lambda>c. p_ID c \<notin> p_ID ` set ds) cs)) \<longleftrightarrow> i \<in> p_ID ` set cs \<and> i \<notin> p_ID ` set ds"
    by (auto simp: image_iff)
  show "?l i = index_of ds i"
  proof (cases "i \<in> p_ID ` set cs")
    case True
    then have "index_of (filter (\<lambda>d. p_ID d \<notin> p_ID ` set cs) ds) i = None"
      unfolding index_of_None by (auto; metis image_eqI)
    then have l: "?l i = (if i \<in> p_ID ` set ds then index_of cs i else None)"
      using True rem by (simp add: map_add_def restrict_map_def)
    show ?thesis
    proof (cases "i \<in> p_ID ` set ds")
      case False
      then show ?thesis using index_of_None[of ds i] l by simp
    next
      case d: True
      obtain p q where pq: "p \<in> set ds" "q \<in> set cs" "p_ID p = i" "p_ID q = i" using d True by auto
      then have "index_of cs i = Some (p_PublicKey q)" "index_of ds i = Some (p_PublicKey p)"
        using index_of_Some[OF assms(2)] index_of_Some[OF assms(1)] by blast+
      then show ?thesis using l d same[OF pq(1,2)] pq by simp
    qed
  next
    case False
    then have "index_of cs i = None" by (simp add: index_of_None)
    moreover have "index_of (filter (\<lambda>d. p_ID d \<notin> p_ID ` set cs) ds) i = index_of ds i"
    proof (cases "index_of ds i")
      case None
      then have "index_of (filter (\<lambda>d. p_ID d \<notin> p_ID ` set cs) ds) i = None"
        unfolding index_of_None by (auto simp: image_iff)
      then show ?thesis using None by simp
    next
      case (Some k)
      then have "\<exists>p \<in> set (filter (\<lambda>d. p_ID d \<notin> p_ID ` set cs) ds). p_ID p = i \<and> p_PublicKey p = k"
        using index_of_Some[OF assms(1)] False by auto
      then have "index_of (filter (\<lambda>d. p_ID d \<notin> p_ID ` set cs) ds) i = Some k"
        by (simp only: index_of_Some[OF unique_peers_filter[OF assms(1)]])
      then show ?thesis using Some by simp
    qed
    ultimately show ?thesis by (simp add: map_add_def restrict_map_def split: option.splits)
  qed
qed

lemma handler_loops:
  assumes "WG_ReconcileHandler ctrl des diff (m, d) = (Ret None, m', d')"
  obtains m1 d1 m2 d2 where
    "collect_errs (WG_RemovePeerByID ctrl) (PeersToRemove diff) ([], m, d) = ([], m1, d1)"
    "collect_errs (WG_UpdatePeer ctrl) (PeersToUpdate diff) ([], m1, d1) = ([], m2, d2)"
    "collect_errs (WG_AddPeer ctrl) (PeersToAdd diff) ([], m2, d2) = ([], m', d')"
proof -
  obtain e1 m1 d1 where l1:
      "collect_errs (WG_RemovePeerByID ctrl) (PeersToRemove diff) ([], m, d) = (e1, m1, d1)" by (rule prod_cases3)
  obtain e2 m2 d2 where l2:
      "collect_errs (WG_UpdatePeer ctrl) (PeersToUpdate diff) (e1, m1, d1) = (e2, m2, d2)" by (rule prod_cases3)
  obtain e3 m3 d3 where l3:
      "collect_errs (WG_AddPeer ctrl) (PeersToAdd diff) (e2, m2, d2) = (e3, m3, d3)" by (rule prod_cases3)
  have loops: "collect_errs (WG_AddPeer ctrl) (PeersToAdd diff) (e2, m2, d2) = ([], m', d')"
    using assms l1 l2 l3 by (simp add: WG_ReconcileHandler_def errors_Join_def split: if_splits)
  note l1 l2 loops
  moreover have "e2 = []" "e1 = []"
    using collect_errs_mono[OF loops] collect_errs_mono[OF l2] by auto
  ultimately show thesis using that by simp
qed

lemma key_fresh:
  assumes "unique_peers cs" "mget (wm_peers m) = index_of cs |` A"
    and "\<And>q. q \<in> set cs \<Longrightarrow> DecodeString (p_PublicKey p) = DecodeString (p_PublicKey q) \<Longrightarrow> p_ID p = p_ID q"
    and "p_ID p \<notin> p_ID ` set cs"
  shows "DecodeString (p_PublicKey p) \<notin> Some ` ran (key_table m)"
proof
  assume "DecodeString (p_PublicKey p) \<in> Some ` ran (key_table m)"
  then obtain b j where j: "DecodeString (p_PublicKey p) = Some b" "key_table m j = Some b"
    unfolding ran_def by auto
  then obtain k where k: "index_of cs j = Some k" "DecodeString k = Some b"
    by (auto simp: key_table_def assms(2) restrict_map_def bind_eq_Some_conv split: if_splits)
  then obtain q where q: "q \<in> set cs" "p_PublicKey q = k" using index_of_Some[OF assms(1)] by blast
  then have "p_ID p = p_ID q" using assms(3)[of q] j k by simp
  then show False using assms(4) q(1) by simp
qed

text \<open>C11: When the reconcile handler reports no error, the device ends up with exactly the keys of the
  desired peers and the index with exactly their entries, provided index and device agreed on the
  current peers before, no peer changed its key, and no key moved from one peer to another.\<close>

theorem WG_ReconcileHandler_converges:
  assumes "device_laws ctrl keys" "wg_consistent keys (m, d)"
    and "unique_peers (sr_Peers des)" "unique_peers (sr_Peers cur)"
    and "mget (wm_peers m) = index_of (sr_Peers cur)"
    and "\<And>p q. p \<in> set (sr_Peers des) \<Longrightarrow> q \<in> set (sr_Peers cur) \<Longrightarrow> p_ID p = p_ID q \<Longrightarrow> p_PublicKey p = p_PublicKey q"
    and "\<And>p q. p \<in> set (sr_Peers des) \<Longrightarrow> q \<in> set (sr_Peers cur) \<union> set (sr_Peers des) \<Longrightarrow>
           DecodeString (p_PublicKey p) = DecodeString (p_PublicKey q) \<Longrightarrow> p_ID p = p_ID q"
    and "WG_ReconcileHandler ctrl des (ComputeDiff (Some des) (Some cur)) (m, d) = (Ret None, m', d')"
  shows "wg_consistent keys (m', d') \<and> mget (wm_peers m') = index_of (sr_Peers des)"
proof -
  let ?D = "sr_Peers des" and ?C = "sr_Peers cur"
  let ?diff = "ComputeDiff (Some des) (Some cur)"
  define adds where "adds = filter (\<lambda>dp. p_ID dp \<notin> p_ID ` set ?C) ?D"
  have lists: "PeersToAdd ?diff = adds"
      "PeersToRemove ?diff = map p_ID (filter (\<lambda>cp. p_ID cp \<notin> p_ID ` set ?D) ?C)"
      "\<And>p. p \<in> set (PeersToUpdate ?diff) \<Longrightarrow> p \<in> set ?D \<and> p_ID p \<in> p_ID ` set ?C"
    using current_index[OF assms(4)] by (auto simp: ComputeDiff_eq adds_def intro: rev_image_eqI)
  obtain m1 d1 m2 d2 where loops:
      "collect_errs (WG_RemovePeerByID ctrl) (PeersToRemove ?diff) ([], m, d) = ([], m1, d1)"
      "collect_errs (WG_UpdatePeer ctrl) (PeersToUpdate ?diff) ([], m1, d1) = ([], m2, d2)"
      "collect_errs (WG_AddPeer ctrl) adds ([], m2, d2) = ([], m', d')"
    using handler_loops[OF assms(8)] lists(1) by metis
  have r: "wg_consistent keys (m1, d1)"
      "mget (wm_peers m1) = index_of ?C |` (- set (PeersToRemove ?diff))"
    using remove_loop[OF assms(1,2), of "PeersToRemove ?diff" "[]" m1 d1] loops(1) assms(5) by simp_all
  have "mget (wm_peers m1) (p_ID p) = Some (p_PublicKey p)" if p: "p \<in> set (PeersToUpdate ?diff)" for p
  proof -
    obtain q where q: "q \<in> set ?C" "p_ID q = p_ID p" "p \<in> set ?D" using lists(3)[OF p] by auto
    then have "index_of ?C (p_ID p) = Some (p_PublicKey p)"
      using assms(6) index_of_Some[OF assms(4)] by metis
    moreover have "p_ID p \<notin> set (PeersToRemove ?diff)" using q(3) lists(2) by (auto; metis image_eqI)
    ultimately show ?thesis by (simp add: r(2))
  qed
  then have u: "wg_consistent keys (m2, d2)" "mget (wm_peers m2) = mget (wm_peers m1)"
    using update_loop[OF assms(1) r(1), of "PeersToUpdate ?diff" "[]" m2 d2] loops(2) by simp_all
  have ua: "unique_peers adds" unfolding adds_def using assms(3) by (rule unique_peers_filter)
  have fresh: "mget (wm_peers m2) (p_ID p) = None" if "p \<in> set adds" for p
    using that by (simp add: u(2) r(2) restrict_map_def index_of_None adds_def)
  have inj: "inj_on (\<lambda>p. DecodeString (p_PublicKey p)) (set adds)"
  proof (rule inj_onI)
    fix p q assume pq: "p \<in> set adds" "q \<in> set adds" "DecodeString (p_PublicKey p) = DecodeString (p_PublicKey q)"
    then have "p_ID p = p_ID q" using assms(7)[of p q] by (simp add: adds_def)
    then show "p = q" using unique_peersD[OF assms(3), of p q] pq by (simp add: adds_def)
  qed
  have newkey: "DecodeString (p_PublicKey p) \<notin> Some ` ran (key_table m2)" if "p \<in> set adds" for p
  proof (rule key_fresh[OF assms(4)])
    show "mget (wm_peers m2) = index_of ?C |` (- set (PeersToRemove ?diff))" by (simp add: u(2) r(2))
  qed (use assms(7)[of p] that in \<open>simp_all add: adds_def\<close>)
  have a: "wg_consistent keys (m', d') \<and> mget (wm_peers m') = mget (wm_peers m2) ++ index_of adds"
    using add_loop[OF assms(1) u(1) loops(3) _ fresh inj newkey] ua
    by (simp add: unique_peers_def index_of_def)
  have "index_of ?C |` (- set (PeersToRemove ?diff)) ++ index_of adds = index_of ?D"
    unfolding lists(2) adds_def by (rule index_after_diff[OF assms(3,4)]) (rule assms(6))
  then show ?thesis using a by (simp add: u(2) r(2))
qed

text \<open>A controller over a plain list of keys.\<close>

definition ex_ctrl :: "string list WGController" where
  "ex_ctrl = \<lparr>wg_CreateInterface = \<lambda>_ _ _ d. (None, d), wg_DeleteInterface = \<lambda>_ d. (None, []),
     wg_ConfigureAddress = \<lambda>_ _ d. (None, d), wg_SetInterfaceUp = \<lambda>_ d. (None, d), wg_SetMTU = \<lambda>_ _ d. (None, d),
     wg_AddPeer = \<lambda>_ cfg d. (None, pc_PublicKey cfg # d), wg_RemovePeer = \<lambda>_ k d. (None, removeAll k d)\<rparr>"

definition ex_wg_peer :: "string \<Rightarrow> string \<Rightarrow> Peer" where
  "ex_wg_peer i k = \<lparr>p_ID = i, p_PublicKey = k, p_MeshIP = '''', p_Endpoint = '''', p_AllowedIPs = [], p_PSK = ''''\<rparr>"

definition ex_state :: "Peer list \<Rightarrow> StateResponse" where
  "ex_state ps = emptyStateResponse\<lparr>sr_Peers := ps\<rparr>"

definition ex_manager :: "(string, string) gomap \<Rightarrow> WGManager" where
  "ex_manager idx = (NewWGManager \<lparr>wgc_InterfaceName = '''', wgc_ListenPort = 0, wgc_MTU = 0\<rparr>)\<lparr>wm_peers := idx\<rparr>"

lemma ex_ctrl_laws: "device_laws ex_ctrl (\<lambda>_. set)"
  by (simp add: device_laws_def ex_ctrl_def)

lemma ex_keys: "DecodeString ''QUJD'' = Some ''ABC''" "DecodeString ''REVG'' = Some ''DEF''"
  by code_simp+

theorem WG_ReconcileHandler_converges_witness:
  "\<exists>m' d'. WG_ReconcileHandler ex_ctrl (ex_state [ex_wg_peer ''b'' ''REVG''])
       (ComputeDiff (Some (ex_state [ex_wg_peer ''b'' ''REVG''])) (Some (ex_state [ex_wg_peer ''a'' ''QUJD''])))
       (ex_manager [(''a'', ''QUJD'')], [''ABC'']) = (Ret None, m', d') \<and>
     wg_consistent (\<lambda>_. set) (m', d') \<and> mget (wm_peers m') = index_of [ex_wg_peer ''b'' ''REVG'']"
proof -
  let ?des = "ex_state [ex_wg_peer ''b'' ''REVG'']" and ?cur = "ex_state [ex_wg_peer ''a'' ''QUJD'']"
  have peers: "sr_Peers (ex_state ps) = ps" for ps by (simp add: ex_state_def emptyStateResponse_def)
  have tab: "key_table (ex_manager [(''a'', ''QUJD'')]) = [''a'' \<mapsto> ''ABC'']"
    by (auto simp: key_table_def ex_manager_def ex_keys fun_eq_iff)
  have c: "wg_consistent (\<lambda>_. set) (ex_manager [(''a'', ''QUJD'')], [''ABC''])"
    unfolding wg_consistent_def split_conv Let_def tab by (auto simp: ex_manager_def)
  have run: "\<exists>m' d'. WG_ReconcileHandler ex_ctrl ?des (ComputeDiff (Some ?des) (Some ?cur))
      (ex_manager [(''a'', ''QUJD'')], [''ABC'']) = (Ret None, m', d')"
    by (simp add: WG_ReconcileHandler_def ComputeDiff_eq peers ex_wg_peer_def ex_manager_def ex_ctrl_def ex_keys
        WG_RemovePeerByID_def WG_AddPeer_def PeerIndex_Lookup_def PeerConfigFromAPI_def errors_Join_def)
  then obtain m' d' where run: "WG_ReconcileHandler ex_ctrl ?des (ComputeDiff (Some ?des) (Some ?cur))
      (ex_manager [(''a'', ''QUJD'')], [''ABC'']) = (Ret None, m', d')" by blast
  have "wg_consistent (\<lambda>_. set) (m', d') \<and> mget (wm_peers m') = index_of (sr_Peers ?des)"
    by (rule WG_ReconcileHandler_converges[OF ex_ctrl_laws c _ _ _ _ _ run])
       (auto simp: peers unique_peers_def index_of_def ex_wg_peer_def ex_manager_def ex_keys)
  then show ?thesis using run by (auto simp: peers)
qed

text \<open>A peer update that succeeds with a new public key leaves the old key on the device: the index
  forgets it, so no later removal by identifier takes it off.\<close>

theorem WG_UpdatePeer_leaves_old_key:
  assumes "device_laws ctrl keys" "wg_consistent keys (m, d)"
    and "mget (wm_peers m) (p_ID p) = Some old" "DecodeString old = Some b"
    and "DecodeString (p_PublicKey p) \<noteq> Some b"
    and "WG_UpdatePeer ctrl p (m, d) = (None, m', d')"
  shows "b \<in> keys (wgc_InterfaceName (wm_cfg m')) d' \<and> b \<notin> ran (key_table m') \<and> \<not> wg_consistent keys (m', d')"
proof -
  obtain cfg where cfg: "PeerConfigFromAPI p = Inr cfg"
      "wg_AddPeer ctrl (wgc_InterfaceName (wm_cfg m)) cfg d = (None, d')"
      "m' = m\<lparr>wm_peers := mput (p_ID p) (p_PublicKey p) (wm_peers m)\<rparr>"
    using WG_UpdatePeer_success[OF assms(6)] by blast
  have b: "key_table m (p_ID p) = Some b" using assms(3,4) by (simp add: key_table_def)
  then have "b \<in> ran (key_table m)" by (rule ranI)
  then have on: "b \<in> keys (wgc_InterfaceName (wm_cfg m')) d'"
    using device_lawsD(1)[OF assms(1) cfg(2)] assms(2) by (simp add: wg_consistent_def cfg(3))
  have "b \<notin> ran (key_table m')"
    using assms(5) wg_consistent_inj[OF assms(2) b] unfolding cfg(3) key_table_put ran_def by auto
  then show ?thesis using on by (auto simp: wg_consistent_def)
qed

theorem WG_UpdatePeer_leaves_old_key_witness:
  "\<exists>m' d'. WG_UpdatePeer ex_ctrl (ex_wg_peer ''a'' ''REVG'') (ex_manager [(''a'', ''QUJD'')], [''ABC'']) = (None, m', d') \<and>
     ''ABC'' \<in> set d' \<and> \<not> wg_consistent (\<lambda>_. set) (m', d')"
proof -
  have tab: "key_table (ex_manager [(''a'', ''QUJD'')]) = [''a'' \<mapsto> ''ABC'']"
    by (auto simp: key_table_def ex_manager_def ex_keys fun_eq_iff)
  have c: "wg_consistent (\<lambda>_. set) (ex_manager [(''a'', ''QUJD'')], [''ABC''])"
    unfolding wg_consistent_def split_conv Let_def tab by (auto simp: ex_manager_def)
  obtain m' d' where run: "WG_UpdatePeer ex_ctrl (ex_wg_peer ''a'' ''REVG'') (ex_manager [(''a'', ''QUJD'')], [''ABC'']) =
      (None, m', d')"
    by (simp add: WG_UpdatePeer_def ex_wg_peer_def ex_ctrl_def PeerConfigFromAPI_def ex_keys)
  show ?thesis
    using run WG_UpdatePeer_leaves_old_key[OF ex_ctrl_laws c _ ex_keys(1) _ run]
    by (auto simp: ex_wg_peer_def ex_manager_def ex_keys)
qed

end
