(* ===== verification/Policy.thy ===== *)
theory Policy
  imports WireGuard
begin

text \<open>
  Network policy enforcement of \<open>internal/policy\<close>: the configuration (\<open>config.go\<close>), the
  engine that filters peers and builds firewall rules (\<open>engine.go\<close>), the rule and its controller
  interface (\<open>firewall.go\<close>), the enforcer (\<open>enforcer.go\<close>), and the reconcile handler
  (\<open>handler.go\<close>).  The packet filter behind the controller is a state \<open>'f\<close>.
\<close>

section \<open>config.go\<close>

record PolicyConfig =
  pcf_Enabled :: bool
  pcf_ChainName :: string

definition PolicyConfig_ApplyDefaults :: "PolicyConfig \<Rightarrow> PolicyConfig" where
  "PolicyConfig_ApplyDefaults c =
     (if pcf_ChainName c = '''' then c\<lparr>pcf_Enabled := True, pcf_ChainName := ''plexd-mesh''\<rparr> else c)"

definition PolicyConfig_Validate :: "PolicyConfig \<Rightarrow> string option" where
  "PolicyConfig_Validate c =
     (if \<not> pcf_Enabled c then None
      else if pcf_ChainName c = '''' then Some ''policy: config: ChainName must not be empty when enabled''
      else None)"

section \<open>firewall.go\<close>

record FirewallRule =
  fr_Interface :: string
  fr_SrcIP :: string
  fr_DstIP :: string
  fr_Port :: int
  fr_Protocol :: string
  fr_Action :: string

definition FirewallRule_Validate :: "FirewallRule \<Rightarrow> string option" where
  "FirewallRule_Validate r =
     (if fr_Action r \<noteq> ''allow'' \<and> fr_Action r \<noteq> ''deny''
        then Some (''policy: firewall rule: invalid action '' @ fr_Action r)
      else if fr_Port r < 0 \<or> fr_Port r > 65535
        then Some (''policy: firewall rule: invalid port '' @ Itoa (fr_Port r))
      else if fr_Protocol r \<noteq> '''' \<and> fr_Protocol r \<noteq> ''tcp'' \<and> fr_Protocol r \<noteq> ''udp''
        then Some (''policy: firewall rule: invalid protocol '' @ fr_Protocol r)
      else if fr_Port r > 0 \<and> fr_Protocol r = ''''
        then Some (''policy: firewall rule: port '' @ Itoa (fr_Port r) @ '' requires a protocol'')
      else None)"

record 'f FirewallController =
  fw_EnsureChain :: "string \<Rightarrow> 'f \<Rightarrow> string option outcome \<times> 'f"
  fw_ApplyRules :: "string \<Rightarrow> FirewallRule list \<Rightarrow> 'f \<Rightarrow> string option outcome \<times> 'f"
  fw_FlushChain :: "string \<Rightarrow> 'f \<Rightarrow> string option outcome \<times> 'f"
  fw_DeleteChain :: "string \<Rightarrow> 'f \<Rightarrow> string option outcome \<times> 'f"

section \<open>engine.go\<close>

definition rule_allows :: "string \<Rightarrow> string \<Rightarrow> PolicyRule \<Rightarrow> bool" where
  "rule_allows peerID localNodeID r =
     (if pr_Action r \<noteq> ''allow'' then False
      else
        let srcMatchesLocal = (pr_Src r = localNodeID \<or> pr_Src r = ''*'');
            dstMatchesPeer = (pr_Dst r = peerID \<or> pr_Dst r = ''*'')
        in if srcMatchesLocal \<and> dstMatchesPeer then True
           else
             let srcMatchesPeer = (pr_Src r = peerID \<or> pr_Src r = ''*'');
                 dstMatchesLocal = (pr_Dst r = localNodeID \<or> pr_Dst r = ''*'')
             in srcMatchesPeer \<and> dstMatchesLocal)"

definition peerAllowed :: "string \<Rightarrow> string \<Rightarrow> Policy list \<Rightarrow> bool" where
  "peerAllowed peerID localNodeID policies =
     list_ex (\<lambda>pol. list_ex (rule_allows peerID localNodeID) (pol_Rules pol)) policies"

definition FilterPeers :: "Peer list \<Rightarrow> Policy list \<Rightarrow> string \<Rightarrow> Peer list" where
  "FilterPeers peers policies localNodeID =
     (if length policies = 0 then []
      else fold (\<lambda>p allowed.
             if p_ID p = localNodeID then allowed
             else if peerAllowed (p_ID p) localNodeID policies then allowed @ [p] else allowed)
           peers [])"

definition isValidProtocol :: "string \<Rightarrow> bool" where
  "isValidProtocol proto \<longleftrightarrow> proto = '''' \<or> proto = ''tcp'' \<or> proto = ''udp''"

text \<open>Reading a missing key of a Go map gives the zero value.\<close>

definition lookup_ip :: "(string, string) gomap \<Rightarrow> string \<Rightarrow> string" where
  "lookup_ip m k = (case mget m k of None \<Rightarrow> '''' | Some v \<Rightarrow> v)"

definition resolveIP :: "string \<Rightarrow> (string, string) gomap \<Rightarrow> string" where
  "resolveIP i peersByID = (if i = ''*'' then ''0.0.0.0/0'' else lookup_ip peersByID i)"

definition resolveWildcard :: "string \<Rightarrow> string \<Rightarrow> string" where
  "resolveWildcard i fallback = (if i = ''*'' then ''0.0.0.0/0'' else fallback)"

text \<open>The firewall rule of one policy rule, if it concerns the local node.\<close>

definition firewall_rule_of :: "string \<Rightarrow> string \<Rightarrow> (string, string) gomap \<Rightarrow> PolicyRule \<Rightarrow> FirewallRule option" where
  "firewall_rule_of localNodeID iface peersByID r =
     (let localIP = lookup_ip peersByID localNodeID;
          srcMatchesLocal = (pr_Src r = localNodeID \<or> pr_Src r = ''*'');
          dstMatchesLocal = (pr_Dst r = localNodeID \<or> pr_Dst r = ''*'')
      in if \<not> isValidProtocol (pr_Protocol r) then None
         else if \<not> srcMatchesLocal \<and> \<not> dstMatchesLocal then None
         else
           let (srcIP, dstIP) =
             (if srcMatchesLocal \<and> \<not> dstMatchesLocal then (localIP, resolveIP (pr_Dst r) peersByID)
              else if dstMatchesLocal \<and> \<not> srcMatchesLocal then (resolveIP (pr_Src r) peersByID, localIP)
              else (resolveWildcard (pr_Src r) localIP, resolveWildcard (pr_Dst r) localIP))
           in Some \<lparr>fr_Interface = iface, fr_SrcIP = srcIP, fr_DstIP = dstIP, fr_Port = pr_Port r,
                fr_Protocol = pr_Protocol r, fr_Action = pr_Action r\<rparr>)"

definition default_deny :: "string \<Rightarrow> FirewallRule" where
  "default_deny iface = \<lparr>fr_Interface = iface, fr_SrcIP = ''0.0.0.0/0'', fr_DstIP = ''0.0.0.0/0'',
     fr_Port = 0, fr_Protocol = '''', fr_Action = ''deny''\<rparr>"

definition BuildFirewallRules ::
    "Policy list \<Rightarrow> string \<Rightarrow> string \<Rightarrow> (string, string) gomap \<Rightarrow> FirewallRule list" where
  "BuildFirewallRules policies localNodeID iface peersByID =
     fold (\<lambda>pol rules.
         fold (\<lambda>r rules.
             case firewall_rule_of localNodeID iface peersByID r of
               None \<Rightarrow> rules
             | Some fr \<Rightarrow> rules @ [fr]) (pol_Rules pol) rules)
       policies [] @ [default_deny iface]"

section \<open>enforcer.go\<close>

record 'f Enforcer =
  en_firewall :: "'f FirewallController option"
  en_cfg :: PolicyConfig

definition NewEnforcer :: "'f FirewallController option \<Rightarrow> PolicyConfig \<Rightarrow> 'f Enforcer" where
  "NewEnforcer firewall cfg = \<lparr>en_firewall = firewall, en_cfg = PolicyConfig_ApplyDefaults cfg\<rparr>"

definition Enforcer_FilterPeers :: "'f Enforcer \<Rightarrow> Peer list \<Rightarrow> Policy list \<Rightarrow> string \<Rightarrow> Peer list" where
  "Enforcer_FilterPeers e peers policies localNodeID =
     (if \<not> pcf_Enabled (en_cfg e) then peers else FilterPeers peers policies localNodeID)"

text \<open>Two controller calls in sequence, the error of the first ending the sequence.\<close>

definition fw_seq ::
    "string \<Rightarrow> ('f \<Rightarrow> string option outcome \<times> 'f) \<Rightarrow> ('f \<Rightarrow> string option outcome \<times> 'f) \<Rightarrow> 'f \<Rightarrow>
     string option outcome \<times> 'f" where
  "fw_seq what f g s =
     (case f s of
        (Panic v, s) \<Rightarrow> (Panic v, s)
      | (Ret (Some err), s) \<Rightarrow> (Ret (Some (what @ err)), s)
      | (Ret None, s) \<Rightarrow>
          (case g s of
             (Panic v, s) \<Rightarrow> (Panic v, s)
           | (Ret (Some err), s) \<Rightarrow> (Ret (Some (what @ err)), s)
           | (Ret None, s) \<Rightarrow> (Ret None, s)))"

definition ApplyFirewallRules ::
    "'f Enforcer \<Rightarrow> Policy list \<Rightarrow> string \<Rightarrow> string \<Rightarrow> (string, string) gomap \<Rightarrow> 'f \<Rightarrow> string option outcome \<times> 'f" where
  "ApplyFirewallRules e policies localNodeID iface peersByID s =
     (if \<not> pcf_Enabled (en_cfg e) then (Ret None, s)
      else case en_firewall e of
        None \<Rightarrow> (Ret None, s)
      | Some fw \<Rightarrow>
          let rules = BuildFirewallRules policies localNodeID iface peersByID;
              chain = pcf_ChainName (en_cfg e)
          in fw_seq ''policy: enforce: '' (fw_EnsureChain fw chain) (fw_ApplyRules fw chain rules) s)"

definition Enforcer_Teardown :: "'f Enforcer \<Rightarrow> 'f \<Rightarrow> string option outcome \<times> 'f" where
  "Enforcer_Teardown e s =
     (case en_firewall e of
        None \<Rightarrow> (Ret None, s)
      | Some fw \<Rightarrow>
          let chain = pcf_ChainName (en_cfg e)
          in fw_seq ''policy: teardown: '' (fw_FlushChain fw chain) (fw_DeleteChain fw chain) s)"

section \<open>handler.go\<close>

definition hasPolicyOrPeerChanges :: "StateDiff \<Rightarrow> bool" where
  "hasPolicyOrPeerChanges diff \<longleftrightarrow>
     length (PoliciesToAdd diff) > 0 \<or> length (PoliciesToRemove diff) > 0 \<or>
     length (PeersToAdd diff) > 0 \<or> length (PeersToRemove diff) > 0 \<or> length (PeersToUpdate diff) > 0"

text \<open>
  The state behind the handler: the set of peers it last allowed, the WireGuard manager with its
  device, and the packet filter.  The two loops over Go maps visit the keys in the order
  \<open>ord\<close> gives them.
\<close>

record ('d, 'f) policy_state =
  ps_allowed :: "(string, unit) gomap"
  ps_wg :: "WGManager \<times> 'd"
  ps_fw :: 'f

definition peersByID_of :: "string \<Rightarrow> string \<Rightarrow> Peer list \<Rightarrow> (string, string) gomap" where
  "peersByID_of localNodeID localMeshIP peers =
     fold (\<lambda>p. mput (p_ID p) (p_MeshIP p)) peers (mput localNodeID localMeshIP [])"

definition Policy_ReconcileHandler ::
    "'f Enforcer \<Rightarrow> 'd WGController \<Rightarrow> (string list \<Rightarrow> string list) \<Rightarrow> string \<Rightarrow> string \<Rightarrow> string \<Rightarrow>
     StateResponse \<Rightarrow> StateDiff \<Rightarrow> ('d, 'f) policy_state \<Rightarrow> string option outcome \<times> ('d, 'f) policy_state" where
  "Policy_ReconcileHandler e ctrl ord localNodeID localMeshIP iface desired diff s =
     (if \<not> hasPolicyOrPeerChanges diff then (Ret None, s)
      else
        let filtered = Enforcer_FilterPeers e (sr_Peers desired) (sr_Policies desired) localNodeID;
            peersByID = peersByID_of localNodeID localMeshIP (sr_Peers desired)
        in case ApplyFirewallRules e (sr_Policies desired) localNodeID iface peersByID (ps_fw s) of
             (Panic v, f) \<Rightarrow> (Panic v, s\<lparr>ps_fw := f\<rparr>)
           | (Ret ferr, f) \<Rightarrow>
               let errs = (case ferr of None \<Rightarrow> [] | Some err \<Rightarrow> [err]);
                   newAllowed = fold (\<lambda>p. mput (p_ID p) ()) filtered [];
                   filteredByID = fold (\<lambda>p. mput (p_ID p) p) filtered [];
                   gone = filter (\<lambda>i. mget newAllowed i = None) (ord (mkeys (ps_allowed s)));
                   (errs, wg) = collect_errs (WG_RemovePeerByID ctrl) gone (errs, ps_wg s);
                   new = filter (\<lambda>i. mget (ps_allowed s) i = None) (ord (mkeys filteredByID));
                   (errs, wg) = collect_errs (WG_AddPeer ctrl) (map (\<lambda>i. the (mget filteredByID i)) new) (errs, wg)
               in (Ret (errors_Join errs), \<lparr>ps_allowed = newAllowed, ps_wg = wg, ps_fw = f\<rparr>))"

definition HandlePolicyUpdated :: "'w Reconciler \<Rightarrow> string option \<times> 'w Reconciler" where
  "HandlePolicyUpdated r = (None, TriggerReconcile r)"

section \<open>What the engine computes\<close>

lemma filter_loop:
  "fold (\<lambda>p allowed. if p_ID p = i then allowed else if P p then allowed @ [p] else allowed) peers acc =
     acc @ filter (\<lambda>p. p_ID p \<noteq> i \<and> P p) peers"
  by (induction peers arbitrary: acc) auto

lemma FilterPeers_eq:
  "FilterPeers peers policies localNodeID =
     filter (\<lambda>p. p_ID p \<noteq> localNodeID \<and> peerAllowed (p_ID p) localNodeID policies) peers"
  unfolding FilterPeers_def filter_loop by (simp add: peerAllowed_def)

lemma rule_allows_iff:
  "rule_allows peer local r \<longleftrightarrow> pr_Action r = ''allow'' \<and>
     (pr_Src r \<in> {local, ''*''} \<and> pr_Dst r \<in> {peer, ''*''} \<or> pr_Src r \<in> {peer, ''*''} \<and> pr_Dst r \<in> {local, ''*''})"
  by (auto simp: rule_allows_def Let_def)

lemma build_rules_inner:
  "fold (\<lambda>r rules. case f r of None \<Rightarrow> rules | Some fr \<Rightarrow> rules @ [fr]) rs acc = acc @ List.map_filter f rs"
  by (induction rs arbitrary: acc) (auto simp: List.map_filter_simps split: option.splits)

lemma BuildFirewallRules_eq:
  "BuildFirewallRules policies local iface peersByID =
     List.map_filter (firewall_rule_of local iface peersByID) (concat (map pol_Rules policies)) @ [default_deny iface]"
proof -
  have "fold (\<lambda>pol rules. rules @ List.map_filter f (pol_Rules pol)) ps acc =
      acc @ List.map_filter f (concat (map pol_Rules ps))" for f :: "PolicyRule \<Rightarrow> FirewallRule option" and ps :: "Policy list" and acc
    by (induction ps arbitrary: acc) (auto simp: List.map_filter_def)
  then show ?thesis unfolding BuildFirewallRules_def build_rules_inner by simp
qed

lemma firewall_rule_of_action:
  "firewall_rule_of local iface ips r = Some fr \<Longrightarrow>
     fr_Action fr = pr_Action r \<and> fr_Port fr = pr_Port r \<and> fr_Protocol fr = pr_Protocol r \<and>
     fr_Interface fr = iface \<and> (pr_Src r \<in> {local, ''*''} \<or> pr_Dst r \<in> {local, ''*''})"
  by (auto simp: firewall_rule_of_def Let_def split: if_splits)

section \<open>Properties of policy enforcement\<close>

text \<open>C12: A peer passes the policy filter exactly when it is another node and some allow rule of some
  policy names both it and the local node, in either direction, directly or by wildcard; without
  policies no peer passes, and the order of the peers is kept.\<close>

theorem FilterPeers_exact:
  "FilterPeers peers policies local =
     filter (\<lambda>p. p_ID p \<noteq> local \<and>
       (\<exists>pol \<in> set policies. \<exists>r \<in> set (pol_Rules pol). pr_Action r = ''allow'' \<and>
          (pr_Src r \<in> {local, ''*''} \<and> pr_Dst r \<in> {p_ID p, ''*''} \<or>
           pr_Src r \<in> {p_ID p, ''*''} \<and> pr_Dst r \<in> {local, ''*''}))) peers"
  unfolding FilterPeers_eq peerAllowed_def list_ex_iff rule_allows_iff ..

text \<open>A removal that failed is never tried again: once the handler has run, every peer it keeps
  track of is allowed by the policies it saw, so a later run whose policies allow the same peers
  removes nothing, although the peers it failed to remove are still on the device.\<close>

theorem policy_failed_removal_forgotten:
  assumes "\<And>xs. set (ord xs) = set xs"
    and "Policy_ReconcileHandler e ctrl ord local meshIP iface desired diff s = (Ret r, s')"
    and "hasPolicyOrPeerChanges diff" and "hasPolicyOrPeerChanges diff'"
    and "Policy_ReconcileHandler e ctrl ord local meshIP iface desired diff' s' = (Ret r', s'')"
  shows "set (mkeys (ps_allowed s')) = p_ID ` set (Enforcer_FilterPeers e (sr_Peers desired) (sr_Policies desired) local) \<and>
     ps_wg s'' = ps_wg s'"
proof -
  define filtered where "filtered = Enforcer_FilterPeers e (sr_Peers desired) (sr_Policies desired) local"
  define newAllowed where "newAllowed = fold (\<lambda>p. mput (p_ID p) ()) filtered []"
  define byID where "byID = fold (\<lambda>p. mput (p_ID p) p) filtered []"
  have keys: "set (mkeys newAllowed) = p_ID ` set filtered" "set (mkeys byID) = p_ID ` set filtered"
    unfolding gm.set_keys newAllowed_def byID_def gm.has_build by auto
  have s': "ps_allowed s' = newAllowed"
    using assms(2,3) unfolding Policy_ReconcileHandler_def filtered_def[symmetric]
    by (auto simp: Let_def newAllowed_def split: prod.splits outcome.splits)
  have none: "filter (\<lambda>i. mget newAllowed i = None) (ord (mkeys newAllowed)) = []"
    "filter (\<lambda>i. mget newAllowed i = None) (ord (mkeys byID)) = []"
    using gm.set_keys[of newAllowed] keys assms(1) unfolding filter_empty_conv by auto
  have "ps_wg s'' = ps_wg s'"
    using assms(4,5) none unfolding Policy_ReconcileHandler_def filtered_def[symmetric] s' newAllowed_def byID_def
    by (auto simp: Let_def split: prod.splits outcome.splits)
  then show ?thesis using s' keys by (simp add: filtered_def)
qed

text \<open>A device that refuses every removal.\<close>

definition ex_stuck_ctrl :: "string list WGController" where
  "ex_stuck_ctrl = ex_ctrl\<lparr>wg_RemovePeer := \<lambda>_ _ d. (Some ''busy'', d)\<rparr>"

definition ex_enforcer :: "unit Enforcer" where
  "ex_enforcer = NewEnforcer None \<lparr>pcf_Enabled = True, pcf_ChainName = ''''\<rparr>"

definition ex_policy_diff :: StateDiff where
  "ex_policy_diff = emptyStateDiff\<lparr>PoliciesToRemove := [''p'']\<rparr>"

definition ex_policy_state :: "(string list, unit) policy_state" where
  "ex_policy_state = \<lparr>ps_allowed = [(''a'', ())], ps_wg = (ex_manager [(''a'', ''QUJD'')], [''ABC'']), ps_fw = ()\<rparr>"

theorem policy_failed_removal_forgotten_witness:
  "\<exists>r s' r' s''.
     Policy_ReconcileHandler ex_enforcer ex_stuck_ctrl id ''n'' ''10.0.0.1'' ''plexd0'' (ex_state []) ex_policy_diff ex_policy_state = (Ret r, s') \<and>
     Policy_ReconcileHandler ex_enforcer ex_stuck_ctrl id ''n'' ''10.0.0.1'' ''plexd0'' (ex_state []) ex_policy_diff s' = (Ret r', s'') \<and>
     r \<noteq> None \<and> r' = None \<and> snd (ps_wg s'') = [''ABC''] \<and> set (mkeys (ps_allowed s')) = {}"
proof -
  note defs = Policy_ReconcileHandler_def ex_enforcer_def NewEnforcer_def PolicyConfig_ApplyDefaults_def
    Enforcer_FilterPeers_def FilterPeers_def ApplyFirewallRules_def ex_state_def emptyStateResponse_def
    ex_policy_diff_def emptyStateDiff_def hasPolicyOrPeerChanges_def ex_stuck_ctrl_def ex_ctrl_def ex_manager_def
    WG_RemovePeerByID_def PeerIndex_Lookup_def ex_keys errors_Join_def NewWGManager_def
  obtain r s' where run1: "Policy_ReconcileHandler ex_enforcer ex_stuck_ctrl id ''n'' ''10.0.0.1'' ''plexd0''
      (ex_state []) ex_policy_diff ex_policy_state = (Ret r, s')" "r \<noteq> None" "snd (ps_wg s') = [''ABC'']" "ps_allowed s' = []"
    by (simp add: defs ex_policy_state_def)
  obtain r' s'' where run2: "Policy_ReconcileHandler ex_enforcer ex_stuck_ctrl id ''n'' ''10.0.0.1'' ''plexd0''
      (ex_state []) ex_policy_diff s' = (Ret r', s'')" "r' = None"
    using run1(4) by (simp add: defs)
  have ch: "hasPolicyOrPeerChanges ex_policy_diff" by (simp add: hasPolicyOrPeerChanges_def ex_policy_diff_def)
  show ?thesis
    using run1 run2 policy_failed_removal_forgotten[OF _ run1(1) ch ch run2(1)] by auto
qed

text \<open>Enforcement cannot be switched off in a configuration without a chain name: the defaults that the
  constructor applies turn it on again.\<close>

theorem NewEnforcer_ignores_disabled:
  "pcf_Enabled (en_cfg (NewEnforcer fw \<lparr>pcf_Enabled = False, pcf_ChainName = ''''\<rparr>)) \<and>
   Enforcer_FilterPeers (NewEnforcer fw \<lparr>pcf_Enabled = False, pcf_ChainName = ''''\<rparr>) peers [] local = []"
  by (simp add: NewEnforcer_def PolicyConfig_ApplyDefaults_def Enforcer_FilterPeers_def FilterPeers_def)

end
