(* ===== verification/GoNet.thy ===== *)
theory GoNet
  imports GoLib "HOL-Library.Word"
begin

unbundle bit_operations_syntax

text \<open>
  The parts of the Go package \<open>net\<close> that the agent uses on IPv4 text: addresses, CIDR prefixes
  and masks as lists of four bytes.  The syntax of IPv6 addresses is the parameter \<open>ip6\<close>, which
  tells for a text with a colon whether it is an address, and if so whether it maps an IPv4 one.
\<close>

type_synonym byte_list = "8 word list"

datatype ip = V4 byte_list | V6

text \<open>One decimal octet: one to three digits, no leading zero, at most 255.\<close>

definition parse_octet :: "string \<Rightarrow> 8 word option" where
  "parse_octet s =
     (if length s > 1 \<and> hd s = CHR ''0'' then None
      else case parse_uint s of
        None \<Rightarrow> None
      | Some n \<Rightarrow> if n \<le> 255 then Some (of_nat n) else None)"

definition parse_ipv4 :: "string \<Rightarrow> byte_list option" where
  "parse_ipv4 s =
     (case Split s (CHR ''.'') of
        [a, b, c, d] \<Rightarrow>
          (case (parse_octet a, parse_octet b, parse_octet c, parse_octet d) of
             (Some w, Some x, Some y, Some z) \<Rightarrow> Some [w, x, y, z]
           | _ \<Rightarrow> None)
      | _ \<Rightarrow> None)"

definition ParseIP :: "(string \<Rightarrow> ip option) \<Rightarrow> string \<Rightarrow> ip option" where
  "ParseIP ip6 s =
     (if CHR '':'' \<in> set s then ip6 s else map_option V4 (parse_ipv4 s))"

fun To4 :: "ip \<Rightarrow> byte_list option" where
  "To4 (V4 b) = Some b"
| "To4 V6 = None"

text \<open>\<open>CIDRMask(ones, 32)\<close>, byte by byte.\<close>

definition mask_byte :: "nat \<Rightarrow> 8 word" where
  "mask_byte n = (if n \<ge> 8 then 255 else 256 - 2 ^ (8 - n))"

definition CIDRMask :: "nat \<Rightarrow> byte_list" where
  "CIDRMask ones = map (\<lambda>i. mask_byte (ones - 8 * i)) [0..<4]"

definition apply_mask :: "byte_list \<Rightarrow> byte_list \<Rightarrow> byte_list" where
  "apply_mask m b = map2 (AND) b m"

text \<open>The address, the length of the prefix and the width of the address in bits.\<close>

definition ParseCIDR :: "(string \<Rightarrow> ip option) \<Rightarrow> string \<Rightarrow> (ip \<times> nat \<times> nat) option" where
  "ParseCIDR ip6 s =
     (case Cut s (CHR ''/'') of
        (a, m, True) \<Rightarrow>
          (case (ParseIP ip6 a, parse_uint m) of
             (Some x, Some n) \<Rightarrow>
               (let bits = (if CHR '':'' \<in> set a then 128 else 32)
                in if n \<le> bits then Some (x, n, bits) else None)
           | _ \<Rightarrow> None)
      | (_, _, False) \<Rightarrow> None)"

lemma parse_ipv4_length: "parse_ipv4 s = Some b \<Longrightarrow> length b = 4"
  by (auto simp: parse_ipv4_def split: list.splits option.splits)

lemma CIDRMask_length [simp]: "length (CIDRMask n) = 4"
  by (simp add: CIDRMask_def)

lemma apply_mask_length [simp]: "length (apply_mask m b) = min (length b) (length m)"
  by (simp add: apply_mask_def)

lemma length4: "length b = 4 \<longleftrightarrow> (\<exists>w x y z. b = [w, x, y, z])"
  by (auto simp: length_Suc_conv eval_nat_numeral)

lemma and_255: "v AND 255 = v" for v :: "8 word"
proof -
  have "(255 :: 8 word) = - 1" by simp
  then show ?thesis by (simp only: and.right_neutral)
qed

lemma apply_mask_32: "length b = 4 \<Longrightarrow> apply_mask (CIDRMask 32) b = b"
  by (auto simp: length4 apply_mask_def CIDRMask_def mask_byte_def upt_rec and_255)

end
