(* ===== verification/Nftables.thy ===== *)
theory Nftables
  imports Policy GoNet
begin

text \<open>
  The packet filter backend of \<open>internal/policy/nftables_linux.go\<close>: the translation of a
  firewall rule into nftables expressions and the four operations of the controller.

  The nftables library queues commands on a connection and sends them to the kernel as one batch;
  opening a connection, listing chains and sending a batch are parameters.  The meaning of the
  expressions on a packet is that of the nftables virtual machine with one register: a load sets
  the register, a failed comparison ends the rule without a verdict.
\<close>

section \<open>Expressions\<close>

datatype payload_base = NetworkHeader | TransportHeader
datatype verdict = Accept | Drop

datatype nft_expr =
    MetaIIFNAME
  | MetaL4PROTO
  | Payload payload_base nat nat
  | Bitwise byte_list
  | Cmp byte_list
  | Counter
  | Verdict verdict

definition bytes_of :: "string \<Rightarrow> byte_list" where
  "bytes_of s = map (\<lambda>c. of_nat (of_char c)) s"

definition ifaceNameBytes :: "string \<Rightarrow> byte_list outcome" where
  "ifaceNameBytes name =
     (let buf = take 16 (bytes_of name) @ replicate (16 - length name) 0
      in if length name + 1 > length buf then Panic ''slice bounds out of range''
         else Ret (take (length name + 1) buf))"

definition portBytes :: "int \<Rightarrow> byte_list" where
  "portBytes port = [of_int (port mod 65536 div 256), of_int (port mod 65536 mod 256)]"

definition protocolNumber :: "string \<Rightarrow> string + 8 word" where
  "protocolNumber proto =
     (if proto = ''tcp'' then Inr 6 else if proto = ''udp'' then Inr 17
      else Inl (''unsupported protocol '' @ proto))"

text \<open>The address and prefix length that an address field denotes, or why it denotes none.\<close>

definition parse_prefix :: "(string \<Rightarrow> ip option) \<Rightarrow> string \<Rightarrow> string + byte_list \<times> nat" where
  "parse_prefix ip6 addr =
     (case ParseCIDR ip6 addr of
        None \<Rightarrow>
          (case ParseIP ip6 addr of
             None \<Rightarrow> Inl (''invalid IP address '' @ addr)
           | Some parsed \<Rightarrow>
               (case To4 parsed of
                  None \<Rightarrow> Inl (''non-IPv4 address '' @ addr)
                | Some b \<Rightarrow> Inr (b, 32)))
      | Some (x, ones, bits) \<Rightarrow>
          if bits \<noteq> 32 then Inl (''non-IPv4 CIDR '' @ addr)
          else case To4 x of None \<Rightarrow> Inl (''non-IPv4 CIDR '' @ addr) | Some b \<Rightarrow> Inr (b, ones))"

definition buildIPMatchExprs :: "(string \<Rightarrow> ip option) \<Rightarrow> string \<Rightarrow> nat \<Rightarrow> string + nft_expr list" where
  "buildIPMatchExprs ip6 addr off =
     (case parse_prefix ip6 addr of
        Inl err \<Rightarrow> Inl err
      | Inr (b, ones) \<Rightarrow>
          if ones = 32 then Inr [Payload NetworkHeader off 4, Cmp b]
          else Inr [Payload NetworkHeader off 4, Bitwise (CIDRMask ones), Cmp (apply_mask (CIDRMask ones) b)])"

definition ip_exprs :: "(string \<Rightarrow> ip option) \<Rightarrow> string \<Rightarrow> string \<Rightarrow> nat \<Rightarrow> string + nft_expr list" where
  "ip_exprs ip6 what addr off =
     (if addr \<noteq> '''' \<and> addr \<noteq> ''0.0.0.0/0'' then
        (case buildIPMatchExprs ip6 addr off of Inl err \<Rightarrow> Inl (what @ addr @ '': '' @ err) | Inr es \<Rightarrow> Inr es)
      else Inr [])"

definition proto_exprs :: "string \<Rightarrow> string + nft_expr list" where
  "proto_exprs p =
     (if p \<noteq> '''' then (case protocolNumber p of Inl err \<Rightarrow> Inl err | Inr n \<Rightarrow> Inr [MetaL4PROTO, Cmp [n]])
      else Inr [])"

definition port_exprs :: "int \<Rightarrow> nft_expr list" where
  "port_exprs port = (if port > 0 then [Payload TransportHeader 2 2, Cmp (portBytes port)] else [])"

definition verdict_of :: "string \<Rightarrow> string + verdict" where
  "verdict_of action =
     (if action = ''allow'' then Inr Accept else if action = ''deny'' then Inr Drop
      else Inl (''unsupported action '' @ action))"

definition buildRuleExprs :: "(string \<Rightarrow> ip option) \<Rightarrow> FirewallRule \<Rightarrow> (string + nft_expr list) outcome" where
  "buildRuleExprs ip6 rule =
     (case (if fr_Interface rule \<noteq> '''' then ifaceNameBytes (fr_Interface rule) else Ret []) of
        Panic v \<Rightarrow> Panic v
      | Ret ifaceData \<Rightarrow>
          let iface = (if fr_Interface rule \<noteq> '''' then [MetaIIFNAME, Cmp ifaceData] else [])
          in Ret (case ip_exprs ip6 ''source IP '' (fr_SrcIP rule) 12 of
               Inl err \<Rightarrow> Inl err
             | Inr src \<Rightarrow>
                 (case ip_exprs ip6 ''destination IP '' (fr_DstIP rule) 16 of
                    Inl err \<Rightarrow> Inl err
                  | Inr dst \<Rightarrow>
                      (case proto_exprs (fr_Protocol rule) of
                         Inl err \<Rightarrow> Inl err
                       | Inr proto \<Rightarrow>
                           (case verdict_of (fr_Action rule) of
                              Inl err \<Rightarrow> Inl err
                            | Inr v \<Rightarrow>
                                Inr (iface @ src @ dst @ proto @ port_exprs (fr_Port rule) @ [Counter, Verdict v]))))))"

section \<open>The controller\<close>

datatype nft_cmd = AddTable | AddChain string | FlushRules string | AddRule string "nft_expr list" | DelChain string

record 'k nft_kernel =
  nft_New :: "'k \<Rightarrow> string option"
  nft_Flush :: "nft_cmd list \<Rightarrow> 'k \<Rightarrow> string option \<times> 'k"
  nft_ListChains :: "'k \<Rightarrow> string + (string \<times> string) list"

abbreviation tableName :: string where "tableName \<equiv> ''plexd''"

definition nft_send :: "'k nft_kernel \<Rightarrow> string \<Rightarrow> nft_cmd list \<Rightarrow> 'k \<Rightarrow> string option outcome \<times> 'k" where
  "nft_send n what batch k =
     (case nft_Flush n batch k of
        (Some err, k) \<Rightarrow> (Ret (Some (what @ err)), k)
      | (None, k) \<Rightarrow> (Ret None, k))"

definition nft_EnsureChain :: "'k nft_kernel \<Rightarrow> string \<Rightarrow> 'k \<Rightarrow> string option outcome \<times> 'k" where
  "nft_EnsureChain n chain k =
     (case nft_New n k of
        Some err \<Rightarrow> (Ret (Some (''policy: nftables: ensure chain: '' @ err)), k)
      | None \<Rightarrow> nft_send n (''policy: nftables: ensure chain '' @ chain @ '': '') [AddTable, AddChain chain] k)"

fun build_all :: "(string \<Rightarrow> ip option) \<Rightarrow> FirewallRule list \<Rightarrow> (string + nft_expr list list) outcome" where
  "build_all ip6 [] = Ret (Inr [])"
| "build_all ip6 (rule # rules) =
     (case buildRuleExprs ip6 rule of
        Panic v \<Rightarrow> Panic v
      | Ret (Inl err) \<Rightarrow> Ret (Inl err)
      | Ret (Inr exprs) \<Rightarrow>
          (case build_all ip6 rules of
             Panic v \<Rightarrow> Panic v
           | Ret (Inl err) \<Rightarrow> Ret (Inl err)
           | Ret (Inr ess) \<Rightarrow> Ret (Inr (exprs # ess))))"

definition nft_ApplyRules ::
    "'k nft_kernel \<Rightarrow> (string \<Rightarrow> ip option) \<Rightarrow> string \<Rightarrow> FirewallRule list \<Rightarrow> 'k \<Rightarrow> string option outcome \<times> 'k" where
  "nft_ApplyRules n ip6 chain rules k =
     (case nft_New n k of
        Some err \<Rightarrow> (Ret (Some (''policy: nftables: apply rules: '' @ err)), k)
      | None \<Rightarrow>
          (case build_all ip6 rules of
             Panic v \<Rightarrow> (Panic v, k)
           | Ret (Inl err) \<Rightarrow> (Ret (Some (''policy: nftables: apply rules: build expressions: '' @ err)), k)
           | Ret (Inr ess) \<Rightarrow>
               nft_send n (''policy: nftables: apply rules to chain '' @ chain @ '': '')
                 ([AddTable, AddChain chain, FlushRules chain] @ map (AddRule chain) ess) k))"

definition nft_FlushChain :: "'k nft_kernel \<Rightarrow> string \<Rightarrow> 'k \<Rightarrow> string option outcome \<times> 'k" where
  "nft_FlushChain n chain k =
     (case nft_New n k of
        Some err \<Rightarrow> (Ret (Some (''policy: nftables: flush chain: '' @ err)), k)
      | None \<Rightarrow> nft_send n (''policy: nftables: flush chain '' @ chain @ '': '') [AddTable, FlushRules chain] k)"

definition nft_DeleteChain :: "'k nft_kernel \<Rightarrow> string \<Rightarrow> 'k \<Rightarrow> string option outcome \<times> 'k" where
  "nft_DeleteChain n chain k =
     (case nft_New n k of
        Some err \<Rightarrow> (Ret (Some (''policy: nftables: delete chain: '' @ err)), k)
      | None \<Rightarrow>
          (case nft_ListChains n k of
             Inl err \<Rightarrow> (Ret (Some (''policy: nftables: delete chain: list chains: '' @ err)), k)
           | Inr chs \<Rightarrow>
               if list_ex (\<lambda>(t, c). t = tableName \<and> c = chain) chs
               then nft_send n (''policy: nftables: delete chain '' @ chain @ '': '') [DelChain chain] k
               else (Ret None, k)))"

definition NewNftablesController :: "'k nft_kernel \<Rightarrow> (string \<Rightarrow> ip option) \<Rightarrow> 'k FirewallController" where
  "NewNftablesController n ip6 = \<lparr>fw_EnsureChain = nft_EnsureChain n, fw_ApplyRules = nft_ApplyRules n ip6,
     fw_FlushChain = nft_FlushChain n, fw_DeleteChain = nft_DeleteChain n\<rparr>"

section \<open>The meaning of the expressions\<close>

record packet =
  pk_iif :: string
  pk_nh :: byte_list
  pk_th :: byte_list
  pk_proto :: "8 word"

fun nft_eval :: "nft_expr list \<Rightarrow> packet \<Rightarrow> byte_list \<Rightarrow> verdict option" where
  "nft_eval [] p reg = None"
| "nft_eval (MetaIIFNAME # es) p reg =
     nft_eval es p (take 16 (bytes_of (pk_iif p) @ replicate 16 0))"
| "nft_eval (MetaL4PROTO # es) p reg = nft_eval es p [pk_proto p]"
| "nft_eval (Payload b off n # es) p reg =
     (let h = (case b of NetworkHeader \<Rightarrow> pk_nh p | TransportHeader \<Rightarrow> pk_th p)
      in if off + n \<le> length h then nft_eval es p (take n (drop off h)) else None)"
| "nft_eval (Bitwise m # es) p reg = nft_eval es p (apply_mask m reg)"
| "nft_eval (Cmp d # es) p reg = (if take (length d) reg = d then nft_eval es p reg else None)"
| "nft_eval (Counter # es) p reg = nft_eval es p reg"
| "nft_eval (Verdict v # es) p reg = Some v"

text \<open>What the fields of a rule mean on a packet.\<close>

definition addr_matches :: "(string \<Rightarrow> ip option) \<Rightarrow> string \<Rightarrow> byte_list \<Rightarrow> bool" where
  "addr_matches ip6 addr b \<longleftrightarrow> addr = '''' \<or> addr = ''0.0.0.0/0'' \<or>
     (case parse_prefix ip6 addr of
        Inl _ \<Rightarrow> False
      | Inr (a, n) \<Rightarrow> apply_mask (CIDRMask n) b = apply_mask (CIDRMask n) a)"

definition rule_matches :: "(string \<Rightarrow> ip option) \<Rightarrow> FirewallRule \<Rightarrow> packet \<Rightarrow> bool" where
  "rule_matches ip6 r p \<longleftrightarrow>
     (fr_Interface r = '''' \<or> pk_iif p = fr_Interface r) \<and>
     addr_matches ip6 (fr_SrcIP r) (take 4 (drop 12 (pk_nh p))) \<and>
     addr_matches ip6 (fr_DstIP r) (take 4 (drop 16 (pk_nh p))) \<and>
     (fr_Protocol r = '''' \<or> protocolNumber (fr_Protocol r) = Inr (pk_proto p)) \<and>
     (fr_Port r \<le> 0 \<or> length (pk_th p) \<ge> 4 \<and> take 2 (drop 2 (pk_th p)) = portBytes (fr_Port r))"

definition packet_ok :: "packet \<Rightarrow> bool" where
  "packet_ok p \<longleftrightarrow> length (pk_nh p) \<ge> 20 \<and> length (pk_iif p) < 16 \<and> CHR 0x00 \<notin> set (pk_iif p)"

text \<open>
  The rules of each chain in the kernel, and what a batch does to them: a command on a chain that
  does not exist fails.  A batch is applied as a whole or not at all.
\<close>

type_synonym chains = "string \<Rightarrow> nft_expr list list option"

fun nft_run :: "nft_cmd list \<Rightarrow> chains \<Rightarrow> chains option" where
  "nft_run [] t = Some t"
| "nft_run (AddTable # cs) t = nft_run cs t"
| "nft_run (AddChain c # cs) t = nft_run cs (case t c of None \<Rightarrow> t(c \<mapsto> []) | Some _ \<Rightarrow> t)"
| "nft_run (FlushRules c # cs) t = (case t c of None \<Rightarrow> None | Some _ \<Rightarrow> nft_run cs (t(c \<mapsto> [])))"
| "nft_run (AddRule c es # cs) t = (case t c of None \<Rightarrow> None | Some rs \<Rightarrow> nft_run cs (t(c \<mapsto> rs @ [es])))"
| "nft_run (DelChain c # cs) t = (case t c of None \<Rightarrow> None | Some _ \<Rightarrow> nft_run cs (t(c := None)))"

definition nft_laws :: "'k nft_kernel \<Rightarrow> ('k \<Rightarrow> chains) \<Rightarrow> bool" where
  "nft_laws n ch \<longleftrightarrow> (\<forall>b k. case nft_Flush n b k of
     (None, k') \<Rightarrow> nft_run b (ch k) = Some (ch k') | (Some _, k') \<Rightarrow> ch k' = ch k)"

text \<open>\<open>net.ParseIP\<close> gives an address in four-byte form as four bytes.\<close>

definition ip6_laws :: "(string \<Rightarrow> ip option) \<Rightarrow> bool" where
  "ip6_laws ip6 \<longleftrightarrow> (\<forall>s b. ip6 s = Some (V4 b) \<longrightarrow> length b = 4)"

text \<open>The verdict of a chain: that of its first rule that reaches one.\<close>

fun chain_eval :: "nft_expr list list \<Rightarrow> packet \<Rightarrow> verdict option" where
  "chain_eval [] p = None"
| "chain_eval (es # ess) p = (case nft_eval es p [] of None \<Rightarrow> chain_eval ess p | Some v \<Rightarrow> Some v)"

section \<open>Each group of expressions decides its field\<close>

definition decides :: "nft_expr list \<Rightarrow> packet \<Rightarrow> bool \<Rightarrow> bool" where
  "decides es p c \<longleftrightarrow> (\<forall>reg. \<exists>reg'. \<forall>rest. nft_eval (es @ rest) p reg = (if c then nft_eval rest p reg' else None))"

lemma decidesI: "(\<And>rest reg. nft_eval (es @ rest) p reg = (if c then nft_eval rest p (f reg) else None)) \<Longrightarrow> decides es p c"
  unfolding decides_def by blast

lemma decides_Nil: "decides [] p True"
  by (rule decidesI [where f = id]) simp

lemma decides_append:
  assumes "decides es p c" and "decides fs p d"
  shows "decides (es @ fs) p (c \<and> d)"
  unfolding decides_def
proof
  fix reg
  obtain r1 where 1: "nft_eval (es @ rest) p reg = (if c then nft_eval rest p r1 else None)" for rest
    using assms(1) unfolding decides_def by blast
  obtain r2 where "nft_eval (fs @ rest) p r1 = (if d then nft_eval rest p r2 else None)" for rest
    using assms(2) unfolding decides_def by blast
  with 1 show "\<exists>reg'. \<forall>rest. nft_eval ((es @ fs) @ rest) p reg = (if c \<and> d then nft_eval rest p reg' else None)"
    by (intro exI [of _ r2]) simp
qed

lemma parse_prefix_length:
  "ip6_laws ip6 \<Longrightarrow> parse_prefix ip6 s = Inr (b, n) \<Longrightarrow> length b = 4"
proof -
  assume law: "ip6_laws ip6" and p: "parse_prefix ip6 s = Inr (b, n)"
  have V4: "ParseIP ip6 a = Some (V4 c) \<Longrightarrow> length c = 4" for a c
    using law by (auto simp: ParseIP_def ip6_laws_def parse_ipv4_length split: if_splits)
  have To4: "To4 x = Some c \<Longrightarrow> x = V4 c" for x c by (cases x) auto
  have "\<exists>a. ParseIP ip6 a = Some (V4 b)"
    using p by (auto simp: parse_prefix_def ParseCIDR_def Let_def dest!: To4
        split: option.splits if_splits bool.splits prod.splits)
  then show "length b = 4" using V4 by blast
qed

lemma decides_ip:
  assumes "ip6_laws ip6" and "ip_exprs ip6 what addr off = Inr es" and "off + 4 \<le> length (pk_nh p)"
  shows "decides es p (addr_matches ip6 addr (take 4 (drop off (pk_nh p))))"
proof (cases "addr = '''' \<or> addr = ''0.0.0.0/0''")
  case True
  then show ?thesis using assms(2) decides_Nil by (auto simp: ip_exprs_def addr_matches_def)
next
  case False
  let ?b = "take 4 (drop off (pk_nh p))"
  obtain a n where a: "parse_prefix ip6 addr = Inr (a, n)"
    and es: "es = (if n = 32 then [Payload NetworkHeader off 4, Cmp a]
                   else [Payload NetworkHeader off 4, Bitwise (CIDRMask n), Cmp (apply_mask (CIDRMask n) a)])"
    using False assms(2) by (auto simp: ip_exprs_def buildIPMatchExprs_def split: sum.splits if_splits)
  have len: "length a = 4" "length ?b = 4" using parse_prefix_length [OF assms(1) a] assms(3) by auto
  have m: "addr_matches ip6 addr ?b \<longleftrightarrow> apply_mask (CIDRMask n) ?b = apply_mask (CIDRMask n) a"
    using False a by (simp add: addr_matches_def)
  show ?thesis
    unfolding m es using len assms(3)
    by (intro decidesI [where f = "\<lambda>_. if n = 32 then ?b else apply_mask (CIDRMask n) ?b"])
       (auto simp: Let_def apply_mask_32)
qed

lemma of_char_byte_inj: "(of_nat (of_char c) :: 8 word) = of_nat (of_char d) \<Longrightarrow> c = d"
proof -
  assume "(of_nat (of_char c) :: 8 word) = of_nat (of_char d)"
  then have "unat (of_nat (of_char c) :: 8 word) = unat (of_nat (of_char d) :: 8 word)" by simp
  moreover have "(of_char x :: nat) mod 256 = of_char x" for x by (simp add: of_char_mod_256)
  ultimately have "(of_char c :: nat) = of_char d" by (simp add: unat_of_nat)
  then show "c = d" by simp
qed

lemma bytes_of_eq: "bytes_of s = bytes_of t \<longleftrightarrow> s = t"
  unfolding bytes_of_def by (rule inj_map_eq_map) (auto intro!: injI of_char_byte_inj)

lemma bytes_of_length [simp]: "length (bytes_of s) = length s"
  by (simp add: bytes_of_def)

lemma bytes_of_zero: "0 \<in> set (bytes_of s) \<longleftrightarrow> CHR 0x00 \<in> set s"
proof -
  have z: "(0 :: 8 word) = of_nat (of_char (CHR 0x00))" by simp
  show ?thesis unfolding bytes_of_def z set_map image_iff by (metis of_char_byte_inj)
qed

lemma ifaceNameBytes_eq:
  "ifaceNameBytes s = (if length s < 16 then Ret (bytes_of s @ [0]) else Panic ''slice bounds out of range'')"
proof (cases "length s < 16")
  case True
  then obtain k where "16 - length s = Suc k" by (metis Suc_diff_Suc)
  with True show ?thesis by (simp add: ifaceNameBytes_def Let_def take_append)
qed (simp add: ifaceNameBytes_def Let_def)

lemma padded_prefix_iff:
  fixes a b :: "'a :: zero list"
  assumes a: "0 \<notin> set a" "length a < N" and b: "0 \<notin> set b" "length b < N"
  shows "take (Suc (length b)) (take N (a @ replicate N 0)) = b @ [0] \<longleftrightarrow> a = b"
proof -
  let ?r = "a @ replicate (N - length a) 0"
  have r: "take N (a @ replicate N 0) = ?r" using a(2) by (simp add: take_append)
  show ?thesis unfolding r
  proof
    assume e: "take (Suc (length b)) ?r = b @ [0]"
    have nth: "?r ! i = (b @ [0]) ! i" if "i \<le> length b" for i
      using that by (metis e le_imp_less_Suc nth_take)
    have "\<not> length b < length a"
      using nth [of "length b"] a(1) by (auto simp: nth_append) (metis nth_mem)
    moreover have "\<not> length a < length b"
      using nth [of "length a"] a(2) b(1) by (auto simp: nth_append) (metis nth_mem)
    ultimately have "length a = length b" by simp
    then show "a = b" using e a(2) by (simp add: take_append)
  next
    assume "a = b"
    moreover obtain k where "N - length b = Suc k" using b(2) by (metis Suc_diff_Suc)
    ultimately show "take (Suc (length b)) ?r = b @ [0]" by (simp add: take_append)
  qed
qed

lemma decides_iface:
  assumes "packet_ok p" and "CHR 0x00 \<notin> set s" and "ifaceNameBytes s = Ret d"
  shows "decides [MetaIIFNAME, Cmp d] p (pk_iif p = s)"
proof -
  let ?r = "take 16 (bytes_of (pk_iif p) @ replicate 16 0)"
  have s: "length s < 16" "d = bytes_of s @ [0]"
    using assms(3) by (auto simp: ifaceNameBytes_eq split: if_splits)
  have "take (length d) ?r = d \<longleftrightarrow> bytes_of (pk_iif p) = bytes_of s"
    using padded_prefix_iff [of "bytes_of (pk_iif p)" 16 "bytes_of s"] assms(1,2) s
    by (simp add: bytes_of_zero packet_ok_def)
  then show ?thesis
    by (intro decidesI [where f = "\<lambda>_. ?r"]) (simp add: bytes_of_eq)
qed

lemma decides_proto:
  assumes "proto_exprs s = Inr es"
  shows "decides es p (s = '''' \<or> protocolNumber s = Inr (pk_proto p))"
proof (cases "s = ''''")
  case True
  then show ?thesis using assms decides_Nil by (simp add: proto_exprs_def)
next
  case False
  then obtain n where "protocolNumber s = Inr n" "es = [MetaL4PROTO, Cmp [n]]"
    using assms by (auto simp: proto_exprs_def split: sum.splits)
  with False show ?thesis by (intro decidesI [where f = "\<lambda>_. [pk_proto p]"]) simp
qed

lemma portBytes_length: "length (portBytes port) = 2"
  by (simp add: portBytes_def)

lemma decides_port:
  "decides (port_exprs port) p
     (port \<le> 0 \<or> length (pk_th p) \<ge> 4 \<and> take 2 (drop 2 (pk_th p)) = portBytes port)"
proof (cases "port > 0")
  case True
  then show ?thesis
    by (intro decidesI [where f = "\<lambda>_. take 2 (drop 2 (pk_th p))"]) (auto simp: port_exprs_def portBytes_length Let_def)
next
  case False
  then show ?thesis using decides_Nil by (simp add: port_exprs_def)
qed

lemma buildRuleExprs_Inr:
  assumes "buildRuleExprs ip6 r = Ret (Inr es)"
  obtains iface src dst proto v where
    "es = iface @ src @ dst @ proto @ port_exprs (fr_Port r) @ [Counter, Verdict v]"
    and "fr_Interface r = '''' \<and> iface = [] \<or>
         fr_Interface r \<noteq> '''' \<and> (\<exists>d. ifaceNameBytes (fr_Interface r) = Ret d \<and> iface = [MetaIIFNAME, Cmp d])"
    and "ip_exprs ip6 ''source IP '' (fr_SrcIP r) 12 = Inr src"
    and "ip_exprs ip6 ''destination IP '' (fr_DstIP r) 16 = Inr dst"
    and "proto_exprs (fr_Protocol r) = Inr proto" and "verdict_of (fr_Action r) = Inr v"
  using assms
  by (auto simp: buildRuleExprs_def Let_def split: outcome.splits sum.splits if_splits)

lemma rule_decided:
  assumes b: "buildRuleExprs ip6 r = Ret (Inr es)" and law: "ip6_laws ip6"
    and p: "packet_ok p" and z: "CHR 0x00 \<notin> set (fr_Interface r)"
  shows "\<exists>v. verdict_of (fr_Action r) = Inr v \<and>
    nft_eval es p [] = (if rule_matches ip6 r p then Some v else None)"
proof -
  obtain iface src dst proto v where
    es: "es = iface @ src @ dst @ proto @ port_exprs (fr_Port r) @ [Counter, Verdict v]"
    and iface: "fr_Interface r = '''' \<and> iface = [] \<or>
         fr_Interface r \<noteq> '''' \<and> (\<exists>d. ifaceNameBytes (fr_Interface r) = Ret d \<and> iface = [MetaIIFNAME, Cmp d])"
    and src: "ip_exprs ip6 ''source IP '' (fr_SrcIP r) 12 = Inr src"
    and dst: "ip_exprs ip6 ''destination IP '' (fr_DstIP r) 16 = Inr dst"
    and proto: "proto_exprs (fr_Protocol r) = Inr proto" and v: "verdict_of (fr_Action r) = Inr v"
    using b by (rule buildRuleExprs_Inr)
  have len: "20 \<le> length (pk_nh p)" using p by (simp add: packet_ok_def)
  have "decides iface p (fr_Interface r = '''' \<or> pk_iif p = fr_Interface r)"
    using iface decides_Nil decides_iface [OF p z] by auto
  then have "decides (iface @ src @ dst @ proto @ port_exprs (fr_Port r)) p (rule_matches ip6 r p)"
    unfolding rule_matches_def
    using len by (intro decides_append decides_ip [OF law src] decides_ip [OF law dst]
        decides_proto [OF proto] decides_port) simp_all
  then obtain reg' where
    "nft_eval ((iface @ src @ dst @ proto @ port_exprs (fr_Port r)) @ rest) p [] =
       (if rule_matches ip6 r p then nft_eval rest p reg' else None)" for rest
    unfolding decides_def by blast
  from this [of "[Counter, Verdict v]"] v es show ?thesis by simp
qed

lemma chain_decided:
  assumes "build_all ip6 rs = Ret (Inr ess)" and "ip6_laws ip6" and "packet_ok p"
    and "\<forall>r \<in> set rs. CHR 0x00 \<notin> set (fr_Interface r)"
  shows "chain_eval ess p = (case find (\<lambda>r. rule_matches ip6 r p) rs of
      None \<Rightarrow> None | Some r \<Rightarrow> Some (if fr_Action r = ''allow'' then Accept else Drop))"
  using assms
proof (induction rs arbitrary: ess)
  case (Cons r rs)
  obtain es ess' where 1: "buildRuleExprs ip6 r = Ret (Inr es)" "build_all ip6 rs = Ret (Inr ess')" "ess = es # ess'"
    using Cons.prems(1) by (auto split: outcome.splits sum.splits)
  obtain v where "verdict_of (fr_Action r) = Inr v" "nft_eval es p [] = (if rule_matches ip6 r p then Some v else None)"
    using rule_decided [OF 1(1) assms(2,3)] Cons.prems(4) by auto
  moreover from this(1) have "v = (if fr_Action r = ''allow'' then Accept else Drop)"
    by (auto simp: verdict_of_def split: if_splits)
  ultimately show ?case using Cons.IH [OF 1(2) assms(2,3)] Cons.prems(4) 1(3) by auto
qed simp

section \<open>The controller on the kernel's chains\<close>

lemma nft_laws_Flush:
  "nft_laws n ch \<Longrightarrow> nft_Flush n b k = (None, k') \<Longrightarrow> nft_run b (ch k) = Some (ch k')"
  "nft_laws n ch \<Longrightarrow> nft_Flush n b k = (Some err, k') \<Longrightarrow> ch k' = ch k"
  unfolding nft_laws_def by (metis (mono_tags, lifting) old.prod.case option.simps(4,5))+

lemma nft_run_rules:
  "t c = Some rs \<Longrightarrow> nft_run (map (AddRule c) ess) t = Some (t(c \<mapsto> rs @ ess))"
  by (induction ess arbitrary: t rs) (auto simp: fun_upd_idem)

lemma nft_run_apply:
  "nft_run ([AddTable, AddChain c, FlushRules c] @ map (AddRule c) ess) t = Some (t(c \<mapsto> ess))"
  by (cases "t c") (simp_all add: nft_run_rules)

lemma nft_EnsureChain_chains:
  assumes "nft_laws n ch" and "nft_EnsureChain n c k = (res, k')"
  shows "ch k' = ch k \<or> ch k c = None \<and> ch k' = (ch k)(c \<mapsto> [])"
proof (cases "nft_New n k")
  case None
  let ?b = "[AddTable, AddChain c]"
  obtain e k'' where f: "nft_Flush n ?b k = (e, k'')" by (cases "nft_Flush n ?b k")
  then have "k' = k''" using assms(2) None by (cases e) (auto simp: nft_EnsureChain_def nft_send_def)
  moreover have "(e = None \<longrightarrow> nft_run ?b (ch k) = Some (ch k'')) \<and> (e \<noteq> None \<longrightarrow> ch k'' = ch k)"
    using f nft_laws_Flush [OF assms(1), of ?b k] by (cases e) blast+
  ultimately show ?thesis by (cases "e = None"; cases "ch k c") simp_all
next
  case (Some err)
  then show ?thesis using assms(2) by (simp add: nft_EnsureChain_def)
qed

lemma nft_ApplyRules_chains:
  assumes "nft_laws n ch" and "nft_ApplyRules n ip6 c rules k = (res, k')"
  shows "if res = Ret None then \<exists>ess. build_all ip6 rules = Ret (Inr ess) \<and> ch k' = (ch k)(c \<mapsto> ess)
         else ch k' = ch k"
proof (cases "nft_New n k = None \<and> (\<exists>ess. build_all ip6 rules = Ret (Inr ess))")
  case True
  then obtain ess where ess: "nft_New n k = None" "build_all ip6 rules = Ret (Inr ess)" by auto
  let ?b = "[AddTable, AddChain c, FlushRules c] @ map (AddRule c) ess"
  show ?thesis
  proof (cases "nft_Flush n ?b k")
    case (Pair e k'')
    then show ?thesis
      using assms(2) ess nft_laws_Flush [OF assms(1), of ?b k] nft_run_apply [of c ess "ch k"]
      by (cases e) (auto simp: nft_ApplyRules_def nft_send_def)
  qed
next
  case False
  then show ?thesis
    using assms(2) by (auto simp: nft_ApplyRules_def split: option.splits outcome.splits sum.splits)
qed

lemma BuildFirewallRules_match:
  assumes "find (\<lambda>r. rule_matches ip6 r p) (BuildFirewallRules pols local iface ips) = Some fr"
    and "fr_Action fr = ''allow''"
  shows "\<exists>pol \<in> set pols. \<exists>r \<in> set (pol_Rules pol). pr_Action r = ''allow'' \<and>
    firewall_rule_of local iface ips r = Some fr \<and> rule_matches ip6 fr p"
proof -
  have "fr \<in> set (BuildFirewallRules pols local iface ips)" and m: "rule_matches ip6 fr p"
    using assms(1) unfolding find_Some_iff by auto
  moreover have "fr \<noteq> default_deny iface" using assms(2) by (auto simp: default_deny_def)
  ultimately obtain pol r where "pol \<in> set pols" "r \<in> set (pol_Rules pol)" "firewall_rule_of local iface ips r = Some fr"
    unfolding BuildFirewallRules_eq by (auto simp: List.map_filter_def)
  then show ?thesis using firewall_rule_of_action assms(2) m by metis
qed

lemma BuildFirewallRules_interface:
  "fr \<in> set (BuildFirewallRules pols local iface ips) \<Longrightarrow> fr_Interface fr = iface"
  unfolding BuildFirewallRules_eq
  by (auto simp: List.map_filter_def default_deny_def dest: firewall_rule_of_action)

lemma default_deny_matches:
  "iface = '''' \<or> pk_iif p = iface \<Longrightarrow> rule_matches ip6 (default_deny iface) p"
  by (auto simp: rule_matches_def default_deny_def addr_matches_def)

lemma find_default:
  assumes "P d"
  shows "\<exists>x. find P (xs @ [d]) = Some x"
  using assms by (induction xs) auto

section \<open>Properties of the packet filter\<close>


definition ex_rule :: FirewallRule where
  "ex_rule = \<lparr>fr_Interface = ''wg0'', fr_SrcIP = ''10.1.0.0/16'', fr_DstIP = ''10.9.0.1'',
     fr_Port = 443, fr_Protocol = ''tcp'', fr_Action = ''allow''\<rparr>"

definition ex_packet :: packet where
  "ex_packet = \<lparr>pk_iif = ''wg0'',
     pk_nh = [0x45, 0, 0, 40, 0, 0, 0, 0, 64, 6, 0, 0, 10, 1, 2, 3, 10, 9, 0, 1],
     pk_th = [0x80, 0, 1, 0xBB, 0, 0, 0, 0], pk_proto = 6\<rparr>"


lemma ApplyFirewallRules_chains:
  assumes law: "nft_laws n ch"
    and run: "ApplyFirewallRules (NewEnforcer (Some (NewNftablesController n ip6)) cfg) pols local iface ips k = (res, k')"
    and on: "pcf_Enabled (PolicyConfig_ApplyDefaults cfg)" and c: "c = pcf_ChainName (PolicyConfig_ApplyDefaults cfg)"
  shows "if res = Ret None
         then \<exists>ess. build_all ip6 (BuildFirewallRules pols local iface ips) = Ret (Inr ess) \<and> ch k' c = Some ess
         else ch k' c = ch k c \<or> ch k c = None \<and> ch k' c = Some []"
proof -
  let ?rules = "BuildFirewallRules pols local iface ips"
  have seq: "fw_seq ''policy: enforce: '' (nft_EnsureChain n c) (nft_ApplyRules n ip6 c ?rules) k = (res, k')"
    using run on by (simp add: ApplyFirewallRules_def NewEnforcer_def NewNftablesController_def Let_def c)
  obtain r1 k1 where e: "nft_EnsureChain n c k = (r1, k1)" by (cases "nft_EnsureChain n c k")
  obtain r2 k2 where a: "nft_ApplyRules n ip6 c ?rules k1 = (r2, k2)" by (cases "nft_ApplyRules n ip6 c ?rules k1")
  have 1: "ch k1 c = ch k c \<or> ch k c = None \<and> ch k1 c = Some []"
    using nft_EnsureChain_chains [OF law e] by auto
  show ?thesis
  proof (cases "r1 = Ret None")
    case True
    then have "k' = k2" "res = Ret None \<longleftrightarrow> r2 = Ret None"
      using seq e a by (auto simp: fw_seq_def split: outcome.splits option.splits)
    then show ?thesis using nft_ApplyRules_chains [OF law a] 1 by (auto split: if_splits)
  next
    case False
    then have "k' = k1" "res \<noteq> Ret None"
      using seq e by (auto simp: fw_seq_def split: outcome.splits option.splits)
    then show ?thesis using 1 by simp
  qed
qed


definition ex_nft :: "chains nft_kernel" where
  "ex_nft = \<lparr>nft_New = (\<lambda>_. None),
     nft_Flush = (\<lambda>b t. case nft_run b t of None \<Rightarrow> (Some ''no such file'', t) | Some t' \<Rightarrow> (None, t')),
     nft_ListChains = (\<lambda>_. Inr [])\<rparr>"

definition ex_policies :: "Policy list" where
  "ex_policies = [\<lparr>pol_ID = ''p1'', pol_Rules = [\<lparr>pr_Src = ''n2'', pr_Dst = ''n1'', pr_Port = 443,
     pr_Protocol = ''tcp'', pr_Action = ''allow''\<rparr>]\<rparr>]"

definition ex_ips :: "(string, string) gomap" where
  "ex_ips = [(''n1'', ''10.9.0.1''), (''n2'', ''10.1.2.3'')]"


text \<open>A rule whose peer is unknown widens instead of vanishing: an inbound rule naming a source
  for which no address is known is compiled without a source match, so what it decides about a
  packet does not depend on where the packet comes from.\<close>

theorem unknown_peer_matches_any_source:
  assumes "mget ips (pr_Src r) = None" and "pr_Src r \<noteq> ''*''" and "pr_Src r \<noteq> local"
    and "firewall_rule_of local iface ips r = Some fr"
    and "take 4 (drop 16 (pk_nh p)) = take 4 (drop 16 (pk_nh q))" and "pk_iif p = pk_iif q"
    and "pk_th p = pk_th q" and "pk_proto p = pk_proto q"
  shows "rule_matches ip6 fr p \<longleftrightarrow> rule_matches ip6 fr q"
proof -
  have "fr_SrcIP fr = ''''"
    using assms(1-4) by (auto simp: firewall_rule_of_def Let_def resolveIP_def lookup_ip_def split: if_splits)
  then show ?thesis using assms(5-8) by (simp add: rule_matches_def addr_matches_def)
qed

theorem unknown_peer_matches_any_source_witness:
  "\<exists>fr. firewall_rule_of ''n1'' ''wg0'' [(''n1'', ''10.9.0.1'')]
       \<lparr>pr_Src = ''ghost'', pr_Dst = ''n1'', pr_Port = 443, pr_Protocol = ''tcp'', pr_Action = ''allow''\<rparr> = Some fr \<and>
     rule_matches (\<lambda>_. None) fr
       (ex_packet\<lparr>pk_nh := [0x45, 0, 0, 40, 0, 0, 0, 0, 64, 6, 0, 0, 8, 8, 8, 8, 10, 9, 0, 1]\<rparr>)"
proof -
  let ?r = "\<lparr>pr_Src = ''ghost'', pr_Dst = ''n1'', pr_Port = 443, pr_Protocol = ''tcp'', pr_Action = ''allow''\<rparr>"
  let ?q = "ex_packet\<lparr>pk_nh := [0x45, 0, 0, 40, 0, 0, 0, 0, 64, 6, 0, 0, 8, 8, 8, 8, 10, 9, 0, 1]\<rparr>"
  let ?ips = "[(''n1'', ''10.9.0.1'')]"
  have "case firewall_rule_of ''n1'' ''wg0'' ?ips ?r of None \<Rightarrow> False
      | Some fr \<Rightarrow> rule_matches (\<lambda>_. None) fr ex_packet" by code_simp
  then obtain fr where fr: "firewall_rule_of ''n1'' ''wg0'' ?ips ?r = Some fr" "rule_matches (\<lambda>_. None) fr ex_packet"
    by (auto split: option.splits)
  have "rule_matches (\<lambda>_. None) fr ex_packet \<longleftrightarrow> rule_matches (\<lambda>_. None) fr ?q"
    by (rule unknown_peer_matches_any_source [OF _ _ _ fr(1)]) (simp_all add: ex_packet_def)
  then show ?thesis using fr by blast
qed

end
