(* ===== verification/Bridge.thy ===== *)
theory Bridge
  imports Relay Nftables
begin

text \<open>
  Bridge mode, \<open>internal/bridge\<close>: the configuration, the route controller with its Linux
  implementation (sysctl, netlink and nftables operations are parameters), and the manager that
  sets up, updates and tears down the routes between the mesh and the access interface.
\<close>

section \<open>config.go\<close>

record BridgeCfg =
  br_Enabled :: bool
  br_AccessInterface :: string
  br_AccessSubnets :: "string list"
  br_EnableNAT :: "bool option"
  br_RelayEnabled :: bool
  br_RelayListenPort :: int
  br_MaxRelaySessions :: int
  br_SessionTTL :: duration
  br_UserAccessEnabled :: bool
  br_UserAccessInterfaceName :: string
  br_UserAccessListenPort :: int
  br_MaxAccessPeers :: int
  br_IngressEnabled :: bool
  br_MaxIngressRules :: int
  br_IngressDialTimeout :: duration
  br_SiteToSiteEnabled :: bool
  br_SiteToSiteInterfacePrefix :: string
  br_SiteToSiteListenPort :: int
  br_MaxSiteToSiteTunnels :: int

definition natEnabled :: "BridgeCfg \<Rightarrow> bool" where
  "natEnabled c = (case br_EnableNAT c of None \<Rightarrow> True | Some b \<Rightarrow> b)"

definition BridgeCfg_ApplyDefaults :: "BridgeCfg \<Rightarrow> BridgeCfg" where
  "BridgeCfg_ApplyDefaults c =
     c\<lparr>br_RelayListenPort := (if br_RelayListenPort c = 0 then 51821 else br_RelayListenPort c),
       br_MaxRelaySessions := (if br_MaxRelaySessions c = 0 then 100 else br_MaxRelaySessions c),
       br_SessionTTL := (if br_SessionTTL c = 0 then 5 * Minute else br_SessionTTL c),
       br_UserAccessInterfaceName :=
         (if br_UserAccessInterfaceName c = '''' then ''wg-access'' else br_UserAccessInterfaceName c),
       br_UserAccessListenPort := (if br_UserAccessListenPort c = 0 then 51822 else br_UserAccessListenPort c),
       br_MaxAccessPeers := (if br_MaxAccessPeers c = 0 then 50 else br_MaxAccessPeers c),
       br_MaxIngressRules := (if br_MaxIngressRules c = 0 then 20 else br_MaxIngressRules c),
       br_IngressDialTimeout := (if br_IngressDialTimeout c = 0 then 10 * Second else br_IngressDialTimeout c),
       br_SiteToSiteInterfacePrefix :=
         (if br_SiteToSiteInterfacePrefix c = '''' then ''wg-s2s-'' else br_SiteToSiteInterfacePrefix c),
       br_SiteToSiteListenPort := (if br_SiteToSiteListenPort c = 0 then 51823 else br_SiteToSiteListenPort c),
       br_MaxSiteToSiteTunnels := (if br_MaxSiteToSiteTunnels c = 0 then 10 else br_MaxSiteToSiteTunnels c)\<rparr>"

definition port_ok :: "int \<Rightarrow> bool" where
  "port_ok p \<longleftrightarrow> \<not> (p < 1 \<or> p > 65535)"

definition BridgeCfg_Validate :: "(string \<Rightarrow> ip option) \<Rightarrow> BridgeCfg \<Rightarrow> string option" where
  "BridgeCfg_Validate ip6 c =
     (if br_RelayEnabled c \<and> \<not> br_Enabled c then Some ''bridge: config: relay requires bridge mode to be enabled''
      else if br_UserAccessEnabled c \<and> \<not> br_Enabled c
        then Some ''bridge: config: user access requires bridge mode to be enabled''
      else if br_IngressEnabled c \<and> \<not> br_Enabled c then Some ''bridge: config: ingress requires bridge mode to be enabled''
      else if br_SiteToSiteEnabled c \<and> \<not> br_Enabled c
        then Some ''bridge: config: site-to-site requires bridge mode to be enabled''
      else if \<not> br_Enabled c then None
      else if br_AccessInterface c = '''' then Some ''bridge: config: AccessInterface is required when enabled''
      else if length (br_AccessSubnets c) = 0
        then Some ''bridge: config: at least one AccessSubnet is required when enabled''
      else case find (\<lambda>subnet. ParseCIDR ip6 subnet = None) (br_AccessSubnets c) of
        Some subnet \<Rightarrow> Some (''bridge: config: invalid CIDR '' @ subnet)
      | None \<Rightarrow>
      if br_RelayEnabled c \<and> \<not> port_ok (br_RelayListenPort c)
        then Some ''bridge: config: RelayListenPort must be between 1 and 65535''
      else if br_RelayEnabled c \<and> br_MaxRelaySessions c \<le> 0
        then Some ''bridge: config: MaxRelaySessions must be positive when relay is enabled''
      else if br_RelayEnabled c \<and> br_SessionTTL c < 30 * Second
        then Some ''bridge: config: SessionTTL must be at least 30s''
      else if br_UserAccessEnabled c \<and> \<not> port_ok (br_UserAccessListenPort c)
        then Some ''bridge: config: UserAccessListenPort must be between 1 and 65535''
      else if br_UserAccessEnabled c \<and> br_UserAccessInterfaceName c = ''''
        then Some ''bridge: config: UserAccessInterfaceName is required when user access is enabled''
      else if br_UserAccessEnabled c \<and> br_MaxAccessPeers c \<le> 0
        then Some ''bridge: config: MaxAccessPeers must be positive when user access is enabled''
      else if br_IngressEnabled c \<and> br_MaxIngressRules c \<le> 0
        then Some ''bridge: config: MaxIngressRules must be positive when ingress is enabled''
      else if br_IngressEnabled c \<and> br_IngressDialTimeout c < 1 * Second
        then Some ''bridge: config: IngressDialTimeout must be at least 1s''
      else if br_SiteToSiteEnabled c \<and> \<not> port_ok (br_SiteToSiteListenPort c)
        then Some ''bridge: config: SiteToSiteListenPort must be between 1 and 65535''
      else if br_SiteToSiteEnabled c \<and> br_SiteToSiteInterfacePrefix c = ''''
        then Some ''bridge: config: SiteToSiteInterfacePrefix is required when site-to-site is enabled''
      else if br_SiteToSiteEnabled c \<and> br_MaxSiteToSiteTunnels c \<le> 0
        then Some ''bridge: config: MaxSiteToSiteTunnels must be positive when site-to-site is enabled''
      else None)"

section \<open>route.go and route\_linux.go\<close>

record 'd RouteController =
  rc_EnableForwarding :: "string \<Rightarrow> string \<Rightarrow> 'd \<Rightarrow> string option \<times> 'd"
  rc_DisableForwarding :: "string \<Rightarrow> string \<Rightarrow> 'd \<Rightarrow> string option \<times> 'd"
  rc_AddRoute :: "string \<Rightarrow> string \<Rightarrow> 'd \<Rightarrow> string option \<times> 'd"
  rc_RemoveRoute :: "string \<Rightarrow> string \<Rightarrow> 'd \<Rightarrow> string option \<times> 'd"
  rc_AddNATMasquerade :: "string \<Rightarrow> 'd \<Rightarrow> string option outcome \<times> 'd"
  rc_RemoveNATMasquerade :: "string \<Rightarrow> 'd \<Rightarrow> string option \<times> 'd"

text \<open>
  The kernel behind the Linux controller.  A route operation fails with a known number or another
  error; the NAT table holds one masquerade rule for an interface.
\<close>

datatype route_err = EEXIST | ESRCH | RouteErr string

datatype nat_cmd = NatReplace byte_list | NatDelTable

record 'd route_kernel =
  rk_WriteFile :: "string \<Rightarrow> string \<Rightarrow> 'd \<Rightarrow> string option \<times> 'd"
  rk_LinkByName :: "string \<Rightarrow> 'd \<Rightarrow> string + int"
  rk_RouteAdd :: "string + byte_list \<times> nat \<Rightarrow> int \<Rightarrow> 'd \<Rightarrow> route_err option \<times> 'd"
  rk_RouteDel :: "string + byte_list \<times> nat \<Rightarrow> int \<Rightarrow> 'd \<Rightarrow> route_err option \<times> 'd"
  rk_nft_New :: "'d \<Rightarrow> string option"
  rk_nft_Flush :: "nat_cmd \<Rightarrow> 'd \<Rightarrow> string option \<times> 'd"
  rk_nft_HasTable :: "'d \<Rightarrow> string + bool"

definition validateIfaceName :: "string \<Rightarrow> string option" where
  "validateIfaceName name =
     (if list_ex (\<lambda>c. c = CHR ''/'' \<or> c = CHR ''.'' \<or> c = CHR 0x00) name
        then Some (''bridge: invalid interface name '' @ name @ '': contains prohibited character'')
      else if name = '''' then Some ''bridge: invalid interface name: empty''
      else None)"

definition sysctl_path :: "string \<Rightarrow> string" where
  "sysctl_path iface = ''/proc/sys/net/ipv4/conf/'' @ iface @ ''/forwarding''"

definition setSysctl :: "'d route_kernel \<Rightarrow> string \<Rightarrow> string \<Rightarrow> 'd \<Rightarrow> string option \<times> 'd" where
  "setSysctl k iface value d =
     (case validateIfaceName iface of
        Some err \<Rightarrow> (Some err, d)
      | None \<Rightarrow>
          (case rk_WriteFile k (sysctl_path iface) value d of
             (Some err, d) \<Rightarrow> (Some (''sysctl '' @ sysctl_path iface @ '': '' @ err), d)
           | (None, d) \<Rightarrow> (None, d)))"

definition set_both :: "'d route_kernel \<Rightarrow> string \<Rightarrow> string \<Rightarrow> string \<Rightarrow> string \<Rightarrow> 'd \<Rightarrow> string option \<times> 'd" where
  "set_both k what value meshIface accessIface d =
     (case setSysctl k meshIface value d of
        (Some err, d) \<Rightarrow> (Some (what @ err), d)
      | (None, d) \<Rightarrow>
          (case setSysctl k accessIface value d of
             (Some err, d) \<Rightarrow> (Some (what @ err), d)
           | (None, d) \<Rightarrow> (None, d)))"

definition Route_EnableForwarding :: "'d route_kernel \<Rightarrow> string \<Rightarrow> string \<Rightarrow> 'd \<Rightarrow> string option \<times> 'd" where
  "Route_EnableForwarding k = set_both k ''bridge: enable forwarding: '' ''1''"

definition Route_DisableForwarding :: "'d route_kernel \<Rightarrow> string \<Rightarrow> string \<Rightarrow> 'd \<Rightarrow> string option \<times> 'd" where
  "Route_DisableForwarding k = set_both k ''bridge: disable forwarding: '' ''0''"

text \<open>
  The destination of a route: the masked network of an IPv4 prefix; the text itself stands for the
  network of a longer address, whose parser is a parameter.
\<close>

definition route_dst :: "string \<Rightarrow> ip \<times> nat \<times> nat \<Rightarrow> string + byte_list \<times> nat" where
  "route_dst subnet c = (case c of (x, ones, bits) \<Rightarrow>
     (case To4 x of
        Some b \<Rightarrow> if bits = 32 then Inr (apply_mask (CIDRMask ones) b, ones) else Inl subnet
      | None \<Rightarrow> Inl subnet))"

definition Route_AddRoute ::
    "'d route_kernel \<Rightarrow> (string \<Rightarrow> ip option) \<Rightarrow> string \<Rightarrow> string \<Rightarrow> 'd \<Rightarrow> string option \<times> 'd" where
  "Route_AddRoute k ip6 subnet iface d =
     (case ParseCIDR ip6 subnet of
        None \<Rightarrow> (Some (''bridge: add route: parse CIDR '' @ subnet), d)
      | Some c \<Rightarrow>
      (case rk_LinkByName k iface d of
        Inl err \<Rightarrow> (Some (''bridge: add route: lookup interface '' @ iface @ '': '' @ err), d)
      | Inr link \<Rightarrow>
      (case rk_RouteAdd k (route_dst subnet c) link d of
        (None, d) \<Rightarrow> (None, d)
      | (Some EEXIST, d) \<Rightarrow> (None, d)
      | (Some _, d) \<Rightarrow> (Some (''bridge: add route '' @ subnet @ '' via '' @ iface), d))))"

definition Route_RemoveRoute ::
    "'d route_kernel \<Rightarrow> (string \<Rightarrow> ip option) \<Rightarrow> string \<Rightarrow> string \<Rightarrow> 'd \<Rightarrow> string option \<times> 'd" where
  "Route_RemoveRoute k ip6 subnet iface d =
     (case ParseCIDR ip6 subnet of
        None \<Rightarrow> (Some (''bridge: remove route: parse CIDR '' @ subnet), d)
      | Some c \<Rightarrow>
      (case rk_LinkByName k iface d of
        Inl err \<Rightarrow> (Some (''bridge: remove route: lookup interface '' @ iface @ '': '' @ err), d)
      | Inr link \<Rightarrow>
      (case rk_RouteDel k (route_dst subnet c) link d of
        (None, d) \<Rightarrow> (None, d)
      | (Some ESRCH, d) \<Rightarrow> (None, d)
      | (Some _, d) \<Rightarrow> (Some (''bridge: remove route '' @ subnet @ '' via '' @ iface), d))))"

definition Route_AddNATMasquerade :: "'d route_kernel \<Rightarrow> string \<Rightarrow> 'd \<Rightarrow> string option outcome \<times> 'd" where
  "Route_AddNATMasquerade k iface d =
     (case rk_nft_New k d of
        Some err \<Rightarrow> (Ret (Some (''bridge: add NAT masquerade: '' @ err)), d)
      | None \<Rightarrow>
      (case ifaceNameBytes iface of
        Panic v \<Rightarrow> (Panic v, d)
      | Ret ifaceData \<Rightarrow>
      (case rk_nft_Flush k (NatReplace ifaceData) d of
        (Some err, d) \<Rightarrow> (Ret (Some (''bridge: add NAT masquerade on '' @ iface @ '': '' @ err)), d)
      | (None, d) \<Rightarrow> (Ret None, d))))"

definition Route_RemoveNATMasquerade :: "'d route_kernel \<Rightarrow> string \<Rightarrow> 'd \<Rightarrow> string option \<times> 'd" where
  "Route_RemoveNATMasquerade k iface d =
     (case rk_nft_New k d of
        Some err \<Rightarrow> (Some (''bridge: remove NAT masquerade: '' @ err), d)
      | None \<Rightarrow>
      (case rk_nft_HasTable k d of
        Inl err \<Rightarrow> (Some (''bridge: remove NAT masquerade: list tables: '' @ err), d)
      | Inr False \<Rightarrow> (None, d)
      | Inr True \<Rightarrow>
      (case rk_nft_Flush k NatDelTable d of
        (Some err, d) \<Rightarrow> (Some (''bridge: remove NAT masquerade on '' @ iface @ '': '' @ err), d)
      | (None, d) \<Rightarrow> (None, d))))"

definition NewNetlinkRouteController :: "'d route_kernel \<Rightarrow> (string \<Rightarrow> ip option) \<Rightarrow> 'd RouteController" where
  "NewNetlinkRouteController k ip6 = \<lparr>rc_EnableForwarding = Route_EnableForwarding k,
     rc_DisableForwarding = Route_DisableForwarding k, rc_AddRoute = Route_AddRoute k ip6,
     rc_RemoveRoute = Route_RemoveRoute k ip6, rc_AddNATMasquerade = Route_AddNATMasquerade k,
     rc_RemoveNATMasquerade = Route_RemoveNATMasquerade k\<rparr>"

section \<open>manager.go\<close>

record BridgeManager =
  bm_cfg :: BridgeCfg
  bm_relay :: "Relay option"
  bm_active :: bool
  bm_meshIface :: string
  bm_activeRoutes :: "(string, unit) gomap"
  bm_natConfigured :: bool

definition NewBridgeManager :: "BridgeCfg \<Rightarrow> BridgeManager" where
  "NewBridgeManager cfg0 =
     (let cfg = BridgeCfg_ApplyDefaults cfg0
      in \<lparr>bm_cfg = cfg,
          bm_relay = (if br_RelayEnabled cfg
                      then Some (NewRelay (br_RelayListenPort cfg) (br_MaxRelaySessions cfg) (br_SessionTTL cfg)) else None),
          bm_active = False, bm_meshIface = '''', bm_activeRoutes = [], bm_natConfigured = False\<rparr>)"

definition rollbackSetup :: "'d RouteController \<Rightarrow> BridgeManager \<Rightarrow> string list \<Rightarrow> 'd \<Rightarrow> 'd" where
  "rollbackSetup ctrl m subnets d =
     (let d = fold (\<lambda>subnet d. snd (rc_RemoveRoute ctrl subnet (br_AccessInterface (bm_cfg m)) d)) (rev subnets) d
      in snd (rc_DisableForwarding ctrl (bm_meshIface m) (br_AccessInterface (bm_cfg m)) d))"

text \<open>The loop that adds the routes: the routes added, and the subnet and error that ended it early.\<close>

fun add_routes ::
    "'d RouteController \<Rightarrow> string \<Rightarrow> string list \<Rightarrow> string list \<Rightarrow> 'd \<Rightarrow> ((string \<times> string) option \<times> string list) \<times> 'd" where
  "add_routes ctrl iface [] added d = ((None, added), d)"
| "add_routes ctrl iface (subnet # subnets) added d =
     (case rc_AddRoute ctrl subnet iface d of
        (Some err, d) \<Rightarrow> ((Some (subnet, err), added), d)
      | (None, d) \<Rightarrow> add_routes ctrl iface subnets (added @ [subnet]) d)"

definition Bridge_Setup ::
    "'d RouteController \<Rightarrow> (string list \<Rightarrow> string list) \<Rightarrow> string \<Rightarrow> BridgeManager \<Rightarrow> 'd \<Rightarrow>
     string option outcome \<times> BridgeManager \<times> 'd" where
  "Bridge_Setup ctrl ord meshIface m d =
     (let cfg = bm_cfg m; access = br_AccessInterface cfg in
      if \<not> br_Enabled cfg then (Ret None, m, d)
      else
        let m = m\<lparr>bm_meshIface := meshIface\<rparr> in
        case rc_EnableForwarding ctrl meshIface access d of
          (Some err, d) \<Rightarrow> (Ret (Some (''bridge: setup: enable forwarding: '' @ err)), m, d)
        | (None, d) \<Rightarrow>
        (case add_routes ctrl access (br_AccessSubnets cfg) [] d of
          ((Some (subnet, err), added), d) \<Rightarrow>
            (Ret (Some (''bridge: setup: add route '' @ subnet @ '': '' @ err)), m, rollbackSetup ctrl m added d)
        | ((None, added), d) \<Rightarrow>
            let m = m\<lparr>bm_activeRoutes := fold (\<lambda>s. mput s ()) added (bm_activeRoutes m)\<rparr> in
            if natEnabled cfg then
              (case rc_AddNATMasquerade ctrl access d of
                 (Panic v, d) \<Rightarrow> (Panic v, m, d)
               | (Ret (Some err), d) \<Rightarrow>
                   (Ret (Some (''bridge: setup: add NAT masquerade: '' @ err)), m\<lparr>bm_activeRoutes := []\<rparr>,
                    rollbackSetup ctrl m (ord (mkeys (bm_activeRoutes m))) d)
               | (Ret None, d) \<Rightarrow> (Ret None, m\<lparr>bm_natConfigured := True, bm_active := True\<rparr>, d))
            else (Ret None, m\<lparr>bm_active := True\<rparr>, d)))"

definition Bridge_Teardown ::
    "'d RouteController \<Rightarrow> (string list \<Rightarrow> string list) \<Rightarrow> BridgeManager \<Rightarrow> 'd \<Rightarrow> string option \<times> BridgeManager \<times> 'd" where
  "Bridge_Teardown ctrl ord m d =
     (let access = br_AccessInterface (bm_cfg m) in
      if \<not> bm_active m then (None, m, d)
      else
        let (errs, d) = collect_errs (\<lambda>subnet. rc_RemoveRoute ctrl subnet access) (ord (mkeys (bm_activeRoutes m))) ([], d);
            (errs, d) = (if bm_natConfigured m then collect_errs (\<lambda>_. rc_RemoveNATMasquerade ctrl access) [()] (errs, d)
                         else (errs, d));
            (errs, d) = collect_errs (\<lambda>_. rc_DisableForwarding ctrl (bm_meshIface m) access) [()] (errs, d);
            (rerr, relay) = (case bm_relay m of None \<Rightarrow> (None, None)
                             | Some r \<Rightarrow> (let (e, r) = Relay_Stop r in (e, Some r)));
            errs = errs @ (case rerr of None \<Rightarrow> [] | Some e \<Rightarrow> [e])
        in (errors_Join errs,
            m\<lparr>bm_activeRoutes := [], bm_natConfigured := False, bm_relay := relay, bm_active := False\<rparr>, d))"

definition StartRelay :: "(int \<Rightarrow> string + nat) \<Rightarrow> BridgeManager \<Rightarrow> string option \<times> BridgeManager" where
  "StartRelay listenUDP m =
     (case bm_relay m of
        None \<Rightarrow> (None, m)
      | Some r \<Rightarrow> (let (e, r) = Relay_Start listenUDP r in (e, m\<lparr>bm_relay := Some r\<rparr>)))"

definition StopRelay :: "BridgeManager \<Rightarrow> string option \<times> BridgeManager" where
  "StopRelay m =
     (case bm_relay m of
        None \<Rightarrow> (None, m)
      | Some r \<Rightarrow> (let (e, r) = Relay_Stop r in (e, m\<lparr>bm_relay := Some r\<rparr>)))"

text \<open>One step of each loop of \<open>UpdateRoutes\<close>: the route and its entry change together or not at all.\<close>

definition drop_route :: "'d RouteController \<Rightarrow> string \<Rightarrow> string \<Rightarrow> (string, unit) gomap \<times> 'd \<Rightarrow>
    string option \<times> (string, unit) gomap \<times> 'd" where
  "drop_route ctrl iface subnet s =
     (let (active, d) = s in
      case rc_RemoveRoute ctrl subnet iface d of
        (Some err, d) \<Rightarrow> (Some err, active, d)
      | (None, d) \<Rightarrow> (None, mdel subnet active, d))"

definition ensure_route :: "'d RouteController \<Rightarrow> string \<Rightarrow> string \<Rightarrow> (string, unit) gomap \<times> 'd \<Rightarrow>
    string option \<times> (string, unit) gomap \<times> 'd" where
  "ensure_route ctrl iface subnet s =
     (let (active, d) = s in
      if mhas active subnet then (None, active, d)
      else case rc_AddRoute ctrl subnet iface d of
        (Some err, d) \<Rightarrow> (Some err, active, d)
      | (None, d) \<Rightarrow> (None, mput subnet () active, d))"

definition UpdateRoutes ::
    "'d RouteController \<Rightarrow> (string list \<Rightarrow> string list) \<Rightarrow> string list \<Rightarrow> BridgeManager \<Rightarrow> 'd \<Rightarrow>
     string option \<times> BridgeManager \<times> 'd" where
  "UpdateRoutes ctrl ord subnets m d =
     (let access = br_AccessInterface (bm_cfg m);
          desired = fold (\<lambda>s. mput s ()) subnets [];
          stale = filter (\<lambda>s. mget desired s = None) (ord (mkeys (bm_activeRoutes m)));
          (errs, s) = collect_errs (drop_route ctrl access) stale ([], (bm_activeRoutes m, d));
          (errs, s) = collect_errs (ensure_route ctrl access) subnets (errs, s);
          (active, d) = s
      in (errors_Join errs, m\<lparr>bm_activeRoutes := active\<rparr>, d))"

record BridgeInfo =
  bi_Enabled :: bool
  bi_AccessInterface :: string
  bi_ActiveRoutes :: int
  bi_RelayEnabled :: bool
  bi_ActiveRelaySessions :: int

definition BridgeStatus :: "BridgeManager \<Rightarrow> BridgeInfo option" where
  "BridgeStatus m =
     (if \<not> bm_active m then None
      else Some \<lparr>bi_Enabled = True, bi_AccessInterface = br_AccessInterface (bm_cfg m),
        bi_ActiveRoutes = int (length (bm_activeRoutes m)),
        bi_RelayEnabled = (bm_relay m \<noteq> None),
        bi_ActiveRelaySessions = (case bm_relay m of None \<Rightarrow> 0 | Some r \<Rightarrow> ActiveCount r)\<rparr>)"

definition BridgeCapabilities :: "BridgeManager \<Rightarrow> (string, string) gomap option" where
  "BridgeCapabilities m =
     (let cfg = bm_cfg m in
      if \<not> br_Enabled cfg then None
      else
        let caps = mput ''access_interface'' (br_AccessInterface cfg) [(''bridge'', ''true'')];
            caps = fold (\<lambda>(i, s). mput (''access_subnet_'' @ Itoa (int i)) s) (enumerate 0 (br_AccessSubnets cfg)) caps
        in Some (if br_RelayEnabled cfg
                 then mput ''relay_listen_port'' (Itoa (br_RelayListenPort cfg)) (mput ''relay'' ''true'' caps)
                 else caps))"

section \<open>handler.go\<close>

definition Bridge_ReconcileHandler ::
    "'d RouteController \<Rightarrow> (string list \<Rightarrow> string list) \<Rightarrow> StateResponse \<Rightarrow> StateDiff \<Rightarrow> BridgeManager \<times> 'd \<Rightarrow>
     string option outcome \<times> BridgeManager \<times> 'd" where
  "Bridge_ReconcileHandler ctrl ord desired diff s =
     (case sr_BridgeConfig desired of
        None \<Rightarrow> (Ret None, s)
      | Some cfg \<Rightarrow> (let (m, d) = s; (e, m, d) = UpdateRoutes ctrl ord (bc_AccessSubnets cfg) m d in (Ret e, m, d)))"

definition HandleBridgeConfigUpdated :: "'w Reconciler \<Rightarrow> string option \<times> 'w Reconciler" where
  "HandleBridgeConfigUpdated trigger = (None, TriggerReconcile trigger)"

section \<open>Routes in the kernel\<close>

text \<open>
  What the kernel promises about routes: an operation that succeeds inserts or deletes exactly its
  route, \<open>EEXIST\<close> and \<open>ESRCH\<close> mean that the route was already there or absent, a failed operation
  changes nothing, and an interface keeps its index.
\<close>

type_synonym route = "(string + byte_list \<times> nat) \<times> int"

definition route_kernel_laws :: "'d route_kernel \<Rightarrow> ('d \<Rightarrow> route set) \<Rightarrow> (string \<Rightarrow> int option) \<Rightarrow> bool" where
  "route_kernel_laws k rts link \<longleftrightarrow>
     (\<forall>i d. rk_LinkByName k i d = (case link i of None \<Rightarrow> Inl ''Link not found'' | Some n \<Rightarrow> Inr n)) \<and>
     (\<forall>r n d d'. rk_RouteAdd k r n d = (None, d') \<longrightarrow> rts d' = insert (r, n) (rts d)) \<and>
     (\<forall>r n d d'. rk_RouteAdd k r n d = (Some EEXIST, d') \<longrightarrow> (r, n) \<in> rts d) \<and>
     (\<forall>r n d e d'. rk_RouteAdd k r n d = (Some e, d') \<longrightarrow> rts d' = rts d) \<and>
     (\<forall>r n d d'. rk_RouteDel k r n d = (None, d') \<longrightarrow> rts d' = rts d - {(r, n)}) \<and>
     (\<forall>r n d d'. rk_RouteDel k r n d = (Some ESRCH, d') \<longrightarrow> (r, n) \<notin> rts d) \<and>
     (\<forall>r n d e d'. rk_RouteDel k r n d = (Some e, d') \<longrightarrow> rts d' = rts d)"

text \<open>The route that a subnet stands for on an interface.\<close>

definition route_of :: "(string \<Rightarrow> ip option) \<Rightarrow> (string \<Rightarrow> int option) \<Rightarrow> string \<Rightarrow> string \<Rightarrow> route option" where
  "route_of ip6 link iface subnet =
     (case ParseCIDR ip6 subnet of
        None \<Rightarrow> None
      | Some c \<Rightarrow> map_option (\<lambda>n. (route_dst subnet c, n)) (link iface))"

lemma Route_AddRoute_routes:
  assumes laws: "route_kernel_laws k rts link" and run: "Route_AddRoute k ip6 subnet iface d = (e, d')"
  shows "if e = None then \<exists>r. route_of ip6 link iface subnet = Some r \<and> rts d' = insert r (rts d) else rts d' = rts d"
proof (cases "route_of ip6 link iface subnet")
  case None
  then show ?thesis using run laws
    by (auto simp: route_of_def Route_AddRoute_def route_kernel_laws_def split: option.splits)
next
  case (Some r)
  then obtain c n where c: "ParseCIDR ip6 subnet = Some c" "link iface = Some n" "r = (route_dst subnet c, n)"
    by (auto simp: route_of_def split: option.splits)
  obtain x d1 where x: "rk_RouteAdd k (route_dst subnet c) n d = (x, d1)" by (cases "rk_RouteAdd k (route_dst subnet c) n d")
  have "(x = None \<longrightarrow> rts d1 = insert r (rts d)) \<and> (x = Some EEXIST \<longrightarrow> r \<in> rts d) \<and> (x \<noteq> None \<longrightarrow> rts d1 = rts d)"
    using laws x unfolding c(3) route_kernel_laws_def by (cases x) auto
  moreover have "e = (case x of None \<Rightarrow> None | Some EEXIST \<Rightarrow> None
      | Some _ \<Rightarrow> Some (''bridge: add route '' @ subnet @ '' via '' @ iface)) \<and> d' = d1"
    using run c x laws
    by (auto simp: Route_AddRoute_def route_kernel_laws_def split: option.splits route_err.splits)
  ultimately show ?thesis using Some by (auto split: option.splits route_err.splits)
qed

lemma Route_RemoveRoute_routes:
  assumes laws: "route_kernel_laws k rts link" and run: "Route_RemoveRoute k ip6 subnet iface d = (e, d')"
  shows "if e = None then \<exists>r. route_of ip6 link iface subnet = Some r \<and> rts d' = rts d - {r} else rts d' = rts d"
proof (cases "route_of ip6 link iface subnet")
  case None
  then show ?thesis using run laws
    by (auto simp: route_of_def Route_RemoveRoute_def route_kernel_laws_def split: option.splits)
next
  case (Some r)
  then obtain c n where c: "ParseCIDR ip6 subnet = Some c" "link iface = Some n" "r = (route_dst subnet c, n)"
    by (auto simp: route_of_def split: option.splits)
  obtain x d1 where x: "rk_RouteDel k (route_dst subnet c) n d = (x, d1)" by (cases "rk_RouteDel k (route_dst subnet c) n d")
  have "(x = None \<longrightarrow> rts d1 = rts d - {r}) \<and> (x = Some ESRCH \<longrightarrow> r \<notin> rts d) \<and> (x \<noteq> None \<longrightarrow> rts d1 = rts d)"
    using laws x unfolding c(3) route_kernel_laws_def by (cases x) auto
  moreover have "e = (case x of None \<Rightarrow> None | Some ESRCH \<Rightarrow> None
      | Some _ \<Rightarrow> Some (''bridge: remove route '' @ subnet @ '' via '' @ iface)) \<and> d' = d1"
    using run c x laws
    by (auto simp: Route_RemoveRoute_def route_kernel_laws_def split: option.splits route_err.splits)
  ultimately show ?thesis using Some by (auto split: option.splits route_err.splits)
qed

text \<open>
  Every tracked subnet has its route in the kernel.  Over a set \<open>U\<close> of subnets that stand for
  distinct routes, the loops keep this whether or not their steps succeed.
\<close>

definition tracked :: "(string \<Rightarrow> ip option) \<Rightarrow> (string \<Rightarrow> int option) \<Rightarrow> string \<Rightarrow> (string, unit) gomap \<Rightarrow> route set \<Rightarrow> bool" where
  "tracked ip6 link iface active rs \<longleftrightarrow> mwf active \<and>
     (\<forall>s. mhas active s \<longrightarrow> (\<exists>r. route_of ip6 link iface s = Some r \<and> r \<in> rs))"

definition distinct_routes :: "(string \<Rightarrow> ip option) \<Rightarrow> (string \<Rightarrow> int option) \<Rightarrow> string \<Rightarrow> string set \<Rightarrow> bool" where
  "distinct_routes ip6 link iface U \<longleftrightarrow>
     (\<forall>s \<in> U. \<forall>t \<in> U. \<forall>r. route_of ip6 link iface s = Some r \<longrightarrow> route_of ip6 link iface t = Some r \<longrightarrow> s = t)"

lemma drop_route_step:
  assumes laws: "route_kernel_laws k rts link" and U: "distinct_routes ip6 link iface U"
    and tr: "tracked ip6 link iface active (rts d)" and sub: "\<forall>t. mhas active t \<longrightarrow> t \<in> U" "s \<in> U"
    and run: "drop_route (NewNetlinkRouteController k ip6) iface s (active, d) = (e, active', d')"
  shows "tracked ip6 link iface active' (rts d') \<and> (\<forall>t. mhas active' t \<longrightarrow> mhas active t) \<and> rts d' \<subseteq> rts d \<and>
    (e = None \<longrightarrow> \<not> mhas active' s \<and> (\<forall>t. t \<noteq> s \<longrightarrow> mget active' t = mget active t) \<and>
       (\<exists>r. route_of ip6 link iface s = Some r \<and> r \<notin> rts d'))"
proof -
  have wf: "mwf active" using tr by (simp add: tracked_def)
  obtain x d1 where x: "Route_RemoveRoute k ip6 s iface d = (x, d1)" by (cases "Route_RemoveRoute k ip6 s iface d")
  note rr = Route_RemoveRoute_routes [OF laws x]
  show ?thesis
  proof (cases x)
    case (Some err)
    then have "e = Some err" "active' = active" "d' = d1"
      using run x by (simp_all add: drop_route_def NewNetlinkRouteController_def)
    then show ?thesis using rr Some tr by auto
  next
    case None
    then have r: "e = None" "active' = mdel s active" "d' = d1"
      using run x by (simp_all add: drop_route_def NewNetlinkRouteController_def)
    obtain q where q: "route_of ip6 link iface s = Some q" "rts d' = rts d - {q}" using rr None r by auto
    have "\<exists>u. route_of ip6 link iface t = Some u \<and> u \<in> rts d'" if "mhas active t" "t \<noteq> s" for t
    proof -
      obtain u where u: "route_of ip6 link iface t = Some u" "u \<in> rts d" using tr \<open>mhas active t\<close> by (auto simp: tracked_def)
      have "t \<in> U" using \<open>mhas active t\<close> sub(1) by auto
      then have "u \<noteq> q" using U sub(2) q(1) u(1) \<open>t \<noteq> s\<close> unfolding distinct_routes_def by metis
      then show ?thesis using u q by simp
    qed
    then show ?thesis
      using r q wf by (auto simp: tracked_def gm.wf_del gm.get_del split: if_splits)
  qed
qed

lemma ensure_route_step:
  assumes laws: "route_kernel_laws k rts link"
    and tr: "tracked ip6 link iface active (rts d)"
    and run: "ensure_route (NewNetlinkRouteController k ip6) iface s (active, d) = (e, active', d')"
  shows "tracked ip6 link iface active' (rts d') \<and> (\<forall>t. mhas active' t \<longrightarrow> t = s \<or> mhas active t) \<and>
    rts d \<subseteq> rts d' \<and> (\<forall>t. mhas active t \<longrightarrow> mhas active' t) \<and>
    rts d' \<subseteq> rts d \<union> {r. route_of ip6 link iface s = Some r} \<and> (e = None \<longrightarrow> mhas active' s)"
proof (cases "mhas active s")
  case True
  then show ?thesis using run tr by (auto simp: ensure_route_def)
next
  case False
  obtain x d1 where x: "Route_AddRoute k ip6 s iface d = (x, d1)" by (cases "Route_AddRoute k ip6 s iface d")
  note rr = Route_AddRoute_routes [OF laws x]
  show ?thesis
  proof (cases x)
    case (Some err)
    then have "e = Some err" "active' = active" "d' = d1"
      using False run x by (simp_all add: ensure_route_def NewNetlinkRouteController_def)
    then show ?thesis using rr Some tr by auto
  next
    case None
    then have r: "e = None" "active' = mput s () active" "d' = d1"
      using False run x by (simp_all add: ensure_route_def NewNetlinkRouteController_def)
    obtain q where q: "route_of ip6 link iface s = Some q" "rts d' = insert q (rts d)" using rr None r by auto
    show ?thesis using tr r q by (auto simp: tracked_def gm.wf_put simp del: split_paired_Ex split_paired_All)
  qed
qed

lemma drop_routes:
  assumes laws: "route_kernel_laws k rts link" and U: "distinct_routes ip6 link iface U"
    and "tracked ip6 link iface active (rts d)" and "\<forall>t. mhas active t \<longrightarrow> t \<in> U" and "set ss \<subseteq> U"
    and "collect_errs (drop_route (NewNetlinkRouteController k ip6) iface) ss (errs, active, d) = (errs', active', d')"
  shows "tracked ip6 link iface active' (rts d') \<and> (\<forall>t. mhas active' t \<longrightarrow> mhas active t) \<and> rts d' \<subseteq> rts d \<and>
    (errs' = errs \<longrightarrow> (\<forall>t. mhas active' t \<longleftrightarrow> mhas active t \<and> t \<notin> set ss) \<and>
       (\<forall>s \<in> set ss. \<forall>r. route_of ip6 link iface s = Some r \<longrightarrow> r \<notin> rts d'))"
  using assms(3-)
proof (induction ss arbitrary: errs active d)
  case (Cons s ss)
  let ?f = "drop_route (NewNetlinkRouteController k ip6) iface"
  obtain e a1 d1 where s: "?f s (active, d) = (e, a1, d1)" by (metis prod.exhaust)
  have sU: "s \<in> U" "set ss \<subseteq> U" using Cons.prems(3) by auto
  note st = drop_route_step [OF laws U Cons.prems(1,2) sU(1) s]
  let ?errs = "case e of None \<Rightarrow> errs | Some x \<Rightarrow> errs @ [x]"
  have rest: "collect_errs ?f ss (?errs, a1, d1) = (errs', active', d')"
    using Cons.prems(4) s by (cases e) auto
  have "\<forall>t. mhas a1 t \<longrightarrow> t \<in> U" using st Cons.prems(2) by blast
  note IH = Cons.IH [OF st [THEN conjunct1] this sU(2) rest]
  have none: "e = None \<and> ?errs = errs'" if "errs' = errs"
    using collect_errs_mono [OF rest] that by (cases e) auto
  have "(\<forall>t. mhas active' t \<longleftrightarrow> mhas active t \<and> t \<notin> set (s # ss)) \<and>
      (\<forall>x \<in> set (s # ss). \<forall>r. route_of ip6 link iface x = Some r \<longrightarrow> r \<notin> rts d')" if ee: "errs' = errs"
  proof -
    obtain q where q: "route_of ip6 link iface s = Some q" "q \<notin> rts d1" and a1: "\<not> mhas a1 s"
      and other: "\<And>t. t \<noteq> s \<Longrightarrow> mget a1 t = mget active t" using st none [OF ee] by blast
    have ih: "\<And>t. mhas active' t \<longleftrightarrow> mhas a1 t \<and> t \<notin> set ss" "rts d' \<subseteq> rts d1"
      "\<And>x r. x \<in> set ss \<Longrightarrow> route_of ip6 link iface x = Some r \<Longrightarrow> r \<notin> rts d'"
      using IH none [OF ee] by blast+
    have "mhas active' t \<longleftrightarrow> mhas active t \<and> t \<notin> set (s # ss)" for t
      using ih(1) [of t] a1 other [of t] by (cases "t = s") auto
    moreover have "r \<notin> rts d'" if "x \<in> set (s # ss)" "route_of ip6 link iface x = Some r" for x r
      using that ih(2,3) q by (cases "x = s") auto
    ultimately show ?thesis by blast
  qed
  then show ?case using IH st by (meson order_trans)
qed auto

lemma ensure_routes:
  assumes laws: "route_kernel_laws k rts link" and "tracked ip6 link iface active (rts d)"
    and "collect_errs (ensure_route (NewNetlinkRouteController k ip6) iface) ss (errs, active, d) = (errs', active', d')"
  shows "tracked ip6 link iface active' (rts d') \<and> (\<forall>t. mhas active' t \<longrightarrow> t \<in> set ss \<or> mhas active t) \<and>
    (\<forall>t. mhas active t \<longrightarrow> mhas active' t) \<and>
    rts d' \<subseteq> rts d \<union> {r. \<exists>s \<in> set ss. route_of ip6 link iface s = Some r} \<and> (errs' = errs \<longrightarrow> (\<forall>s \<in> set ss. mhas active' s))"
  using assms(2-)
proof (induction ss arbitrary: errs active d)
  case (Cons s ss)
  let ?f = "ensure_route (NewNetlinkRouteController k ip6) iface"
  obtain e a1 d1 where s: "?f s (active, d) = (e, a1, d1)" by (metis prod.exhaust)
  note st = ensure_route_step [OF laws Cons.prems(1) s]
  let ?errs = "case e of None \<Rightarrow> errs | Some x \<Rightarrow> errs @ [x]"
  have rest: "collect_errs ?f ss (?errs, a1, d1) = (errs', active', d')"
    using Cons.prems(2) s by (cases e) auto
  note IH = Cons.IH [OF st [THEN conjunct1] rest]
  have none: "e = None \<and> ?errs = errs'" if "errs' = errs"
    using collect_errs_mono [OF rest] that by (cases e) auto
  have "mhas active' x" if "errs' = errs" "x \<in> set (s # ss)" for x
    using IH st none [OF that(1)] that(2) by auto
  moreover have "t \<in> set (s # ss) \<or> mhas active t" if "mhas active' t" for t
    using IH st that by auto
  moreover have "mhas active' t" if "mhas active t" for t using IH st that by blast
  moreover have "rts d' \<subseteq> rts d \<union> {r. \<exists>x \<in> set (s # ss). route_of ip6 link iface x = Some r}"
  proof
    fix r assume "r \<in> rts d'"
    then have "r \<in> rts d1 \<or> (\<exists>x \<in> set ss. route_of ip6 link iface x = Some r)" using IH by blast
    then show "r \<in> rts d \<union> {r. \<exists>x \<in> set (s # ss). route_of ip6 link iface x = Some r}" using st by auto
  qed
  ultimately show ?case using IH by blast
qed auto

section \<open>Properties of the bridge manager\<close>


text \<open>A kernel with one interface whose state is its list of routes.\<close>

definition ex_rk :: "route list route_kernel" where
  "ex_rk = \<lparr>rk_WriteFile = (\<lambda>_ _ d. (None, d)), rk_LinkByName = (\<lambda>i _. if i = ''eth1'' then Inr 3 else Inl ''Link not found''),
     rk_RouteAdd = (\<lambda>r n d. if (r, n) \<in> set d then (Some EEXIST, d) else (None, (r, n) # d)),
     rk_RouteDel = (\<lambda>r n d. if (r, n) \<in> set d then (None, filter (\<lambda>x. x \<noteq> (r, n)) d) else (Some ESRCH, d)),
     rk_nft_New = (\<lambda>_. None), rk_nft_Flush = (\<lambda>_ d. (None, d)), rk_nft_HasTable = (\<lambda>_. Inr False)\<rparr>"

definition ex_link :: "string \<Rightarrow> int option" where "ex_link i = (if i = ''eth1'' then Some 3 else None)"

lemma ex_rk_laws: "route_kernel_laws ex_rk set ex_link"
  by (auto simp: route_kernel_laws_def ex_rk_def ex_link_def split: if_splits)

definition ex_bridge_cfg :: BridgeCfg where
  "ex_bridge_cfg = BridgeCfg_ApplyDefaults \<lparr>br_Enabled = True, br_AccessInterface = ''eth1'', br_AccessSubnets = [''10.1.0.0/16''],
     br_EnableNAT = None, br_RelayEnabled = False, br_RelayListenPort = 0, br_MaxRelaySessions = 0, br_SessionTTL = 0,
     br_UserAccessEnabled = False, br_UserAccessInterfaceName = '''', br_UserAccessListenPort = 0, br_MaxAccessPeers = 0,
     br_IngressEnabled = False, br_MaxIngressRules = 0, br_IngressDialTimeout = 0, br_SiteToSiteEnabled = True,
     br_SiteToSiteInterfacePrefix = '''', br_SiteToSiteListenPort = 0, br_MaxSiteToSiteTunnels = 0\<rparr>"


end
