(* ===== verification/Ingress.thy ===== *)
theory Ingress
  imports Bridge
begin

text \<open>
  Public ingress, \<open>internal/bridge/ingress.go\<close> and \<open>ingress_handler.go\<close>: a bounded table of rules,
  each with a listener whose accept loop starts one proxy per connection.

  The controller that opens and closes listeners and the loading of a certificate are parameters.
  Cancelling a rule and closing its listener ends its accept loop, on which the removal waits; the
  proxies of a rule are separate goroutines, which end on their own later, so they are counted in
  the state by the rule they serve.
\<close>

section \<open>ingress.go\<close>

record 'd IngressController =
  ig_Listen :: "string \<Rightarrow> string option \<Rightarrow> 'd \<Rightarrow> (string + nat) \<times> 'd"
  ig_Close :: "nat \<Rightarrow> 'd \<Rightarrow> string option \<times> 'd"
  ig_X509KeyPair :: "string \<Rightarrow> string \<Rightarrow> string + string"

record activeRule =
  ar_rule :: IngressRule
  ar_listener :: nat

record IngressManager =
  im_cfg :: BridgeCfg
  im_dialTimeout :: duration
  im_active :: bool
  im_activeRules :: "(string, activeRule) gomap"
  im_connCount :: int
  im_proxies :: "IngressRule list"

definition NewIngressManager :: "BridgeCfg \<Rightarrow> IngressManager" where
  "NewIngressManager cfg = \<lparr>im_cfg = cfg, im_dialTimeout = br_IngressDialTimeout cfg, im_active = False,
     im_activeRules = [], im_connCount = 0, im_proxies = []\<rparr>"

definition Ingress_Setup :: "IngressManager \<Rightarrow> string option \<times> IngressManager" where
  "Ingress_Setup m = (if \<not> br_IngressEnabled (im_cfg m) then (None, m) else (None, m\<lparr>im_active := True\<rparr>))"

definition Ingress_Teardown ::
    "'d IngressController \<Rightarrow> (string list \<Rightarrow> string list) \<Rightarrow> IngressManager \<Rightarrow> 'd \<Rightarrow> string option \<times> IngressManager \<times> 'd" where
  "Ingress_Teardown ctrl ord m d =
     (if \<not> im_active m then (None, m, d)
      else
        let close = (\<lambda>i d. case ig_Close ctrl (ar_listener (the (mget (im_activeRules m) i))) d of
                        (Some err, d) \<Rightarrow> (Some (''bridge: ingress: close rule '' @ i @ '': '' @ err), d)
                      | (None, d) \<Rightarrow> (None, d));
            (errs, d) = collect_errs close (ord (mkeys (im_activeRules m))) ([], d)
        in (errors_Join errs, m\<lparr>im_active := False, im_activeRules := []\<rparr>, d))"

definition tls_config :: "'d IngressController \<Rightarrow> IngressRule \<Rightarrow> string + string option" where
  "tls_config ctrl rule =
     (if ir_Mode rule = ''terminate'' then
        (case ig_X509KeyPair ctrl (ir_CertPEM rule) (ir_KeyPEM rule) of
           Inl err \<Rightarrow> Inl (''bridge: ingress: rule '' @ ir_RuleID rule @ '': load TLS certificate: '' @ err)
         | Inr cert \<Rightarrow> Inr (Some cert))
      else Inr None)"

definition AddRule ::
    "'d IngressController \<Rightarrow> IngressRule \<Rightarrow> IngressManager \<times> 'd \<Rightarrow> string option \<times> IngressManager \<times> 'd" where
  "AddRule ctrl rule s =
     (let (m, d) = s in
      if \<not> im_active m then (Some ''bridge: ingress: manager is not active'', m, d)
      else if mhas (im_activeRules m) (ir_RuleID rule) then
        (Some (''bridge: ingress: rule already exists: '' @ ir_RuleID rule), m, d)
      else if int (length (im_activeRules m)) \<ge> br_MaxIngressRules (im_cfg m) then
        (Some (''bridge: ingress: max rules reached ('' @ Itoa (br_MaxIngressRules (im_cfg m)) @ '')''), m, d)
      else case tls_config ctrl rule of
        Inl err \<Rightarrow> (Some err, m, d)
      | Inr tlsCfg \<Rightarrow>
          let addr = '':'' @ Itoa (ir_ListenPort rule) in
          (case ig_Listen ctrl addr tlsCfg d of
             (Inl err, d) \<Rightarrow>
               (Some (''bridge: ingress: rule '' @ ir_RuleID rule @ '': listen on '' @ addr @ '': '' @ err), m, d)
           | (Inr ln, d) \<Rightarrow>
               (None, m\<lparr>im_activeRules := mput (ir_RuleID rule) \<lparr>ar_rule = rule, ar_listener = ln\<rparr> (im_activeRules m)\<rparr>, d)))"

definition RemoveRule :: "'d IngressController \<Rightarrow> string \<Rightarrow> IngressManager \<times> 'd \<Rightarrow> IngressManager \<times> 'd" where
  "RemoveRule ctrl ruleID s =
     (let (m, d) = s in
      if \<not> im_active m then (m, d)
      else case mget (im_activeRules m) ruleID of
        None \<Rightarrow> (m, d)
      | Some ar \<Rightarrow> (m\<lparr>im_activeRules := mdel ruleID (im_activeRules m)\<rparr>, snd (ig_Close ctrl (ar_listener ar) d)))"

definition GetRule :: "string \<Rightarrow> IngressManager \<times> 'd \<Rightarrow> IngressRule option" where
  "GetRule ruleID s = map_option ar_rule (mget (im_activeRules (fst s)) ruleID)"

definition RuleIDs :: "(string list \<Rightarrow> string list) \<Rightarrow> IngressManager \<times> 'd \<Rightarrow> string list" where
  "RuleIDs ord s = ord (mkeys (im_activeRules (fst s)))"

text \<open>One round of the accept loop of a rule, and the end of one of its proxies.\<close>

definition accept_round :: "activeRule \<Rightarrow> bool \<Rightarrow> IngressManager \<Rightarrow> bool \<times> IngressManager" where
  "accept_round ar accepted m =
     (if \<not> accepted then (False, m)
      else (True, m\<lparr>im_connCount := im_connCount m + 1, im_proxies := ar_rule ar # im_proxies m\<rparr>))"

definition proxy_end :: "IngressRule \<Rightarrow> IngressManager \<Rightarrow> IngressManager" where
  "proxy_end rule m = m\<lparr>im_connCount := im_connCount m - 1, im_proxies := remove1 rule (im_proxies m)\<rparr>"

record IngressInfo =
  ii_Enabled :: bool
  ii_RuleCount :: int
  ii_ConnectionCount :: int

definition IngressStatus :: "IngressManager \<Rightarrow> IngressInfo option" where
  "IngressStatus m =
     (if \<not> im_active m then None
      else Some \<lparr>ii_Enabled = True, ii_RuleCount = int (length (im_activeRules m)), ii_ConnectionCount = im_connCount m\<rparr>)"

definition IngressCapabilities :: "IngressManager \<Rightarrow> (string, string) gomap option" where
  "IngressCapabilities m =
     (if \<not> br_IngressEnabled (im_cfg m) then None
      else Some [(''ingress'', ''true''), (''max_ingress_rules'', Itoa (br_MaxIngressRules (im_cfg m)))])"

section \<open>ingress\_handler.go\<close>

definition HandleIngressRuleAssigned ::
    "'d IngressController \<Rightarrow> (string \<Rightarrow> string + IngressRule) \<Rightarrow> SignedEnvelope \<Rightarrow> IngressManager \<times> 'd \<Rightarrow>
     string option \<times> IngressManager \<times> 'd" where
  "HandleIngressRuleAssigned ctrl unmarshal envelope s =
     (case unmarshal (env_Payload envelope) of
        Inl err \<Rightarrow> (Some (''bridge: ingress_rule_assigned: parse payload: '' @ err), s)
      | Inr rule \<Rightarrow>
          (case AddRule ctrl rule s of
             (Some err, s) \<Rightarrow> (Some (''bridge: ingress_rule_assigned: '' @ err), s)
           | (None, s) \<Rightarrow> (None, s)))"

definition HandleIngressRuleRevoked ::
    "'d IngressController \<Rightarrow> (string \<Rightarrow> string + string) \<Rightarrow> SignedEnvelope \<Rightarrow> IngressManager \<times> 'd \<Rightarrow>
     string option \<times> IngressManager \<times> 'd" where
  "HandleIngressRuleRevoked ctrl unmarshal envelope s =
     (case unmarshal (env_Payload envelope) of
        Inl err \<Rightarrow> (Some (''bridge: ingress_rule_revoked: parse payload: '' @ err), s)
      | Inr ruleID \<Rightarrow> (None, RemoveRule ctrl ruleID s))"

definition HandleIngressConfigUpdated :: "'w Reconciler \<Rightarrow> string option \<times> 'w Reconciler" where
  "HandleIngressConfigUpdated trigger = (None, TriggerReconcile trigger)"

definition IngressReconcileHandler ::
    "'d IngressController \<Rightarrow> (string list \<Rightarrow> string list) \<Rightarrow> StateResponse \<Rightarrow> StateDiff \<Rightarrow>
     IngressManager \<times> 'd \<Rightarrow> string option outcome \<times> IngressManager \<times> 'd" where
  "IngressReconcileHandler ctrl ord desired diff s =
     (case sr_IngressConfig desired of
        None \<Rightarrow> (Ret None, s)
      | Some cfg \<Rightarrow>
          let (err, s) = sync_table (RuleIDs ord) GetRule (AddRule ctrl) (RemoveRule ctrl)
                ir_RuleID (\<lambda>current desired. current \<noteq> desired) (ic_Rules cfg) (ic_Rules cfg) s
          in (Ret err, s))"

section \<open>The rule table\<close>

definition ingress_inv :: "IngressManager \<times> 'd \<Rightarrow> bool" where
  "ingress_inv s \<longleftrightarrow> (let m = fst s in mwf (im_activeRules m) \<and>
     (\<not> im_active m \<longrightarrow> im_activeRules m = []) \<and>
     int (length (im_activeRules m)) \<le> max 0 (br_MaxIngressRules (im_cfg m)) \<and>
     im_connCount m = int (length (im_proxies m)))"

lemma AddRule_result:
  assumes "AddRule ctrl rule (m, d) = (e, m', d')"
  shows "e \<noteq> None \<and> m' = m \<or>
    e = None \<and> im_active m \<and> \<not> mhas (im_activeRules m) (ir_RuleID rule) \<and>
    int (length (im_activeRules m)) < br_MaxIngressRules (im_cfg m) \<and>
    (\<exists>ln. m' = m\<lparr>im_activeRules := mput (ir_RuleID rule) \<lparr>ar_rule = rule, ar_listener = ln\<rparr> (im_activeRules m)\<rparr>)"
  using assms by (auto simp: AddRule_def Let_def split: if_splits prod.splits sum.splits)

lemma RemoveRule_rules:
  assumes "ingress_inv s"
  shows "im_activeRules (fst (RemoveRule ctrl i s)) = mdel i (im_activeRules (fst s))"
    and "im_active (fst (RemoveRule ctrl i s)) = im_active (fst s)"
    and "im_cfg (fst (RemoveRule ctrl i s)) = im_cfg (fst s)"
    and "im_connCount (fst (RemoveRule ctrl i s)) = im_connCount (fst s)"
    and "im_proxies (fst (RemoveRule ctrl i s)) = im_proxies (fst s)"
  using assms by (cases s; auto simp: RemoveRule_def Let_def ingress_inv_def mdel_absent split: option.splits)+

interpretation ing: strict_table GetRule "AddRule ctrl" "RemoveRule ctrl" ir_RuleID "\<lambda>r. r"
    "ingress_inv :: IngressManager \<times> 'd \<Rightarrow> bool"
  for ctrl :: "'d IngressController"
proof unfold_locales
  fix r :: IngressRule and s s' :: "IngressManager \<times> 'd" and k e
  assume inv: "ingress_inv s"
  obtain m d where s: "s = (m, d)" by (cases s)
  show "ingress_inv (snd (AddRule ctrl r s))"
  proof (cases "AddRule ctrl r s")
    case (fields x m' d')
    then show ?thesis using AddRule_result [of ctrl r m d x m' d'] inv s
      by (auto simp: ingress_inv_def Let_def gm.wf_put mlen_put)
  qed
  show "GetRule k s' = (if k = ir_RuleID r then Some r else GetRule k s)" if "AddRule ctrl r s = (None, s')"
    using that s AddRule_result [of ctrl r m d None "fst s'" "snd s'"] by (auto simp: GetRule_def)
  show "GetRule k s' = GetRule k s" if "AddRule ctrl r s = (Some e, s')"
    using that s AddRule_result [of ctrl r m d "Some e" "fst s'" "snd s'"] by (auto simp: GetRule_def)
next
  fix s :: "IngressManager \<times> 'd" and j k
  assume inv: "ingress_inv s"
  note r = RemoveRule_rules [OF inv, of ctrl k]
  have wf: "mwf (im_activeRules (fst s))" using inv by (simp add: ingress_inv_def Let_def)
  show "GetRule k (RemoveRule ctrl k s) = None"
    and "j \<noteq> k \<Longrightarrow> GetRule j (RemoveRule ctrl k s) = GetRule j s"
    and "GetRule k (RemoveRule ctrl k s) = None \<or> GetRule k (RemoveRule ctrl k s) = GetRule k s"
    using wf by (simp_all add: GetRule_def r gm.get_del)
  show "ingress_inv (RemoveRule ctrl k s)"
    using inv mlen_del_le [of k "im_activeRules (fst s)"] wf
    by (auto simp: ingress_inv_def Let_def r gm.wf_del)
qed

lemma accept_round_inv: "ingress_inv (m, d) \<Longrightarrow> ingress_inv (snd (accept_round ar ok m), d)"
  by (simp add: accept_round_def ingress_inv_def Let_def)

lemma proxy_end_inv:
  assumes "ingress_inv (m, d)" and "rule \<in> set (im_proxies m)"
  shows "ingress_inv (proxy_end rule m, d)"
proof -
  have "Suc (length (remove1 rule (im_proxies m))) = length (im_proxies m)"
    using assms(2) length_pos_if_in_set [OF assms(2)] unfolding length_remove1 by arith
  then have "int (length (remove1 rule (im_proxies m))) = int (length (im_proxies m)) - 1" by linarith
  then show ?thesis using assms(1) by (simp add: proxy_end_def ingress_inv_def Let_def)
qed

lemma IngressReconcileHandler_converges:
  assumes inv: "ingress_inv s" and ord: "\<And>l. mset (ord l) = mset l"
    and cfg: "sr_IngressConfig desired = Some cfg" and d: "distinct (map ir_RuleID (ic_Rules cfg))"
    and run: "IngressReconcileHandler ctrl ord desired diff s = (Ret e, s')"
  shows "ingress_inv s' \<and> (e = None \<longrightarrow> (\<forall>k. GetRule k s' = mget (desired_set ir_RuleID (ic_Rules cfg)) k))"
proof -
  have r: "sync_table (RuleIDs ord) GetRule (AddRule ctrl) (RemoveRule ctrl)
    ir_RuleID (\<lambda>c d. c \<noteq> d) (ic_Rules cfg) (ic_Rules cfg) s = (e, s')"
    using run cfg by (auto simp: IngressReconcileHandler_def Let_def split: prod.splits)
  have "mwf (im_activeRules (fst s))" using inv by (simp add: ingress_inv_def Let_def)
  then have ids: "distinct (RuleIDs ord s)" using ord unfolding RuleIDs_def by (metis mset_eq_imp_distinct_iff)
  have keys: "set (RuleIDs ord s) = {k. GetRule k s \<noteq> None}"
    unfolding RuleIDs_def GetRule_def
    using mset_eq_setD [OF ord, of "mkeys (im_activeRules (fst s))"] gm.set_keys [of "im_activeRules (fst s)"] by simp
  have "ingress_inv s'" using ing.sync_inv [OF inv, where ctrl = ctrl and ids = "RuleIDs ord" and
        changed = "\<lambda>c d. c \<noteq> d" and items = "ic_Rules cfg" and additions = "ic_Rules cfg"] r by simp
  moreover have "GetRule k s' = mget (desired_set ir_RuleID (ic_Rules cfg)) k" if "e = None" for k
    using ing.sync_converges [OF inv ids keys d refl d _ r [unfolded that], of k] by (simp add: option.map_ident)
  ultimately show ?thesis by blast
qed

end
