(* ===== verification/UserAccess.thy ===== *)
theory UserAccess
  imports Bridge
begin

text \<open>
  User access, \<open>internal/bridge/user_access.go\<close> and \<open>user_access_handler.go\<close>: a WireGuard
  interface for external clients with a bounded set of peers by public key.  The access
  controller is an interface of the source without an implementation there, so its operations are
  parameters.  A peer that cannot be removed stays tracked, so the next reconciliation tries again.
\<close>

section \<open>user\_access.go\<close>

record 'd AccessController =
  ac_CreateInterface :: "string \<Rightarrow> int \<Rightarrow> 'd \<Rightarrow> string option \<times> 'd"
  ac_RemoveInterface :: "string \<Rightarrow> 'd \<Rightarrow> string option \<times> 'd"
  ac_ConfigurePeer :: "string \<Rightarrow> string \<Rightarrow> string list \<Rightarrow> string \<Rightarrow> 'd \<Rightarrow> string option \<times> 'd"
  ac_RemovePeer :: "string \<Rightarrow> string \<Rightarrow> 'd \<Rightarrow> string option \<times> 'd"

record UserAccessManager =
  ua_cfg :: BridgeCfg
  ua_active :: bool
  ua_activePeers :: "(string, unit) gomap"

definition NewUserAccessManager :: "BridgeCfg \<Rightarrow> UserAccessManager" where
  "NewUserAccessManager cfg = \<lparr>ua_cfg = cfg, ua_active = False, ua_activePeers = []\<rparr>"

definition UA_Setup ::
    "'d AccessController \<Rightarrow> 'd RouteController \<Rightarrow> UserAccessManager \<Rightarrow> 'd \<Rightarrow> string option \<times> UserAccessManager \<times> 'd" where
  "UA_Setup ctrl routes m d =
     (let cfg = ua_cfg m; iface = br_UserAccessInterfaceName cfg in
      if \<not> br_UserAccessEnabled cfg then (None, m, d)
      else case ac_CreateInterface ctrl iface (br_UserAccessListenPort cfg) d of
        (Some err, d) \<Rightarrow> (Some (''bridge: user access: create interface: '' @ err), m, d)
      | (None, d) \<Rightarrow>
      (case rc_EnableForwarding routes iface (br_AccessInterface cfg) d of
        (Some err, d) \<Rightarrow>
          (Some (''bridge: user access: enable forwarding: '' @ err), m, snd (ac_RemoveInterface ctrl iface d))
      | (None, d) \<Rightarrow> (None, m\<lparr>ua_active := True\<rparr>, d)))"

definition UA_Teardown ::
    "'d AccessController \<Rightarrow> 'd RouteController \<Rightarrow> (string list \<Rightarrow> string list) \<Rightarrow> UserAccessManager \<Rightarrow> 'd \<Rightarrow>
     string option \<times> UserAccessManager \<times> 'd" where
  "UA_Teardown ctrl routes ord m d =
     (let cfg = ua_cfg m; iface = br_UserAccessInterfaceName cfg in
      if \<not> ua_active m then (None, m, d)
      else
        let (errs, d) = collect_errs (ac_RemovePeer ctrl iface) (ord (mkeys (ua_activePeers m))) ([], d);
            (errs, d) = collect_errs (\<lambda>_. rc_DisableForwarding routes iface (br_AccessInterface cfg)) [()] (errs, d);
            (errs, d) = collect_errs (\<lambda>_. ac_RemoveInterface ctrl iface) [()] (errs, d)
        in (errors_Join errs, m\<lparr>ua_active := False, ua_activePeers := []\<rparr>, d))"

definition UA_AddPeer ::
    "'d AccessController \<Rightarrow> UserAccessPeer \<Rightarrow> UserAccessManager \<times> 'd \<Rightarrow> string option \<times> UserAccessManager \<times> 'd" where
  "UA_AddPeer ctrl peer s =
     (let (m, d) = s; pk = uap_PublicKey peer in
      if mhas (ua_activePeers m) pk then (Some (''bridge: user access: peer already exists: '' @ pk), m, d)
      else if int (length (ua_activePeers m)) \<ge> br_MaxAccessPeers (ua_cfg m) then
        (Some (''bridge: user access: max peers reached ('' @ Itoa (br_MaxAccessPeers (ua_cfg m)) @ '')''), m, d)
      else case ac_ConfigurePeer ctrl (br_UserAccessInterfaceName (ua_cfg m)) pk (uap_AllowedIPs peer) (uap_PSK peer) d of
        (Some err, d) \<Rightarrow> (Some (''bridge: user access: configure peer: '' @ err), m, d)
      | (None, d) \<Rightarrow> (None, m\<lparr>ua_activePeers := mput pk () (ua_activePeers m)\<rparr>, d))"

definition UA_RemovePeer ::
    "'d AccessController \<Rightarrow> string \<Rightarrow> UserAccessManager \<times> 'd \<Rightarrow> UserAccessManager \<times> 'd" where
  "UA_RemovePeer ctrl publicKey s =
     (let (m, d) = s in
      if \<not> mhas (ua_activePeers m) publicKey then (m, d)
      else case ac_RemovePeer ctrl (br_UserAccessInterfaceName (ua_cfg m)) publicKey d of
        (Some err, d) \<Rightarrow> (m, d)
      | (None, d) \<Rightarrow> (m\<lparr>ua_activePeers := mdel publicKey (ua_activePeers m)\<rparr>, d))"

definition PeerPublicKeys :: "(string list \<Rightarrow> string list) \<Rightarrow> UserAccessManager \<times> 'd \<Rightarrow> string list" where
  "PeerPublicKeys ord s = ord (mkeys (ua_activePeers (fst s)))"

record UserAccessInfo =
  ui_Enabled :: bool
  ui_InterfaceName :: string
  ui_PeerCount :: int
  ui_ListenPort :: int

definition UserAccessStatus :: "UserAccessManager \<Rightarrow> UserAccessInfo option" where
  "UserAccessStatus m =
     (if \<not> ua_active m then None
      else Some \<lparr>ui_Enabled = True, ui_InterfaceName = br_UserAccessInterfaceName (ua_cfg m),
        ui_PeerCount = int (length (ua_activePeers m)), ui_ListenPort = br_UserAccessListenPort (ua_cfg m)\<rparr>)"

definition UserAccessCapabilities :: "UserAccessManager \<Rightarrow> (string, string) gomap option" where
  "UserAccessCapabilities m =
     (if \<not> br_UserAccessEnabled (ua_cfg m) then None
      else Some [(''user_access'', ''true''), (''access_listen_port'', Itoa (br_UserAccessListenPort (ua_cfg m)))])"

section \<open>user\_access\_handler.go\<close>

definition HandleUserAccessPeerAssigned ::
    "'d AccessController \<Rightarrow> (string \<Rightarrow> string + UserAccessPeer) \<Rightarrow> SignedEnvelope \<Rightarrow> UserAccessManager \<times> 'd \<Rightarrow>
     string option \<times> UserAccessManager \<times> 'd" where
  "HandleUserAccessPeerAssigned ctrl unmarshal envelope s =
     (case unmarshal (env_Payload envelope) of
        Inl err \<Rightarrow> (Some (''bridge: user_access_peer_assigned: parse payload: '' @ err), s)
      | Inr peer \<Rightarrow>
          (case UA_AddPeer ctrl peer s of
             (Some err, s) \<Rightarrow> (Some (''bridge: user_access_peer_assigned: '' @ err), s)
           | (None, s) \<Rightarrow> (None, s)))"

definition HandleUserAccessPeerRevoked ::
    "'d AccessController \<Rightarrow> (string \<Rightarrow> string + string) \<Rightarrow> SignedEnvelope \<Rightarrow> UserAccessManager \<times> 'd \<Rightarrow>
     string option \<times> UserAccessManager \<times> 'd" where
  "HandleUserAccessPeerRevoked ctrl unmarshal envelope s =
     (case unmarshal (env_Payload envelope) of
        Inl err \<Rightarrow> (Some (''bridge: user_access_peer_revoked: parse payload: '' @ err), s)
      | Inr publicKey \<Rightarrow> (None, UA_RemovePeer ctrl publicKey s))"

definition HandleUserAccessConfigUpdated :: "'w Reconciler \<Rightarrow> string option \<times> 'w Reconciler" where
  "HandleUserAccessConfigUpdated trigger = (None, TriggerReconcile trigger)"

text \<open>The set of current keys as the reconcile handler sees it; it compares nothing else.\<close>

definition has_peer :: "string \<Rightarrow> UserAccessManager \<times> 'd \<Rightarrow> unit option" where
  "has_peer pk s = mget (ua_activePeers (fst s)) pk"

definition UserAccessReconcileHandler ::
    "'d AccessController \<Rightarrow> (string list \<Rightarrow> string list) \<Rightarrow> StateResponse \<Rightarrow> StateDiff \<Rightarrow>
     UserAccessManager \<times> 'd \<Rightarrow> string option outcome \<times> UserAccessManager \<times> 'd" where
  "UserAccessReconcileHandler ctrl ord desired diff s =
     (case sr_UserAccessConfig desired of
        None \<Rightarrow> (Ret None, s)
      | Some cfg \<Rightarrow>
          let (err, s) = sync_table (PeerPublicKeys ord) has_peer (UA_AddPeer ctrl) (UA_RemovePeer ctrl)
                uap_PublicKey (\<lambda>_ _. False) (uac_Peers cfg) (uac_Peers cfg) s
          in (Ret err, s))"

section \<open>The peer table\<close>

definition ua_inv :: "UserAccessManager \<times> 'd \<Rightarrow> bool" where
  "ua_inv s \<longleftrightarrow> (let m = fst s in mwf (ua_activePeers m) \<and>
     int (length (ua_activePeers m)) \<le> max 0 (br_MaxAccessPeers (ua_cfg m)))"

lemma UA_AddPeer_result:
  assumes "UA_AddPeer ctrl peer (m, d) = (e, m', d')"
  shows "e \<noteq> None \<and> m' = m \<or>
    e = None \<and> \<not> mhas (ua_activePeers m) (uap_PublicKey peer) \<and>
    int (length (ua_activePeers m)) < br_MaxAccessPeers (ua_cfg m) \<and>
    m' = m\<lparr>ua_activePeers := mput (uap_PublicKey peer) () (ua_activePeers m)\<rparr>"
  using assms by (auto simp: UA_AddPeer_def Let_def split: if_splits prod.splits option.splits)

lemma UA_RemovePeer_result:
  "fst (UA_RemovePeer ctrl pk s) = fst s \<or>
   fst (UA_RemovePeer ctrl pk s) = (fst s)\<lparr>ua_activePeers := mdel pk (ua_activePeers (fst s))\<rparr>"
  by (cases s) (auto simp: UA_RemovePeer_def Let_def split: prod.splits option.splits)

interpretation ua: keyed_table has_peer "UA_AddPeer ctrl" "UA_RemovePeer ctrl" uap_PublicKey "\<lambda>_. ()"
    "ua_inv :: UserAccessManager \<times> 'd \<Rightarrow> bool"
  for ctrl :: "'d AccessController"
proof unfold_locales
  fix p :: UserAccessPeer and s s' :: "UserAccessManager \<times> 'd" and k e
  assume inv: "ua_inv s"
  obtain m d where s: "s = (m, d)" by (cases s)
  show "ua_inv (snd (UA_AddPeer ctrl p s))"
  proof (cases "UA_AddPeer ctrl p s")
    case (fields x m' d')
    then show ?thesis using UA_AddPeer_result [of ctrl p m d x m' d'] inv s
      by (auto simp: ua_inv_def Let_def gm.wf_put mlen_put)
  qed
  show "has_peer k s' = (if k = uap_PublicKey p then Some () else has_peer k s)" if "UA_AddPeer ctrl p s = (None, s')"
    using that s UA_AddPeer_result [of ctrl p m d None "fst s'" "snd s'"] by (auto simp: has_peer_def)
  show "has_peer k s' = has_peer k s" if "UA_AddPeer ctrl p s = (Some e, s')"
    using that s UA_AddPeer_result [of ctrl p m d "Some e" "fst s'" "snd s'"] by (auto simp: has_peer_def)
next
  fix s :: "UserAccessManager \<times> 'd" and j k
  assume inv: "ua_inv s"
  have wf: "mwf (ua_activePeers (fst s))" using inv by (simp add: ua_inv_def Let_def)
  note r = UA_RemovePeer_result [of ctrl k s]
  show "j \<noteq> k \<Longrightarrow> has_peer j (UA_RemovePeer ctrl k s) = has_peer j s"
    using r wf by (auto simp: has_peer_def gm.get_del)
  have "mget (mdel k (ua_activePeers (fst s))) k = None" using wf by (simp add: gm.get_del)
  then show "has_peer k (UA_RemovePeer ctrl k s) = None \<or> has_peer k (UA_RemovePeer ctrl k s) = has_peer k s"
    using r by (elim disjE) (simp_all add: has_peer_def)
  have "ua_inv s'" if "fst s' = fst s \<or> fst s' = (fst s)\<lparr>ua_activePeers := mdel k (ua_activePeers (fst s))\<rparr>"
    for s' :: "UserAccessManager \<times> 'd"
    using that inv wf mlen_del_le [of k "ua_activePeers (fst s)"] by (auto simp: ua_inv_def Let_def gm.wf_del)
  then show "ua_inv (UA_RemovePeer ctrl k s)" using r by blast
qed

lemma UserAccessReconcileHandler_bounded:
  assumes "ua_inv s" and "UserAccessReconcileHandler ctrl ord desired diff s = (Ret e, s')"
  shows "ua_inv s'"
proof (cases "sr_UserAccessConfig desired")
  case (Some cfg)
  then show ?thesis
    using assms(2) ua.sync_inv [OF assms(1), where ctrl = ctrl and ids = "PeerPublicKeys ord" and
        changed = "\<lambda>_ _. False" and items = "uac_Peers cfg" and additions = "uac_Peers cfg"]
    by (simp add: UserAccessReconcileHandler_def split_beta)
qed (use assms in \<open>simp add: UserAccessReconcileHandler_def\<close>)

end
