(* ===== verification/Files.thy ===== *)
theory Files
  imports GoLib
begin

text \<open>
  The file system as the agent uses it, and \<open>internal/fsutil/atomic.go\<close> on top of it.

  Paths are cleaned the way \<open>path/filepath\<close> cleans them on Unix.  A file system holds the regular
  files with their permission bits and the directories.  Every system call takes the next entry of
  a schedule of faults, so that each call can fail, and a failing write can leave any prefix of its
  data; an exhausted schedule means that no further call fails.  The history of the file contents
  is kept, because the promise of an atomic write is about what a reader or a crash can see between
  the calls.
\<close>

section \<open>path/filepath\<close>

fun clean_comps :: "bool \<Rightarrow> string list \<Rightarrow> string list \<Rightarrow> string list" where
  "clean_comps rooted out [] = rev out"
| "clean_comps rooted out (c # cs) =
     (if c = '''' \<or> c = ''.'' then clean_comps rooted out cs
      else if c = ''..'' then
        (case out of
           [] \<Rightarrow> clean_comps rooted (if rooted then [] else [c]) cs
         | d # ds \<Rightarrow> if d = ''..'' then clean_comps rooted (c # out) cs else clean_comps rooted ds cs)
      else clean_comps rooted (c # out) cs)"

definition render_path :: "bool \<Rightarrow> string list \<Rightarrow> string" where
  "render_path rooted cs =
     (if rooted then CHR ''/'' # Join cs ''/'' else if cs = [] then ''.'' else Join cs ''/'')"

definition Clean :: "string \<Rightarrow> string" where
  "Clean path = (let rooted = HasPrefix path ''/'' in render_path rooted (clean_comps rooted [] (Split path (CHR ''/''))))"

definition filepath_Join :: "string list \<Rightarrow> string" where
  "filepath_Join elems = (let es = dropWhile (\<lambda>e. e = '''') elems in if es = [] then '''' else Clean (Join es ''/''))"

definition filepath_Dir :: "string \<Rightarrow> string" where
  "filepath_Dir path = Clean (rev (dropWhile (\<lambda>c. c \<noteq> CHR ''/'') (rev path)))"

definition filepath_Base :: "string \<Rightarrow> string" where
  "filepath_Base path =
     (if path = '''' then ''.''
      else let p = dropWhile (\<lambda>c. c = CHR ''/'') (rev path)
           in if p = '''' then ''/'' else rev (takeWhile (\<lambda>c. c \<noteq> CHR ''/'') p))"

section \<open>System calls\<close>

datatype fs_error = NotExist string | Errno string

fun fs_error_text :: "fs_error \<Rightarrow> string" where
  "fs_error_text (NotExist s) = s"
| "fs_error_text (Errno s) = s"

fun os_IsNotExist :: "fs_error \<Rightarrow> bool" where
  "os_IsNotExist (NotExist _) = True"
| "os_IsNotExist (Errno _) = False"

datatype fault = NoFault | Fault string nat

record FS =
  fs_files :: "(string, string \<times> nat) gomap"
  fs_dirs :: "string list"
  fs_faults :: "fault list"
  fs_seen :: "(string, string \<times> nat) gomap list"

definition syscall :: "FS \<Rightarrow> fault \<times> FS" where
  "syscall fs = (case fs_faults fs of [] \<Rightarrow> (NoFault, fs) | f # fl \<Rightarrow> (f, fs\<lparr>fs_faults := fl\<rparr>))"

definition set_files :: "(string, string \<times> nat) gomap \<Rightarrow> FS \<Rightarrow> FS" where
  "set_files m fs = fs\<lparr>fs_files := m, fs_seen := fs_seen fs @ [m]\<rparr>"

definition no_such :: "string \<Rightarrow> string \<Rightarrow> fs_error" where
  "no_such call path = NotExist (call @ '' '' @ path @ '': no such file or directory'')"

definition os_ReadFile :: "string \<Rightarrow> FS \<Rightarrow> (fs_error + string) \<times> FS" where
  "os_ReadFile path fs =
     (case syscall fs of
        (Fault e _, fs) \<Rightarrow> (Inl (Errno (''read '' @ path @ '': '' @ e)), fs)
      | (NoFault, fs) \<Rightarrow>
          (case mget (fs_files fs) path of
             None \<Rightarrow> (Inl (no_such ''open'' path), fs)
           | Some (content, _) \<Rightarrow> (Inr content, fs)))"

text \<open>\<open>os.OpenFile\<close> with \<open>O_WRONLY|O_CREATE|O_TRUNC\<close>: an existing file keeps its permission bits.\<close>

definition os_OpenTrunc :: "string \<Rightarrow> nat \<Rightarrow> FS \<Rightarrow> fs_error option \<times> FS" where
  "os_OpenTrunc path perm fs =
     (case syscall fs of
        (Fault e _, fs) \<Rightarrow> (Some (Errno (''open '' @ path @ '': '' @ e)), fs)
      | (NoFault, fs) \<Rightarrow>
          if filepath_Dir path \<notin> set (fs_dirs fs) then (Some (no_such ''open'' path), fs)
          else let mode = (case mget (fs_files fs) path of None \<Rightarrow> perm | Some (_, m) \<Rightarrow> m)
               in (None, set_files (mput path ('''', mode) (fs_files fs)) fs))"

definition file_append :: "string \<Rightarrow> string \<Rightarrow> FS \<Rightarrow> FS" where
  "file_append path data fs =
     (case mget (fs_files fs) path of
        None \<Rightarrow> fs
      | Some (content, mode) \<Rightarrow> set_files (mput path (content @ data, mode) (fs_files fs)) fs)"

definition os_Write :: "string \<Rightarrow> string \<Rightarrow> FS \<Rightarrow> fs_error option \<times> FS" where
  "os_Write path data fs =
     (case syscall fs of
        (Fault e n, fs) \<Rightarrow> (Some (Errno (''write '' @ path @ '': '' @ e)), file_append path (take n data) fs)
      | (NoFault, fs) \<Rightarrow> (None, file_append path data fs))"

definition os_Sync :: "string \<Rightarrow> FS \<Rightarrow> fs_error option \<times> FS" where
  "os_Sync path fs =
     (case syscall fs of
        (Fault e _, fs) \<Rightarrow> (Some (Errno (''sync '' @ path @ '': '' @ e)), fs)
      | (NoFault, fs) \<Rightarrow> (None, fs))"

definition os_Close :: "string \<Rightarrow> FS \<Rightarrow> fs_error option \<times> FS" where
  "os_Close path fs =
     (case syscall fs of
        (Fault e _, fs) \<Rightarrow> (Some (Errno (''close '' @ path @ '': '' @ e)), fs)
      | (NoFault, fs) \<Rightarrow> (None, fs))"

definition os_Rename :: "string \<Rightarrow> string \<Rightarrow> FS \<Rightarrow> fs_error option \<times> FS" where
  "os_Rename old new fs =
     (case syscall fs of
        (Fault e _, fs) \<Rightarrow> (Some (Errno (''rename '' @ old @ '' '' @ new @ '': '' @ e)), fs)
      | (NoFault, fs) \<Rightarrow>
          (case mget (fs_files fs) old of
             None \<Rightarrow> (Some (no_such ''rename'' old), fs)
           | Some f \<Rightarrow> (None, set_files (mput new f (mdel old (fs_files fs))) fs)))"

definition os_Remove :: "string \<Rightarrow> FS \<Rightarrow> fs_error option \<times> FS" where
  "os_Remove path fs =
     (case syscall fs of
        (Fault e _, fs) \<Rightarrow> (Some (Errno (''remove '' @ path @ '': '' @ e)), fs)
      | (NoFault, fs) \<Rightarrow>
          (case mget (fs_files fs) path of
             None \<Rightarrow> (Some (no_such ''remove'' path), fs)
           | Some _ \<Rightarrow> (None, set_files (mdel path (fs_files fs)) fs)))"

text \<open>The directory itself and every directory above it.\<close>

definition path_prefixes :: "string \<Rightarrow> string list" where
  "path_prefixes path =
     (let rooted = HasPrefix path ''/''; cs = clean_comps rooted [] (Split path (CHR ''/''))
      in map (\<lambda>n. render_path rooted (take n cs)) [0..<Suc (length cs)])"

definition os_MkdirAll :: "string \<Rightarrow> FS \<Rightarrow> fs_error option \<times> FS" where
  "os_MkdirAll path fs =
     (case syscall fs of
        (Fault e n, fs) \<Rightarrow>
          (Some (Errno (''mkdir '' @ path @ '': '' @ e)), fs\<lparr>fs_dirs := fs_dirs fs @ take n (path_prefixes path)\<rparr>)
      | (NoFault, fs) \<Rightarrow> (None, fs\<lparr>fs_dirs := fs_dirs fs @ path_prefixes path\<rparr>))"

text \<open>The names of the regular files of a directory, in the order of \<open>os.ReadDir\<close>.\<close>

definition os_ReadDir :: "string \<Rightarrow> FS \<Rightarrow> (fs_error + string list) \<times> FS" where
  "os_ReadDir path fs =
     (case syscall fs of
        (Fault e _, fs) \<Rightarrow> (Inl (Errno (''open '' @ path @ '': '' @ e)), fs)
      | (NoFault, fs) \<Rightarrow>
          if Clean path \<notin> set (fs_dirs fs) then (Inl (no_such ''open'' path), fs)
          else (Inr (sort (map filepath_Base (filter (\<lambda>p. filepath_Dir p = Clean path) (mkeys (fs_files fs))))), fs))"

section \<open>atomic.go\<close>

definition write_rename :: "string \<Rightarrow> string \<Rightarrow> string \<Rightarrow> nat \<Rightarrow> FS \<Rightarrow> fs_error option \<times> FS" where
  "write_rename tmpPath targetPath data perm fs =
     (case os_OpenTrunc tmpPath perm fs of
        (Some err, fs) \<Rightarrow> (Some err, fs)
      | (None, fs) \<Rightarrow>
          (let (err, fs) =
             (case os_Write tmpPath data fs of
                (Some err, fs) \<Rightarrow> (Some err, snd (os_Close tmpPath fs))
              | (None, fs) \<Rightarrow>
             (case os_Sync tmpPath fs of
                (Some err, fs) \<Rightarrow> (Some err, snd (os_Close tmpPath fs))
              | (None, fs) \<Rightarrow>
             (case os_Close tmpPath fs of
                (Some err, fs) \<Rightarrow> (Some err, fs)
              | (None, fs) \<Rightarrow> os_Rename tmpPath targetPath fs)))
           in (err, snd (os_Remove tmpPath fs))))"

definition WriteFileAtomic :: "string \<Rightarrow> string \<Rightarrow> string \<Rightarrow> nat \<Rightarrow> FS \<Rightarrow> fs_error option \<times> FS" where
  "WriteFileAtomic dir name data perm fs =
     (let targetPath = filepath_Join [dir, name];
          tmpPath = filepath_Join [dir, ''.tmp-'' @ name]
      in write_rename tmpPath targetPath data perm fs)"

section \<open>Paths\<close>

text \<open>A name that denotes an entry of its directory.\<close>

definition plain_name :: "string \<Rightarrow> bool" where
  "plain_name n \<longleftrightarrow> n \<noteq> '''' \<and> n \<noteq> ''.'' \<and> n \<noteq> ''..'' \<and> CHR ''/'' \<notin> set n"

lemma Split_append: "Split (a @ c # b) c = Split a c @ Split b c"
proof (induction a)
  case (Cons x xs)
  then show ?case using Split_nonempty [of xs c] by (cases "Split xs c") auto
qed simp

lemma Split_single: "c \<notin> set s \<Longrightarrow> Split s c = [s]"
  by (induction s) auto

lemma Split_Join: "cs \<noteq> [] \<Longrightarrow> \<forall>x \<in> set cs. c \<notin> set x \<Longrightarrow> Split (Join cs [c]) c = cs"
  by (induction cs "[c]" rule: Join.induct) (auto simp: Split_append Split_single)

lemma Join_snoc: "cs \<noteq> [] \<Longrightarrow> Join (cs @ [x]) sep = Join cs sep @ sep @ x"
  by (induction cs sep rule: Join.induct) auto

lemma clean_comps_snoc: "plain_name n \<Longrightarrow> clean_comps r out (cs @ [n]) = clean_comps r out cs @ [n]"
  by (induction r out cs rule: clean_comps.induct) (auto simp: plain_name_def split: list.splits)

lemma clean_comps_plain: "\<forall>c \<in> set cs. plain_name c \<Longrightarrow> clean_comps r out cs = rev out @ cs"
  by (induction r out cs rule: clean_comps.induct) (auto simp: plain_name_def)

lemma clean_comps_ok:
  "\<forall>c \<in> set cs. CHR ''/'' \<notin> set c \<Longrightarrow> \<forall>c \<in> set out. c \<noteq> '''' \<and> CHR ''/'' \<notin> set c \<Longrightarrow>
   x \<in> set (clean_comps r out cs) \<Longrightarrow> x \<noteq> '''' \<and> CHR ''/'' \<notin> set x"
  by (induction r out cs rule: clean_comps.induct) (auto split: list.splits if_splits)

lemma clean_comps_rooted:
  "\<forall>c \<in> set cs. CHR ''/'' \<notin> set c \<Longrightarrow> \<forall>c \<in> set out. plain_name c \<Longrightarrow>
   x \<in> set (clean_comps True out cs) \<Longrightarrow> plain_name x"
  by (induction True out cs rule: clean_comps.induct) (auto simp: plain_name_def split: list.splits if_splits)

text \<open>The directory a path names: whether it is absolute, and its components.\<close>

definition dir_key :: "string \<Rightarrow> bool \<times> string list" where
  "dir_key dir = (HasPrefix dir ''/'', clean_comps (HasPrefix dir ''/'') [] (Split dir (CHR ''/'')))"

lemma Clean_key: "Clean dir = render_path (fst (dir_key dir)) (snd (dir_key dir))"
  by (simp add: Clean_def dir_key_def Let_def)

lemma dir_key_comps: "x \<in> set (snd (dir_key dir)) \<Longrightarrow> x \<noteq> '''' \<and> CHR ''/'' \<notin> set x"
  using clean_comps_ok [of "Split dir (CHR ''/'')" "[]" x] Split_no_sep by (auto simp: dir_key_def)

lemma dir_key_rooted: "fst (dir_key dir) \<Longrightarrow> x \<in> set (snd (dir_key dir)) \<Longrightarrow> plain_name x"
  using clean_comps_rooted [of "Split dir (CHR ''/'')" "[]" x] Split_no_sep by (auto simp: dir_key_def)

lemma HasPrefix_slash: "HasPrefix s ''/'' \<longleftrightarrow> (\<exists>t. s = CHR ''/'' # t)"
  by (auto simp: HasPrefix_iff)

lemma Join_entry:
  assumes "dir \<noteq> ''''" "plain_name n"
  shows "filepath_Join [dir, n] = render_path (fst (dir_key dir)) (snd (dir_key dir) @ [n])"
proof -
  have n: "n \<noteq> ''''" "CHR ''/'' \<notin> set n" using assms(2) by (auto simp: plain_name_def)
  have "HasPrefix (dir @ ''/'' @ n) ''/'' = HasPrefix dir ''/''"
    using assms(1) by (cases dir) (auto simp: HasPrefix_slash)
  moreover have "Split (dir @ ''/'' @ n) (CHR ''/'') = Split dir (CHR ''/'') @ [n]"
    using n by (simp add: Split_append Split_single)
  ultimately show ?thesis
    using assms n by (simp add: filepath_Join_def Clean_def dir_key_def Let_def clean_comps_snoc)
qed

lemma render_inj:
  assumes "render_path r cs = render_path r' cs'" "cs \<noteq> []" "cs' \<noteq> []"
    and ok: "\<forall>x \<in> set cs \<union> set cs'. x \<noteq> '''' \<and> CHR ''/'' \<notin> set x"
  shows "r = r' \<and> cs = cs'"
proof -
  have hd: "Join ds ''/'' \<noteq> CHR ''/'' # t"
    if ne: "ds \<noteq> []" and comps: "\<forall>x \<in> set ds. x \<noteq> '''' \<and> CHR ''/'' \<notin> set x" for ds t
  proof -
    obtain d ds' where ds: "ds = d # ds'" using ne by (cases ds) auto
    then obtain x d' where "d = x # d'" "x \<noteq> CHR ''/''" using comps by (cases d) auto
    then show ?thesis using ds by (cases ds') auto
  qed
  have r: "r = r'"
    using assms(1-3) hd [of cs "Join cs' ''/''"] hd [of cs' "Join cs ''/''"] ok
    by (cases r; cases r') (auto simp: render_path_def)
  then have "Join cs ''/'' = Join cs' ''/''" using assms(1-3) by (auto simp: render_path_def split: if_splits)
  moreover have "Split (Join cs ''/'') (CHR ''/'') = cs" "Split (Join cs' ''/'') (CHR ''/'') = cs'"
    using ok by (auto intro!: Split_Join assms(2,3))
  ultimately show ?thesis using r by metis
qed

lemma Join_entry_eq_iff:
  assumes "dir \<noteq> ''''" "dir' \<noteq> ''''" "plain_name n" "plain_name n'"
  shows "filepath_Join [dir, n] = filepath_Join [dir', n'] \<longleftrightarrow> dir_key dir = dir_key dir' \<and> n = n'"
proof -
  have ok: "\<forall>x \<in> set (snd (dir_key dir) @ [n]) \<union> set (snd (dir_key dir') @ [n']). x \<noteq> '''' \<and> CHR ''/'' \<notin> set x"
    using dir_key_comps assms(3,4) by (auto simp: plain_name_def)
  show ?thesis
    using render_inj [OF _ _ _ ok, of "fst (dir_key dir)" "fst (dir_key dir')"]
    by (auto simp: Join_entry assms prod_eq_iff)
qed

lemma last_slash: "CHR ''/'' \<notin> set n \<Longrightarrow> dropWhile (\<lambda>c. c \<noteq> CHR ''/'') (rev (p @ ''/'' @ n)) = CHR ''/'' # rev p"
  by (induction n rule: rev_induct) auto

lemma entry_split:
  assumes "fst (dir_key dir)" "dir \<noteq> ''''" "plain_name n"
  obtains p where "filepath_Join [dir, n] = p @ ''/'' @ n"
    "Clean (p @ ''/'') = Clean dir"
proof -
  let ?cs = "snd (dir_key dir)"
  have plain: "\<forall>c \<in> set ?cs. plain_name c" using dir_key_rooted [OF assms(1)] by blast
  show ?thesis
  proof (cases "?cs = []")
    case True
    then have "Clean dir = ''/''" using assms(1) by (simp add: Clean_key render_path_def)
    moreover have "Clean ''/'' = ''/''" by code_simp
    ultimately show ?thesis
      using assms True that [of "''''"] by (simp add: Join_entry render_path_def)
  next
    case False
    let ?p = "CHR ''/'' # Join ?cs ''/''"
    have "Split (?p @ ''/'') (CHR ''/'') = '''' # ?cs @ ['''']"
      using False plain by (simp add: Split_append Split_Join plain_name_def)
    moreover have "clean_comps True [] ('''' # ?cs @ ['''']) = ?cs"
    proof -
      have "clean_comps True out (cs @ ['''']) = rev out @ cs" if "\<forall>c \<in> set cs. plain_name c" for out cs
        using that by (induction cs arbitrary: out) (auto simp: plain_name_def)
      then show ?thesis using plain by simp
    qed
    ultimately have "Clean (?p @ ''/'') = render_path True ?cs" by (simp add: Clean_def Let_def HasPrefix_slash)
    then have "Clean (?p @ ''/'') = Clean dir" using assms(1) by (simp add: Clean_key [of dir])
    moreover have "filepath_Join [dir, n] = ?p @ ''/'' @ n"
      using assms False by (simp add: Join_entry render_path_def Join_snoc)
    ultimately show ?thesis using that by blast
  qed
qed

text \<open>Taking the path of an entry apart again gives the directory and the name.\<close>

lemma Dir_Base_entry:
  assumes "HasPrefix dir ''/''" "plain_name n"
  shows "filepath_Dir (filepath_Join [dir, n]) = Clean dir" "filepath_Base (filepath_Join [dir, n]) = n"
proof -
  have r: "fst (dir_key dir)" "dir \<noteq> ''''" using assms(1) by (auto simp: dir_key_def HasPrefix_slash)
  obtain p where p: "filepath_Join [dir, n] = p @ ''/'' @ n" "Clean (p @ ''/'') = Clean dir"
    using entry_split [OF r assms(2)] .
  have n: "n \<noteq> ''''" "CHR ''/'' \<notin> set n" using assms(2) by (auto simp: plain_name_def)
  show "filepath_Dir (filepath_Join [dir, n]) = Clean dir"
    using last_slash [OF n(2), of p] p by (simp add: filepath_Dir_def)
  have "dropWhile (\<lambda>c. c = CHR ''/'') (rev (p @ ''/'' @ n)) = rev (p @ ''/'' @ n)"
    using n by (cases n rule: rev_cases) auto
  moreover have "takeWhile (\<lambda>c. c \<noteq> CHR ''/'') (rev (p @ ''/'' @ n)) = rev n"
  proof -
    have "\<forall>x \<in> set (rev n). x \<noteq> CHR ''/''" using n(2) by auto
    then show ?thesis by (simp del: set_rev add: takeWhile_append2 [of "rev n"])
  qed
  ultimately show "filepath_Base (filepath_Join [dir, n]) = n"
    using p n by (simp add: filepath_Base_def Let_def)
qed

lemma tmp_plain: "plain_name n \<Longrightarrow> plain_name (''.tmp-'' @ n)"
  by (simp add: plain_name_def)

section \<open>Atomic writes\<close>

text \<open>The contents of a file, and the contents it had while a call ran.\<close>

definition content :: "FS \<Rightarrow> string \<Rightarrow> string option" where
  "content fs p = map_option fst (mget (fs_files fs) p)"

definition seen_contents :: "FS \<Rightarrow> string \<Rightarrow> string option list" where
  "seen_contents fs p = map (\<lambda>m. map_option fst (mget m p)) (fs_seen fs)"

definition fs_ok :: "FS \<Rightarrow> bool" where
  "fs_ok fs \<longleftrightarrow> mwf (fs_files fs)"

text \<open>A call that changes only the file at \<open>tmp\<close>: every other file keeps its contents, throughout.\<close>

definition only_touches :: "string \<Rightarrow> FS \<Rightarrow> FS \<Rightarrow> bool" where
  "only_touches tmp fs fs' \<longleftrightarrow> fs_ok fs' \<and> fs_dirs fs' = fs_dirs fs \<and>
     (\<forall>p. p \<noteq> tmp \<longrightarrow> content fs' p = content fs p \<and>
        (\<exists>cs. seen_contents fs' p = seen_contents fs p @ cs \<and> set cs \<subseteq> {content fs p}))"

lemma only_touches_refl: "fs_ok fs \<Longrightarrow> only_touches tmp fs fs"
  by (simp add: only_touches_def)

lemma only_touches_trans [trans]:
  assumes "only_touches tmp fs fs1" "only_touches tmp fs1 fs2"
  shows "only_touches tmp fs fs2"
proof -
  have "content fs2 p = content fs p \<and>
      (\<exists>cs. seen_contents fs2 p = seen_contents fs p @ cs \<and> set cs \<subseteq> {content fs p})" if p: "p \<noteq> tmp" for p
  proof -
    obtain cs where cs: "seen_contents fs1 p = seen_contents fs p @ cs" "set cs \<subseteq> {content fs p}" "content fs1 p = content fs p"
      using assms(1) p by (auto simp: only_touches_def)
    obtain ds where ds: "seen_contents fs2 p = seen_contents fs1 p @ ds" "set ds \<subseteq> {content fs1 p}" "content fs2 p = content fs1 p"
      using assms(2) p by (auto simp: only_touches_def)
    show ?thesis using cs ds by (intro conjI exI [of _ "cs @ ds"]) auto
  qed
  then show ?thesis using assms by (auto simp: only_touches_def)
qed

lemma set_files_touches:
  assumes "fs_ok fs" "mwf m" "\<And>p. p \<noteq> tmp \<Longrightarrow> mget m p = mget (fs_files fs) p"
  shows "only_touches tmp fs (set_files m fs)"
  using assms by (auto simp: only_touches_def set_files_def fs_ok_def content_def seen_contents_def)

lemma syscall_cases:
  obtains f fl where "syscall fs = (f, fs\<lparr>fs_faults := fl\<rparr>)"
proof (cases "fs_faults fs")
  case Nil
  then have "fs\<lparr>fs_faults := []\<rparr> = fs" by (cases fs) simp
  then show ?thesis using that [of NoFault "[]"] Nil by (simp add: syscall_def)
qed (auto simp: syscall_def intro: that)

lemma faults_touches: "fs_ok fs \<Longrightarrow> only_touches tmp fs (fs\<lparr>fs_faults := fl\<rparr>)"
  by (simp add: only_touches_def fs_ok_def content_def seen_contents_def)

lemma syscall_touches: "fs_ok fs \<Longrightarrow> syscall fs = (f, fs1) \<Longrightarrow> only_touches tmp fs fs1"
  using syscall_cases [of fs] faults_touches by (metis prod.inject)

lemma file_append_touches: "fs_ok fs \<Longrightarrow> only_touches p fs (file_append p data fs)"
  by (auto simp: file_append_def fs_ok_def only_touches_refl gm.wf_put split: option.splits intro!: set_files_touches)

lemma file_append_content: "content fs p = Some c \<Longrightarrow> content (file_append p data fs) p = Some (c @ data)"
  by (auto simp: file_append_def content_def set_files_def)

lemma touchesI:
  assumes "fs_ok fs" "\<And>f fs1. syscall fs = (f, fs1) \<Longrightarrow> only_touches tmp fs fs1 \<Longrightarrow> fs_ok fs1 \<Longrightarrow> only_touches tmp fs1 fs'"
  shows "only_touches tmp fs fs'"
proof (cases "syscall fs")
  case (Pair f fs1)
  then have t: "only_touches tmp fs fs1" using syscall_touches assms(1) by blast
  then have "only_touches tmp fs1 fs'" using assms(2) Pair by (simp add: only_touches_def)
  then show ?thesis using t only_touches_trans by blast
qed

lemma os_calls_touch:
  assumes "fs_ok fs"
  shows "only_touches p fs (snd (os_OpenTrunc p perm fs))" "only_touches p fs (snd (os_Write p data fs))"
    "only_touches q fs (snd (os_Sync p fs))" "only_touches q fs (snd (os_Close p fs))"
    "only_touches p fs (snd (os_Remove p fs))"
proof -
  show "only_touches p fs (snd (os_OpenTrunc p perm fs))"
    by (rule touchesI [OF assms]) (auto simp: os_OpenTrunc_def Let_def fs_ok_def gm.wf_put only_touches_refl
      split: fault.splits intro!: set_files_touches)
  show "only_touches p fs (snd (os_Write p data fs))"
    by (rule touchesI [OF assms]) (auto simp: os_Write_def split: fault.splits intro!: file_append_touches)
  show "only_touches q fs (snd (os_Sync p fs))" "only_touches q fs (snd (os_Close p fs))"
    by (rule touchesI [OF assms]; auto simp: os_Sync_def os_Close_def only_touches_refl split: fault.splits)+
  show "only_touches p fs (snd (os_Remove p fs))"
    by (rule touchesI [OF assms]) (auto simp: os_Remove_def fs_ok_def gm.wf_del gm.get_del only_touches_refl
      split: fault.splits option.splits intro!: set_files_touches)
qed

lemma syscall_content: "syscall fs = (f, fs1) \<Longrightarrow> fs_files fs1 = fs_files fs \<and> fs_seen fs1 = fs_seen fs"
  by (auto simp: syscall_def split: list.splits)

lemma os_calls_content:
  shows "os_OpenTrunc p perm fs = (None, fs') \<Longrightarrow> content fs' p = Some ''''"
    and "os_Write p data fs = (None, fs') \<Longrightarrow> content fs p = Some c \<Longrightarrow> content fs' p = Some (c @ data)"
    and "os_Sync p fs = (None, fs') \<Longrightarrow> content fs' = content fs"
    and "os_Close p fs = (None, fs') \<Longrightarrow> content fs' = content fs"
proof -
  show "os_OpenTrunc p perm fs = (None, fs') \<Longrightarrow> content fs' p = Some ''''"
    by (auto simp: os_OpenTrunc_def Let_def content_def set_files_def split: prod.splits fault.splits if_splits)
  show "os_Write p data fs = (None, fs') \<Longrightarrow> content fs p = Some c \<Longrightarrow> content fs' p = Some (c @ data)"
    by (auto simp: os_Write_def content_def file_append_def set_files_def dest!: syscall_content split: prod.splits fault.splits)
  show "os_Sync p fs = (None, fs') \<Longrightarrow> content fs' = content fs" "os_Close p fs = (None, fs') \<Longrightarrow> content fs' = content fs"
    by (auto simp: os_Sync_def os_Close_def content_def dest!: syscall_content split: prod.splits fault.splits)
qed

lemma os_Rename_spec:
  assumes "fs_ok fs" "old \<noteq> new" "os_Rename old new fs = (err, fs')"
  shows "fs_ok fs' \<and> fs_dirs fs' = fs_dirs fs \<and>
    content fs' new = (if err = None then content fs old else content fs new) \<and>
    (err = None \<longrightarrow> content fs old \<noteq> None \<and> content fs' old = None) \<and>
    (\<forall>p. p \<noteq> old \<longrightarrow> p \<noteq> new \<longrightarrow> content fs' p = content fs p) \<and>
    (\<exists>cs. seen_contents fs' new = seen_contents fs new @ cs \<and> set cs \<subseteq> {content fs old}) \<and>
    (\<forall>p. p \<noteq> old \<longrightarrow> p \<noteq> new \<longrightarrow> (\<exists>cs. seen_contents fs' p = seen_contents fs p @ cs \<and> set cs \<subseteq> {content fs p}))"
proof (cases "syscall fs")
  case (Pair f fs1)
  have fs1: "fs_files fs1 = fs_files fs" "fs_seen fs1 = fs_seen fs" "fs_dirs fs1 = fs_dirs fs"
    using Pair by (auto simp: syscall_def split: list.splits)
  show ?thesis
    using assms Pair fs1
    by (auto simp: os_Rename_def fs_ok_def content_def seen_contents_def set_files_def gm.wf_put gm.wf_del gm.get_del
      split: fault.splits option.splits)
qed

text \<open>Everything before the rename.\<close>

definition fill_tmp :: "string \<Rightarrow> string \<Rightarrow> nat \<Rightarrow> FS \<Rightarrow> FS \<Rightarrow> bool" where
  "fill_tmp tmp data perm fs fs3 \<longleftrightarrow> only_touches tmp fs fs3 \<and> content fs3 tmp = Some data"

lemma write_rename_phases:
  assumes ok: "fs_ok fs" and run: "write_rename tmp target data perm fs = (err, fs')"
  shows "err \<noteq> None \<and> only_touches tmp fs fs' \<or>
    (\<exists>fs3 fs4. fill_tmp tmp data perm fs fs3 \<and> os_Rename tmp target fs3 = (err, fs4) \<and> fs' = snd (os_Remove tmp fs4))"
proof (cases "os_OpenTrunc tmp perm fs")
  case (Pair e0 fs0)
  have t0: "only_touches tmp fs fs0" using os_calls_touch(1) [OF ok] Pair by (metis snd_conv)
  have step: "only_touches tmp fs (snd r)" if "only_touches tmp fs f" "only_touches tmp f (snd r)" for f r
    using that only_touches_trans by blast
  have okD: "only_touches tmp fs f \<Longrightarrow> fs_ok f" for f by (simp add: only_touches_def)
  note close = step [OF _ os_calls_touch(4)] and rm = step [OF _ os_calls_touch(5)]
  show ?thesis
  proof (cases e0)
    case (Some e)
    then have "err = Some e" "fs' = fs0" using run Pair by (auto simp: write_rename_def)
    then show ?thesis using t0 by simp
  next
    case None
    obtain e1 fs1 where w: "os_Write tmp data fs0 = (e1, fs1)" by force
    have t1: "only_touches tmp fs fs1" using step [OF t0 os_calls_touch(2) [OF okD [OF t0]]] w by (metis snd_conv)
    obtain e2 fs2 where s: "os_Sync tmp fs1 = (e2, fs2)" by force
    have t2: "only_touches tmp fs fs2" using step [OF t1 os_calls_touch(3) [OF okD [OF t1]]] s by (metis snd_conv)
    obtain e3 fs3 where c: "os_Close tmp fs2 = (e3, fs3)" by force
    have t3: "only_touches tmp fs fs3" using close [OF t2 okD [OF t2]] c by (metis snd_conv)
    note simps = write_rename_def Let_def Pair None w s c
    consider "e1 \<noteq> None" | "e1 = None" "e2 \<noteq> None" | "e1 = None" "e2 = None" "e3 \<noteq> None"
      | "e1 = None" "e2 = None" "e3 = None" by blast
    then show ?thesis
    proof cases
      case 1
      then have "err = e1" "fs' = snd (os_Remove tmp (snd (os_Close tmp fs1)))" using run by (auto simp: simps)
      then show ?thesis using 1 rm [OF close [OF t1 okD [OF t1]] okD [OF close [OF t1 okD [OF t1]]]] by simp
    next
      case 2
      then have "err = e2" "fs' = snd (os_Remove tmp (snd (os_Close tmp fs2)))" using run by (auto simp: simps)
      then show ?thesis using 2 rm [OF close [OF t2 okD [OF t2]] okD [OF close [OF t2 okD [OF t2]]]] by simp
    next
      case 3
      then have "err = e3" "fs' = snd (os_Remove tmp fs3)" using run by (auto simp: simps)
      then show ?thesis using 3 rm [OF t3 okD [OF t3]] by simp
    next
      case 4
      have "content fs3 tmp = Some data"
        using os_calls_content(1) [of tmp perm fs fs0] os_calls_content(2) [of tmp data fs0 fs1]
          os_calls_content(3) [of tmp fs1 fs2] os_calls_content(4) [of tmp fs2 fs3] Pair None w s c 4 by simp
      moreover obtain e4 fs4 where r: "os_Rename tmp target fs3 = (e4, fs4)" by force
      moreover from r have "err = e4" "fs' = snd (os_Remove tmp fs4)" using run 4 by (auto simp: simps)
      ultimately show ?thesis using t3 by (auto simp: fill_tmp_def)
    qed
  qed
qed

definition atomic_effect :: "string \<Rightarrow> string \<Rightarrow> string \<Rightarrow> fs_error option \<Rightarrow> FS \<Rightarrow> FS \<Rightarrow> bool" where
  "atomic_effect tmp target data err fs fs' \<longleftrightarrow> fs_ok fs' \<and> fs_dirs fs' = fs_dirs fs \<and>
     content fs' target = (if err = None then Some data else content fs target) \<and>
     (\<exists>cs. seen_contents fs' target = seen_contents fs target @ cs \<and> set cs \<subseteq> {content fs target, Some data}) \<and>
     (err = None \<longrightarrow> content fs' tmp = None) \<and>
     (\<forall>p. p \<noteq> target \<longrightarrow> p \<noteq> tmp \<longrightarrow> content fs' p = content fs p \<and>
        (\<exists>cs. seen_contents fs' p = seen_contents fs p @ cs \<and> set cs \<subseteq> {content fs p}))"

lemma tmp_not_target:
  assumes "dir \<noteq> ''''" "plain_name name"
  shows "filepath_Join [dir, ''.tmp-'' @ name] \<noteq> filepath_Join [dir, name]"
  using Join_entry_eq_iff [OF assms(1) assms(1) tmp_plain [OF assms(2)] assms(2)] by simp

lemma os_Remove_absent:
  assumes "content fs p = None"
  shows "\<exists>fl. snd (os_Remove p fs) = fs\<lparr>fs_faults := fl\<rparr>"
proof -
  obtain f fl where "syscall fs = (f, fs\<lparr>fs_faults := fl\<rparr>)" using syscall_cases .
  then show ?thesis using assms by (cases f) (auto simp: os_Remove_def content_def)
qed

lemma only_touches_trans_frame:
  assumes "only_touches tmp fs fs1" "p \<noteq> tmp"
  shows "content fs1 p = content fs p" "\<exists>cs. seen_contents fs1 p = seen_contents fs p @ cs \<and> set cs \<subseteq> {content fs p}"
  using assms by (auto simp: only_touches_def)

lemma write_rename_atomic:
  assumes ok: "fs_ok fs" and ne: "tmp \<noteq> target" and run: "write_rename tmp target data perm fs = (err, fs')"
  shows "atomic_effect tmp target data err fs fs'"
  using write_rename_phases [OF ok run]
proof (elim disjE exE conjE)
  assume e: "err \<noteq> None" and t: "only_touches tmp fs fs'"
  obtain cs where "seen_contents fs' target = seen_contents fs target @ cs" "set cs \<subseteq> {content fs target}"
    using only_touches_trans_frame(2) [OF t ne [symmetric]] by blast
  then show ?thesis
    using e t ne by (auto simp: atomic_effect_def only_touches_def intro!: exI [of _ cs])
next
  fix fs3 fs4
  assume f: "fill_tmp tmp data perm fs fs3" and r: "os_Rename tmp target fs3 = (err, fs4)"
    and fs': "fs' = snd (os_Remove tmp fs4)"
  have t: "only_touches tmp fs fs3" and d: "content fs3 tmp = Some data" using f by (simp_all add: fill_tmp_def)
  have ok3: "fs_ok fs3" using t by (simp add: only_touches_def)
  note spec = os_Rename_spec [OF ok3 ne r]
  then have t': "only_touches tmp fs4 fs'" using os_calls_touch(5) [of fs4 tmp] fs' by simp
  have tmp: "content fs' tmp = None" if "err = None"
    using os_Remove_absent [of fs4 tmp] spec that fs' by (auto simp: content_def)
  obtain as where as: "seen_contents fs3 target = seen_contents fs target @ as" "set as \<subseteq> {content fs target}"
    using only_touches_trans_frame(2) [OF t ne [symmetric]] by blast
  obtain bs where bs: "seen_contents fs4 target = seen_contents fs3 target @ bs" "set bs \<subseteq> {Some data}"
    using spec d by auto
  obtain cs where cs: "seen_contents fs' target = seen_contents fs4 target @ cs" "set cs \<subseteq> {content fs4 target}"
    using only_touches_trans_frame(2) [OF t' ne [symmetric]] by blast
  have target: "content fs' target = (if err = None then Some data else content fs target)"
    "content fs4 target = (if err = None then Some data else content fs target)"
    using spec d only_touches_trans_frame(1) [OF t ne [symmetric]] only_touches_trans_frame(1) [OF t' ne [symmetric]] by auto
  have seen: "\<exists>cs. seen_contents fs' target = seen_contents fs target @ cs \<and> set cs \<subseteq> {content fs target, Some data}"
    using as bs cs target by (intro exI [of _ "as @ bs @ cs"]) (auto split: if_splits)
  have "content fs' p = content fs p \<and> (\<exists>cs. seen_contents fs' p = seen_contents fs p @ cs \<and> set cs \<subseteq> {content fs p})"
    if p: "p \<noteq> target" "p \<noteq> tmp" for p
  proof -
    obtain as where as: "seen_contents fs3 p = seen_contents fs p @ as" "set as \<subseteq> {content fs p}"
      using only_touches_trans_frame(2) [OF t p(2)] by blast
    obtain bs where bs: "seen_contents fs4 p = seen_contents fs3 p @ bs" "set bs \<subseteq> {content fs3 p}"
      using spec p by blast
    obtain cs where cs: "seen_contents fs' p = seen_contents fs4 p @ cs" "set cs \<subseteq> {content fs4 p}"
      using only_touches_trans_frame(2) [OF t' p(2)] by blast
    have "content fs3 p = content fs p" "content fs4 p = content fs p" "content fs' p = content fs p"
      using spec p only_touches_trans_frame(1) [OF t p(2)] only_touches_trans_frame(1) [OF t' p(2)] by auto
    then show ?thesis using as bs cs by (intro conjI exI [of _ "as @ bs @ cs"]) auto
  qed
  then show ?thesis
    using target(1) seen tmp t t' spec unfolding atomic_effect_def only_touches_def by auto
qed

section \<open>The contract of a directory written atomically\<close>

text \<open>Writing a list of files one after the other, up to the first error.\<close>

fun write_files :: "(string \<Rightarrow> string \<Rightarrow> 'f \<Rightarrow> 'e option \<times> 'f) \<Rightarrow> (string \<times> string) list \<Rightarrow> 'f \<Rightarrow> 'e option \<times> 'f" where
  "write_files write [] fs = (None, fs)"
| "write_files write ((name, data) # files) fs =
     (case write name data fs of
        (Some err, fs) \<Rightarrow> (Some err, fs)
      | (None, fs) \<Rightarrow> write_files write files fs)"

locale atomic_dir =
  fixes wr :: "string \<Rightarrow> string \<Rightarrow> 'f \<Rightarrow> 'e option \<times> 'f"
    and rd :: "'f \<Rightarrow> string \<Rightarrow> string option"
    and names :: "string \<Rightarrow> bool"
    and ok :: "'f \<Rightarrow> bool"
  assumes write_ok: "ok s \<Longrightarrow> names n \<Longrightarrow> wr n d s = (e, s') \<Longrightarrow> ok s'"
    and read_written: "ok s \<Longrightarrow> names n \<Longrightarrow> wr n d s = (e, s') \<Longrightarrow>
      rd s' n = (if e = None then Some d else rd s n)"
    and read_other: "ok s \<Longrightarrow> names n \<Longrightarrow> names m \<Longrightarrow> m \<noteq> n \<Longrightarrow> wr n d s = (e, s') \<Longrightarrow> rd s' m = rd s m"
begin

text \<open>After any run, the files up to some point are new and all others are as before.\<close>

lemma write_files_prefix:
  assumes "ok s" "list_all (\<lambda>(n, _). names n) fl" "write_files wr fl s = (e, s')" "distinct (map fst fl)"
  shows "ok s' \<and> (\<exists>k \<le> length fl. (e = None \<longrightarrow> k = length fl) \<and>
    (\<forall>m. names m \<longrightarrow> rd s' m = (case map_of (take k fl) m of None \<Rightarrow> rd s m | Some d \<Rightarrow> Some d)))"
  using assms
proof (induction fl arbitrary: s)
  case Nil
  then show ?case by simp
next
  case (Cons nd fl)
  obtain n d where nd: "nd = (n, d)" by force
  obtain e1 s1 where w: "wr n d s = (e1, s1)" by force
  have n: "names n" using Cons.prems(2) nd by simp
  have ok1: "ok s1" using write_ok [OF Cons.prems(1) n w] .
  show ?case
  proof (cases e1)
    case (Some err)
    then have "e = Some err" "s' = s1" using Cons.prems(3) nd w by auto
    moreover have "rd s1 m = rd s m" if "names m" for m
      using read_written [OF Cons.prems(1) n w] read_other [OF Cons.prems(1) n that _ w] Some by (cases "m = n") auto
    ultimately show ?thesis using ok1 by (auto intro!: exI [of _ 0])
  next
    case None
    then have "write_files wr fl s1 = (e, s')" using Cons.prems(3) nd w by simp
    then obtain k where k: "ok s'" "k \<le> length fl" "e = None \<longrightarrow> k = length fl"
      "\<And>m. names m \<Longrightarrow> rd s' m = (case map_of (take k fl) m of None \<Rightarrow> rd s1 m | Some d \<Rightarrow> Some d)"
      using Cons.IH [OF ok1] Cons.prems(2,4) by auto
    have "rd s' m = (case map_of (take (Suc k) (nd # fl)) m of None \<Rightarrow> rd s m | Some d \<Rightarrow> Some d)" if m: "names m" for m
    proof (cases "m = n")
      case True
      then have "map_of (take k fl) m = None"
        using Cons.prems(4) nd by (auto simp: map_of_eq_None_iff dest: in_set_takeD)
      then show ?thesis using k(4) [OF m] read_written [OF Cons.prems(1) n w] None nd True by simp
    next
      case False
      then show ?thesis using k(4) [OF m] read_other [OF Cons.prems(1) n m False w] nd by (simp split: option.split)
    qed
    then show ?thesis using k(1-3) by (intro conjI exI [of _ "Suc k"]) auto
  qed
qed

lemma write_files_all:
  assumes "ok s" "list_all (\<lambda>(n, _). names n) fl" "write_files wr fl s = (None, s')" "distinct (map fst fl)"
    and "(n, d) \<in> set fl"
  shows "rd s' n = Some d"
proof -
  have "names n" using assms(2,5) by (auto simp: list_all_iff)
  moreover have "map_of fl n = Some d" using assms(4,5) by simp
  ultimately show ?thesis using write_files_prefix [OF assms(1-4)] by fastforce
qed

end

lemma os_ReadFile_content:
  assumes "fs_faults fs = []" "content fs p = Some d"
  shows "os_ReadFile p fs = (Inr d, fs)"
  using assms by (auto simp: os_ReadFile_def syscall_def content_def split: option.splits)

lemma os_MkdirAll_fs_ok: "fs_ok fs \<Longrightarrow> fs_ok (snd (os_MkdirAll p fs))"
  by (auto simp: os_MkdirAll_def fs_ok_def dest!: syscall_content split: prod.splits fault.splits)

lemma os_ReadFile_fs_ok: "fs_ok fs \<Longrightarrow> fs_ok (snd (os_ReadFile p fs))"
  by (auto simp: os_ReadFile_def fs_ok_def dest!: syscall_content split: prod.splits fault.splits option.splits)

definition dir_file :: "string \<Rightarrow> string \<Rightarrow> bool" where
  "dir_file dir n \<longleftrightarrow> dir \<noteq> '''' \<and> plain_name n \<and> \<not> HasPrefix n ''.tmp-''"

lemma WriteFileAtomic_effect:
  assumes "fs_ok fs" "dir \<noteq> ''''" "plain_name name" "WriteFileAtomic dir name data perm fs = (err, fs')"
  shows "atomic_effect (filepath_Join [dir, ''.tmp-'' @ name]) (filepath_Join [dir, name]) data err fs fs'"
  by (rule write_rename_atomic [OF assms(1) tmp_not_target [OF assms(2,3)]])
    (use assms(4) in \<open>simp only: WriteFileAtomic_def Let_def\<close>)

lemma other_entry:
  assumes "dir_file dir n" "dir_file dir m" "m \<noteq> n"
  shows "filepath_Join [dir, m] \<noteq> filepath_Join [dir, n]" "filepath_Join [dir, m] \<noteq> filepath_Join [dir, ''.tmp-'' @ n]"
proof -
  have p: "dir \<noteq> ''''" "plain_name n" "plain_name m" using assms by (auto simp: dir_file_def)
  have "m \<noteq> ''.tmp-'' @ n"
  proof
    assume "m = ''.tmp-'' @ n"
    then have "HasPrefix m ''.tmp-''" by (simp only: HasPrefix_append)
    then show False using assms(2) unfolding dir_file_def by blast
  qed
  then show "filepath_Join [dir, m] \<noteq> filepath_Join [dir, n]" "filepath_Join [dir, m] \<noteq> filepath_Join [dir, ''.tmp-'' @ n]"
    using Join_entry_eq_iff [OF p(1) p(1) p(3) p(2)] Join_entry_eq_iff [OF p(1) p(1) p(3) tmp_plain [OF p(2)]] assms(3)
    by blast+
qed

interpretation ad: atomic_dir "\<lambda>n d. WriteFileAtomic dir n d perm" "\<lambda>fs n. content fs (filepath_Join [dir, n])"
  "dir_file dir" fs_ok for dir perm
proof unfold_locales
  fix s n d e s' m
  assume a: "fs_ok s" "dir_file dir n" "WriteFileAtomic dir n d perm s = (e, s')"
  then have p: "dir \<noteq> ''''" "plain_name n" by (auto simp: dir_file_def)
  note eff = WriteFileAtomic_effect [OF a(1) p a(3), unfolded atomic_effect_def]
  show "fs_ok s'" using eff by (elim conjE)
  show "content s' (filepath_Join [dir, n]) = (if e = None then Some d else content s (filepath_Join [dir, n]))"
    using eff by (elim conjE)
  show "content s' (filepath_Join [dir, m]) = content s (filepath_Join [dir, m])" if "dir_file dir m" "m \<noteq> n"
    using eff other_entry [OF a(2) that] by metis
qed

section \<open>Calls that do not fail\<close>

definition no_faults :: "FS \<Rightarrow> bool" where
  "no_faults fs \<longleftrightarrow> fs_faults fs = []"

lemma syscall_ok: "no_faults fs \<Longrightarrow> syscall fs = (NoFault, fs)"
  by (simp add: no_faults_def syscall_def)

lemma set_files_no_faults [simp]: "no_faults (set_files m fs) = no_faults fs" "fs_dirs (set_files m fs) = fs_dirs fs"
  by (simp_all add: no_faults_def set_files_def)

lemma file_append_no_faults [simp]: "no_faults (file_append p d fs) = no_faults fs" "fs_dirs (file_append p d fs) = fs_dirs fs"
  by (simp_all add: file_append_def split: option.splits)

lemma write_rename_succeeds:
  assumes nf: "no_faults fs" and dir: "filepath_Dir tmp \<in> set (fs_dirs fs)" and ok: "fs_ok fs" and ne: "tmp \<noteq> target"
  shows "\<exists>fs'. write_rename tmp target data perm fs = (None, fs') \<and> no_faults fs' \<and>
    mput tmp ('''', case mget (fs_files fs) tmp of None \<Rightarrow> perm | Some (_, m) \<Rightarrow> m) (fs_files fs) \<in> set (fs_seen fs')"
proof -
  let ?mode = "case mget (fs_files fs) tmp of None \<Rightarrow> perm | Some (_, m) \<Rightarrow> m"
  let ?m0 = "mput tmp ('''', ?mode) (fs_files fs)"
  define fs0 where "fs0 = set_files ?m0 fs"
  have o: "os_OpenTrunc tmp perm fs = (None, fs0)" "no_faults fs0"
    using nf dir by (simp_all add: os_OpenTrunc_def syscall_ok Let_def fs0_def)
  define fs1 where "fs1 = file_append tmp data fs0"
  have w: "os_Write tmp data fs0 = (None, fs1)" "no_faults fs1" using o(2) by (simp_all add: os_Write_def syscall_ok fs1_def)
  have s: "os_Sync tmp fs1 = (None, fs1)" "os_Close tmp fs1 = (None, fs1)" using w(2) by (simp_all add: os_Sync_def os_Close_def syscall_ok)
  have f1: "mget (fs_files fs1) tmp = Some (data, ?mode)" "?m0 \<in> set (fs_seen fs1)" by (simp_all add: fs1_def fs0_def file_append_def set_files_def)
  define fs2 where "fs2 = set_files (mput target (data, ?mode) (mdel tmp (fs_files fs1))) fs1"
  have r: "os_Rename tmp target fs1 = (None, fs2)" "no_faults fs2" using w(2) f1 by (simp_all add: os_Rename_def syscall_ok fs2_def)
  have "mwf (fs_files fs1)" using ok by (simp add: fs1_def fs0_def file_append_def set_files_def fs_ok_def gm.wf_put)
  then have "mget (fs_files fs2) tmp = None" using ne by (simp add: fs2_def set_files_def gm.get_del)
  then have "snd (os_Remove tmp fs2) = fs2" using r(2) by (simp add: os_Remove_def syscall_ok)
  then have "write_rename tmp target data perm fs = (None, fs2)" using o w s r by (simp add: write_rename_def)
  moreover have "?m0 \<in> set (fs_seen fs2)" using f1(2) by (simp add: fs2_def set_files_def)
  ultimately show ?thesis using r(2) by blast
qed

lemma os_ReadFile_nf:
  "no_faults fs \<Longrightarrow> os_ReadFile p fs = (case content fs p of None \<Rightarrow> (Inl (no_such ''open'' p), fs) | Some d \<Rightarrow> (Inr d, fs))"
  by (auto simp: os_ReadFile_def syscall_ok content_def split: option.splits)

lemma path_prefixes_self: "Clean p \<in> set (path_prefixes p)"
proof -
  let ?r = "HasPrefix p ''/''" and ?cs = "clean_comps (HasPrefix p ''/'') [] (Split p (CHR ''/''))"
  show ?thesis
    unfolding path_prefixes_def Let_def set_map
    by (rule image_eqI [where x = "length ?cs"]) (simp_all add: Clean_def Let_def)
qed

lemma os_MkdirAll_nf: "no_faults fs \<Longrightarrow> os_MkdirAll p fs = (None, fs\<lparr>fs_dirs := fs_dirs fs @ path_prefixes p\<rparr>)"
  by (simp add: os_MkdirAll_def syscall_ok)

lemma os_ReadDir_nf:
  assumes "no_faults fs" "Clean dir = dir" "dir \<in> set (fs_dirs fs)"
  obtains names where "os_ReadDir dir fs = (Inr names, fs)"
    "set names = filepath_Base ` {p. content fs p \<noteq> None \<and> filepath_Dir p = dir}"
proof
  let ?names = "sort (map filepath_Base (filter (\<lambda>p. filepath_Dir p = dir) (mkeys (fs_files fs))))"
  show "os_ReadDir dir fs = (Inr ?names, fs)" using assms by (simp add: os_ReadDir_def syscall_ok)
  have "p \<in> set (mkeys (fs_files fs)) \<longleftrightarrow> content fs p \<noteq> None" for p
    unfolding gm.set_keys by (simp add: content_def)
  then show "set ?names = filepath_Base ` {p. content fs p \<noteq> None \<and> filepath_Dir p = dir}" by auto
qed

lemma WriteFileAtomic_succeeds:
  assumes "no_faults fs" "fs_ok fs" "HasPrefix dir ''/''" "Clean dir \<in> set (fs_dirs fs)" "plain_name name"
  obtains fs' where "WriteFileAtomic dir name data perm fs = (None, fs')" "no_faults fs'" "fs_ok fs'" "fs_dirs fs' = fs_dirs fs"
    "content fs' (filepath_Join [dir, name]) = Some data"
    "\<forall>p. p \<noteq> filepath_Join [dir, name] \<longrightarrow> p \<noteq> filepath_Join [dir, ''.tmp-'' @ name] \<longrightarrow> content fs' p = content fs p"
proof -
  let ?tmp = "filepath_Join [dir, ''.tmp-'' @ name]"
  have dir: "dir \<noteq> ''''" using assms(3) by (auto simp: HasPrefix_def)
  have "filepath_Dir ?tmp \<in> set (fs_dirs fs)" using Dir_Base_entry(1) [OF assms(3) tmp_plain [OF assms(5)]] assms(4) by simp
  then obtain fs' where w: "WriteFileAtomic dir name data perm fs = (None, fs')" "no_faults fs'"
    using write_rename_succeeds [OF assms(1) _ assms(2) tmp_not_target [OF dir assms(5)], of data perm]
    unfolding WriteFileAtomic_def Let_def by blast
  show thesis
    by (rule that [OF w]) (use WriteFileAtomic_effect [OF assms(2) dir assms(5) w(1)] in \<open>simp_all add: atomic_effect_def\<close>)
qed

section \<open>Properties of atomic writes\<close>

text \<open>C19: An atomic write that reports success has replaced the contents of its target, and one that
  reports an error has left it alone.  At every moment in between, whichever call failed and however
  much of the data had been written, the target held its old or its new contents.  No file other
  than the target and the temporary file changes.\<close>

theorem WriteFileAtomic_atomic:
  assumes "fs_ok fs" and "dir \<noteq> ''''" and "plain_name name"
    and "WriteFileAtomic dir name data perm fs = (err, fs')"
  shows "content fs' (filepath_Join [dir, name]) =
      (if err = None then Some data else content fs (filepath_Join [dir, name])) \<and>
    (\<exists>cs. seen_contents fs' (filepath_Join [dir, name]) = seen_contents fs (filepath_Join [dir, name]) @ cs \<and>
       set cs \<subseteq> {content fs (filepath_Join [dir, name]), Some data}) \<and>
    (\<forall>p. p \<noteq> filepath_Join [dir, name] \<longrightarrow> p \<noteq> filepath_Join [dir, ''.tmp-'' @ name] \<longrightarrow>
       content fs' p = content fs p)"
  using WriteFileAtomic_effect [OF assms] unfolding atomic_effect_def by (elim conjE) (intro conjI allI impI; blast)

definition ex_fs :: FS where
  "ex_fs = \<lparr>fs_files = [(''/d/f'', ''old'', 384)], fs_dirs = [''/'', ''/d''],
     fs_faults = [NoFault, Fault ''no space left on device'' 2], fs_seen = []\<rparr>"

theorem WriteFileAtomic_atomic_witness:
  "fst (WriteFileAtomic ''/d'' ''f'' ''new'' 384 ex_fs) = Some (Errno ''write /d/.tmp-f: no space left on device'') \<and>
   content (snd (WriteFileAtomic ''/d'' ''f'' ''new'' 384 ex_fs)) ''/d/f'' = Some ''old'' \<and>
   seen_contents (snd (WriteFileAtomic ''/d'' ''f'' ''new'' 384 ex_fs)) ''/d/.tmp-f'' = [Some '''', Some ''ne'', None]"
proof -
  let ?r = "WriteFileAtomic ''/d'' ''f'' ''new'' 384 ex_fs"
  have j: "filepath_Join [''/d'', ''f''] = ''/d/f''" by code_simp
  have "fs_ok ex_fs" "''/d'' \<noteq> ''''" "plain_name ''f''" by code_simp+
  note a = WriteFileAtomic_atomic [OF this prod.collapse [symmetric, of ?r], THEN conjunct1]
  have e: "fst ?r = Some (Errno ''write /d/.tmp-f: no space left on device'')" by code_simp
  have "content ex_fs ''/d/f'' = Some ''old''" by code_simp
  then have "content (snd ?r) ''/d/f'' = Some ''old''" using a e unfolding j by simp
  moreover have "seen_contents (snd ?r) ''/d/.tmp-f'' = [Some '''', Some ''ne'', None]" by code_simp
  ultimately show ?thesis using e by blast
qed

end
