(* ===== verification/GoHttp.thy ===== *)
theory GoHttp
  imports Files
begin

text \<open>
  The parts of \<open>net/http\<close> and \<open>net/url\<close> that decide which handler of the local node API serves a
  request: percent-decoding, the escaped and the decoded path of a request, and the pattern matching
  of \<open>http.ServeMux\<close>, which splits the escaped path into segments and decodes each of them, while
  the middlewares look at the decoded path.
\<close>

section \<open>net/url\<close>

definition hex_val :: "char \<Rightarrow> nat option" where
  "hex_val c =
     (let n = of_char c :: nat in
      if 48 \<le> n \<and> n \<le> 57 then Some (n - 48)
      else if 97 \<le> n \<and> n \<le> 102 then Some (n - 87)
      else if 65 \<le> n \<and> n \<le> 70 then Some (n - 55)
      else None)"

fun unescape :: "string \<Rightarrow> string option" where
  "unescape [] = Some []"
| "unescape (c # s) =
     (if c = CHR ''%'' then
        (case s of
           a # b # r \<Rightarrow>
             (case (hex_val a, hex_val b, unescape r) of
                (Some x, Some y, Some p) \<Rightarrow> Some (char_of (16 * x + y) # p)
              | _ \<Rightarrow> None)
         | _ \<Rightarrow> None)
      else map_option (\<lambda>p. c # p) (unescape s))"

text \<open>\<open>pathUnescape\<close> of the multiplexer: a segment that cannot be decoded stands for itself.\<close>

definition pathUnescape :: "string \<Rightarrow> string" where
  "pathUnescape s = (case unescape s of None \<Rightarrow> s | Some p \<Rightarrow> p)"

section \<open>Requests\<close>

text \<open>The fields that the node API reads; \<open>rq_cred\<close> is the value of the connection's context.\<close>

record PeerCredentials =
  pc_PID :: nat
  pc_UID :: nat
  pc_GID :: nat

record Request =
  rq_Method :: string
  rq_EscapedPath :: string
  rq_Authorization :: string
  rq_IfMatch :: string
  rq_Body :: string
  rq_cred :: "PeerCredentials option"

text \<open>The decoded path is the one the escaped path stands for.\<close>

definition URL_Path :: "Request \<Rightarrow> string" where
  "URL_Path r = pathUnescape (rq_EscapedPath r)"

section \<open>ServeMux\<close>

definition cleanPath :: "string \<Rightarrow> string" where
  "cleanPath p =
     (if p = '''' then ''/''
      else let p = (if hd p \<noteq> CHR ''/'' then CHR ''/'' # p else p);
               np = Clean p
           in if last p = CHR ''/'' \<and> np \<noteq> ''/'' then np @ ''/'' else np)"

text \<open>The segments of a path, decoded; a trailing slash counts as the segment \<open>/\<close>.\<close>

definition path_segments :: "string \<Rightarrow> string list" where
  "path_segments path =
     (let segs = tl (Split path (CHR ''/''))
      in if segs = [] then []
         else map pathUnescape (butlast segs) @ [if last segs = [] then ''/'' else pathUnescape (last segs)])"

abbreviation wildcard :: string where "wildcard \<equiv> ''{key}''"

text \<open>The values of the wildcards of a pattern, if the segments match it.\<close>

fun match_segments :: "string list \<Rightarrow> string list \<Rightarrow> string list option" where
  "match_segments [] [] = Some []"
| "match_segments (p # ps) (s # ss) =
     (if p = wildcard then if s = ''/'' then None else map_option (\<lambda>m. s # m) (match_segments ps ss)
      else if p = s then match_segments ps ss else None)"
| "match_segments _ _ = None"

datatype 'e mux_result = Found 'e "string list" | Redirect string | MethodNotAllowed | NoSuchPage

text \<open>A multiplexer is the list of its patterns, none of which is matched by a path that another one
  with the same method matches; \<open>GET\<close> patterns also serve \<open>HEAD\<close>.\<close>

type_synonym 'e mux = "(string \<times> string list \<times> 'e) list"

fun mux_find :: "'e mux \<Rightarrow> (string \<Rightarrow> bool) \<Rightarrow> string list \<Rightarrow> ('e \<times> string list) option" where
  "mux_find [] okm segs = None"
| "mux_find ((m, pat, e) # ps) okm segs =
     (case (okm m, match_segments pat segs) of
        (True, Some vs) \<Rightarrow> Some (e, vs)
      | _ \<Rightarrow> mux_find ps okm segs)"

definition findHandler :: "'e mux \<Rightarrow> Request \<Rightarrow> 'e mux_result" where
  "findHandler mux r =
     (let path = (if rq_Method r = ''CONNECT'' then rq_EscapedPath r else cleanPath (rq_EscapedPath r));
          segs = path_segments path
      in if path \<noteq> rq_EscapedPath r then Redirect path
         else case mux_find mux (\<lambda>m. m = rq_Method r \<or> (rq_Method r = ''HEAD'' \<and> m = ''GET'')) segs of
           Some (e, vs) \<Rightarrow> Found e vs
         | None \<Rightarrow> (case mux_find mux (\<lambda>m. True) segs of Some _ \<Rightarrow> MethodNotAllowed | None \<Rightarrow> NoSuchPage))"

section \<open>The decoded path of a matched request\<close>

lemma unescape_slash:
  "unescape (a @ CHR ''/'' # b) =
     (case (unescape a, unescape b) of (Some x, Some y) \<Rightarrow> Some (x @ CHR ''/'' # y) | _ \<Rightarrow> None)"
proof (induction a rule: unescape.induct)
  case 1
  then show ?case by (cases "unescape b") simp_all
next
  case (2 c s)
  have slash: "hex_val (CHR ''/'') = None" by code_simp
  show ?case
  proof (cases "c = CHR ''%''")
    case False
    then show ?thesis using 2(2) by (simp split: option.splits)
  next
    case True
    consider "s = []" | x where "s = [x]" | x y r where "s = x # y # r" by (cases s; cases "tl s") auto
    then show ?thesis
    proof cases
      case 1
      then show ?thesis using True slash by (cases b) simp_all
    next
      case (2 x)
      then show ?thesis using True slash by (simp split: option.splits)
    next
      case (3 x y r)
      then show ?thesis using True 2(1) [OF True 3 refl] by (simp split: option.splits)
    qed
  qed
qed

lemma unescape_Join:
  assumes "unescape (Join (s # ss) ''/'') \<noteq> None"
  shows "pathUnescape (Join (s # ss) ''/'') = Join (map pathUnescape (s # ss)) ''/''"
    and "\<forall>x \<in> set (s # ss). unescape x \<noteq> None"
proof -
  have "unescape (Join (s # ss) ''/'') \<noteq> None \<Longrightarrow> unescape (Join (s # ss) ''/'') = Some (Join (map pathUnescape (s # ss)) ''/'') \<and>
      (\<forall>x \<in> set (s # ss). unescape x \<noteq> None)"
  proof (induction ss arbitrary: s)
    case Nil
    then show ?case by (auto simp: pathUnescape_def split: option.splits)
  next
    case (Cons t ss)
    then obtain x y where "unescape s = Some x" "unescape (Join (t # ss) ''/'') = Some y"
      by (auto simp: unescape_slash split: option.splits)
    then show ?case using Cons.IH [of t] by (simp add: unescape_slash pathUnescape_def)
  qed
  then show "pathUnescape (Join (s # ss) ''/'') = Join (map pathUnescape (s # ss)) ''/''" "\<forall>x \<in> set (s # ss). unescape x \<noteq> None"
    using assms by (auto simp: pathUnescape_def [of "Join (s # ss) ''/''"])
qed

text \<open>The segments of a path that does not end in a slash determine the decoded path.\<close>

lemma path_segments_Join:
  assumes "HasPrefix p ''/''" and "unescape p \<noteq> None" and "path_segments p = segs" and "last segs \<noteq> ''/''"
  shows "pathUnescape p = CHR ''/'' # Join segs ''/''"
proof -
  obtain q where p: "p = CHR ''/'' # q" using assms(1) by (auto simp: HasPrefix_iff)
  obtain s ss where sp: "Split q (CHR ''/'') = s # ss" using Split_nonempty [of q] by (cases "Split q (CHR ''/'')") auto
  have q: "q = Join (s # ss) ''/''" using Join_Split [of q "CHR ''/''"] sp by simp
  let ?l = "last (s # ss)"
  have ps: "segs = map pathUnescape (butlast (s # ss)) @ [if ?l = [] then ''/'' else pathUnescape ?l]"
    using assms(3) p sp by (simp add: path_segments_def)
  then have "?l \<noteq> []" using assms(4) by (metis last_snoc)
  then have "segs = map pathUnescape (butlast (s # ss) @ [?l])" using ps by simp
  then have segs: "segs = map pathUnescape (s # ss)" by (simp only: append_butlast_last_id list.distinct not_False_eq_True)
  have "unescape q \<noteq> None" using assms(2) p unescape_slash [of "[]" q] by (auto split: option.splits)
  then show ?thesis
    using unescape_Join(1) [of s ss] unescape_slash [of "[]" q] assms(2) unfolding segs q [symmetric] p
    by (auto simp: pathUnescape_def split: option.splits)
qed

lemma cleanPath_rooted: "HasPrefix (cleanPath p) ''/''"
  by (auto simp: cleanPath_def Clean_def render_path_def HasPrefix_def Let_def neq_Nil_conv)

lemma mux_find_Some:
  "mux_find mux okm segs = Some (e, vs) \<Longrightarrow> \<exists>m pat. (m, pat, e) \<in> set mux \<and> okm m \<and> match_segments pat segs = Some vs"
proof (induction mux)
  case (Cons p mux)
  obtain m pat e' where p: "p = (m, pat, e')" by (cases p)
  show ?case
  proof (cases "okm m \<and> match_segments pat segs \<noteq> None")
    case True
    then have "e' = e" "match_segments pat segs = Some vs" using Cons.prems p by auto
    then show ?thesis using True p by auto
  next
    case False
    then have "mux_find mux okm segs = Some (e, vs)" using Cons.prems p by (auto split: bool.splits option.splits)
    then show ?thesis using Cons.IH by auto
  qed
qed simp

lemma findHandler_Found:
  assumes "findHandler mux r = Found e vs"
  obtains m pat where "(m, pat, e) \<in> set mux" "m = rq_Method r \<or> (rq_Method r = ''HEAD'' \<and> m = ''GET'')"
    "match_segments pat (path_segments (rq_EscapedPath r)) = Some vs"
    "rq_Method r \<noteq> ''CONNECT'' \<longrightarrow> HasPrefix (rq_EscapedPath r) ''/''"
proof -
  have c: "rq_Method r \<noteq> ''CONNECT'' \<Longrightarrow> cleanPath (rq_EscapedPath r) = rq_EscapedPath r"
    and f: "mux_find mux (\<lambda>m. m = rq_Method r \<or> (rq_Method r = ''HEAD'' \<and> m = ''GET'')) (path_segments (rq_EscapedPath r)) = Some (e, vs)"
    using assms by (auto simp: findHandler_def Let_def split: if_splits option.splits)
  have "rq_Method r \<noteq> ''CONNECT'' \<longrightarrow> HasPrefix (rq_EscapedPath r) ''/''"
    using cleanPath_rooted [of "rq_EscapedPath r"] c by auto
  then show thesis using mux_find_Some [OF f] that by blast
qed

end
