(* ===== verification/StateCache.thy ===== *)
theory StateCache
  imports Files ApiTypes
begin

text \<open>
  The state cache of the local node API, \<open>internal/nodeapi/cache.go\<close>: metadata, data entries, the
  index of secrets and the reports, in memory and in files under \<open>dataDir/state\<close>.

  The JSON codec is a record of functions.  Writing a value and reading it back gives the value
  again, except that \<open>json.MarshalIndent\<close> lays out a raw payload anew.
\<close>

section \<open>Types\<close>

record ReportEntry =
  re_Key :: string
  re_ContentType :: string
  re_Payload :: string
  re_Version :: int
  re_UpdatedAt :: time

record StateCache =
  sc_dataDir :: string
  sc_metadata :: "(string, string) gomap"
  sc_data :: "(string, DataEntry) gomap"
  sc_secretIndex :: "SecretRef list option"
  sc_reports :: "(string, ReportEntry) gomap"

record cache_json =
  mj_meta :: "(string, string) gomap \<Rightarrow> string + string"
  uj_meta :: "string \<Rightarrow> string + (string, string) gomap"
  mj_refs :: "SecretRef list option \<Rightarrow> string + string"
  uj_refs :: "string \<Rightarrow> string + SecretRef list option"
  mj_data :: "DataEntry \<Rightarrow> string + string"
  uj_data :: "string \<Rightarrow> string + DataEntry"
  mj_report :: "ReportEntry \<Rightarrow> string + string"
  uj_report :: "string \<Rightarrow> string + ReportEntry"

datatype cache_error = ErrVersionConflict | ErrReportNotFound

definition NewStateCache :: "string \<Rightarrow> StateCache" where
  "NewStateCache dataDir = \<lparr>sc_dataDir = dataDir, sc_metadata = [], sc_data = [], sc_secretIndex = None, sc_reports = []\<rparr>"

definition stateDir :: "StateCache \<Rightarrow> string" where
  "stateDir sc = filepath_Join [sc_dataDir sc, ''state'']"

section \<open>Load\<close>

text \<open>The loop over the entries of a directory: it reads and decodes every \<open>.json\<close> file, and stops at
  the first error.\<close>

fun load_dir ::
    "(string \<Rightarrow> string + 'e) \<Rightarrow> ('e \<Rightarrow> string) \<Rightarrow> string \<Rightarrow> string list \<Rightarrow> (string, 'e) gomap \<Rightarrow> FS \<Rightarrow>
     string option \<times> (string, 'e) gomap \<times> FS" where
  "load_dir unmarshal key dir [] m fs = (None, m, fs)"
| "load_dir unmarshal key dir (name # names) m fs =
     (if \<not> HasSuffix name ''.json'' then load_dir unmarshal key dir names m fs
      else case os_ReadFile (filepath_Join [dir, name]) fs of
        (Inl err, fs) \<Rightarrow> (Some (fs_error_text err), m, fs)
      | (Inr raw, fs) \<Rightarrow>
          (case unmarshal raw of
             Inl err \<Rightarrow> (Some err, m, fs)
           | Inr entry \<Rightarrow> load_dir unmarshal key dir names (mput (key entry) entry m) fs))"

definition load_all ::
    "(string \<Rightarrow> string + 'e) \<Rightarrow> ('e \<Rightarrow> string) \<Rightarrow> string \<Rightarrow> FS \<Rightarrow> string option \<times> (string, 'e) gomap \<times> FS" where
  "load_all unmarshal key dir fs =
     (case os_ReadDir dir fs of
        (Inl err, fs) \<Rightarrow> (if os_IsNotExist err then None else Some (fs_error_text err), [], fs)
      | (Inr names, fs) \<Rightarrow> load_dir unmarshal key dir names [] fs)"

text \<open>An optional file: absent is fine, everything else must be read and decoded.\<close>

definition load_optional ::
    "(string \<Rightarrow> string + 'a) \<Rightarrow> string \<Rightarrow> FS \<Rightarrow> (string + 'a option) \<times> FS" where
  "load_optional unmarshal path fs =
     (case os_ReadFile path fs of
        (Inr data, fs) \<Rightarrow> ((case unmarshal data of Inl err \<Rightarrow> Inl err | Inr v \<Rightarrow> Inr (Some v)), fs)
      | (Inl err, fs) \<Rightarrow> (if os_IsNotExist err then Inr None else Inl (fs_error_text err), fs))"

definition Load :: "cache_json \<Rightarrow> StateCache \<Rightarrow> FS \<Rightarrow> string option \<times> StateCache \<times> FS" where
  "Load js sc fs =
     (let sd = stateDir sc; dataDir = filepath_Join [sd, ''data'']; reportDir = filepath_Join [sd, ''report'']
      in case os_MkdirAll dataDir fs of
        (Some err, fs) \<Rightarrow> (Some (fs_error_text err), sc, fs)
      | (None, fs) \<Rightarrow>
     (case os_MkdirAll reportDir fs of
        (Some err, fs) \<Rightarrow> (Some (fs_error_text err), sc, fs)
      | (None, fs) \<Rightarrow>
     (case load_optional (uj_meta js) (filepath_Join [sd, ''metadata.json'']) fs of
        (Inl err, fs) \<Rightarrow> (Some err, sc, fs)
      | (Inr m, fs) \<Rightarrow>
          let sc = (case m of None \<Rightarrow> sc | Some m \<Rightarrow> sc\<lparr>sc_metadata := m\<rparr>)
          in case load_optional (uj_refs js) (filepath_Join [sd, ''secrets.json'']) fs of
        (Inl err, fs) \<Rightarrow> (Some err, sc, fs)
      | (Inr refs, fs) \<Rightarrow>
          let sc = (case refs of None \<Rightarrow> sc | Some refs \<Rightarrow> sc\<lparr>sc_secretIndex := refs\<rparr>)
          in case load_all (uj_data js) de_Key dataDir fs of
        (Some err, m, fs) \<Rightarrow> (Some err, sc\<lparr>sc_data := m\<rparr>, fs)
      | (None, m, fs) \<Rightarrow>
          let sc = sc\<lparr>sc_data := m\<rparr>
          in case load_all (uj_report js) re_Key reportDir fs of
        (err, m, fs) \<Rightarrow> (err, sc\<lparr>sc_reports := m\<rparr>, fs))))"

section \<open>Updates\<close>

text \<open>A failed write is logged and otherwise ignored.\<close>

definition persistJSON :: "string \<Rightarrow> string + string \<Rightarrow> FS \<Rightarrow> FS" where
  "persistJSON path marshalled fs =
     (case marshalled of
        Inl err \<Rightarrow> fs
      | Inr data \<Rightarrow> snd (WriteFileAtomic (filepath_Dir path) (filepath_Base path) data 384 fs))"

definition UpdateMetadata :: "cache_json \<Rightarrow> (string, string) gomap \<Rightarrow> StateCache \<Rightarrow> FS \<Rightarrow> StateCache \<times> FS" where
  "UpdateMetadata js m sc fs =
     (let sc = sc\<lparr>sc_metadata := m\<rparr>
      in (sc, persistJSON (filepath_Join [stateDir sc, ''metadata.json'']) (mj_meta js m) fs))"

definition UpdateData ::
    "cache_json \<Rightarrow> (string list \<Rightarrow> string list) \<Rightarrow> DataEntry list \<Rightarrow> StateCache \<Rightarrow> FS \<Rightarrow> StateCache \<times> FS" where
  "UpdateData js ord entries sc fs =
     (let oldKeys = map (\<lambda>k. (k, ())) (mkeys (sc_data sc));
          dataDir = filepath_Join [stateDir sc, ''data''];
          (newData, oldKeys, fs) =
            fold (\<lambda>e (newData, oldKeys, fs).
                (mput (de_Key e) e newData, mdel (de_Key e) oldKeys,
                 persistJSON (filepath_Join [dataDir, de_Key e @ ''.json'']) (mj_data js e) fs))
              entries ([], oldKeys, fs);
          fs = fold (\<lambda>k fs. snd (os_Remove (filepath_Join [dataDir, k @ ''.json'']) fs)) (ord (mkeys oldKeys)) fs
      in (sc\<lparr>sc_data := newData\<rparr>, fs))"

definition UpdateSecretIndex :: "cache_json \<Rightarrow> SecretRef list \<Rightarrow> StateCache \<Rightarrow> FS \<Rightarrow> StateCache \<times> FS" where
  "UpdateSecretIndex js refs sc fs =
     (let sc = sc\<lparr>sc_secretIndex := Some refs\<rparr>
      in (sc, persistJSON (filepath_Join [stateDir sc, ''secrets.json'']) (mj_refs js (Some refs)) fs))"

section \<open>Reads\<close>

definition GetMetadata :: "StateCache \<Rightarrow> (string, string) gomap" where "GetMetadata sc = sc_metadata sc"
definition GetMetadataKey :: "string \<Rightarrow> StateCache \<Rightarrow> string option" where "GetMetadataKey key sc = mget (sc_metadata sc) key"
definition GetData :: "StateCache \<Rightarrow> (string, DataEntry) gomap" where "GetData sc = sc_data sc"
definition GetDataEntry :: "string \<Rightarrow> StateCache \<Rightarrow> DataEntry option" where "GetDataEntry key sc = mget (sc_data sc) key"
definition GetSecretIndex :: "StateCache \<Rightarrow> SecretRef list option" where "GetSecretIndex sc = sc_secretIndex sc"
definition GetReports :: "StateCache \<Rightarrow> (string, ReportEntry) gomap" where "GetReports sc = sc_reports sc"
definition GetReport :: "string \<Rightarrow> StateCache \<Rightarrow> ReportEntry option" where "GetReport key sc = mget (sc_reports sc) key"

section \<open>Reports\<close>

definition report_path :: "StateCache \<Rightarrow> string \<Rightarrow> string" where
  "report_path sc key = filepath_Join [stateDir sc, ''report'', key @ ''.json'']"

definition PutReport ::
    "cache_json \<Rightarrow> time \<Rightarrow> string \<Rightarrow> string \<Rightarrow> string \<Rightarrow> int option \<Rightarrow> StateCache \<Rightarrow> FS \<Rightarrow>
     (cache_error + ReportEntry) \<times> StateCache \<times> FS" where
  "PutReport js now key contentType payload ifMatch sc fs =
     (let create = (\<lambda>version.
        let entry = \<lparr>re_Key = key, re_ContentType = contentType, re_Payload = payload, re_Version = version, re_UpdatedAt = now\<rparr>;
            sc = sc\<lparr>sc_reports := mput key entry (sc_reports sc)\<rparr>
        in (Inr entry, sc, persistJSON (report_path sc key) (mj_report js entry) fs))
      in case mget (sc_reports sc) key of
           Some existing \<Rightarrow>
             if ifMatch \<noteq> None \<and> ifMatch \<noteq> Some (re_Version existing) then (Inl ErrVersionConflict, sc, fs)
             else create (wrap64 (re_Version existing + 1))
         | None \<Rightarrow>
             if ifMatch \<noteq> None \<and> ifMatch \<noteq> Some 0 then (Inl ErrVersionConflict, sc, fs)
             else create 1)"

definition DeleteReport :: "string \<Rightarrow> StateCache \<Rightarrow> FS \<Rightarrow> cache_error option \<times> StateCache \<times> FS" where
  "DeleteReport key sc fs =
     (case mget (sc_reports sc) key of
        None \<Rightarrow> (Some ErrReportNotFound, sc, fs)
      | Some _ \<Rightarrow> (None, sc\<lparr>sc_reports := mdel key (sc_reports sc)\<rparr>, snd (os_Remove (report_path sc key) fs)))"

section \<open>Paths under the state directory\<close>

lemma rooted_key: "HasPrefix dir ''/'' \<Longrightarrow> fst (dir_key dir) \<and> dir \<noteq> ''''"
  by (auto simp: dir_key_def HasPrefix_slash)

lemma dir_key_Join:
  assumes "HasPrefix dir ''/''" "plain_name n"
  shows "dir_key (filepath_Join [dir, n]) = (True, snd (dir_key dir) @ [n])"
proof -
  let ?cs = "snd (dir_key dir) @ [n]"
  note r = rooted_key [OF assms(1)]
  have plain: "\<forall>c \<in> set ?cs. plain_name c" using dir_key_rooted [of dir] r assms(2) by auto
  have e: "filepath_Join [dir, n] = CHR ''/'' # Join ?cs ''/''"
    using Join_entry [of dir n] r assms(2) by (simp add: render_path_def)
  have "Split (Join ?cs ''/'') (CHR ''/'') = ?cs" using plain by (intro Split_Join) (auto simp: plain_name_def)
  then have "Split (filepath_Join [dir, n]) (CHR ''/'') = '''' # ?cs" by (simp add: e)
  moreover have "clean_comps True [] ('''' # ?cs) = ?cs" using clean_comps_plain [OF plain, of True "[]"] by simp
  moreover have "HasPrefix (filepath_Join [dir, n]) ''/''" unfolding e HasPrefix_slash by simp
  ultimately show ?thesis by (simp add: dir_key_def)
qed

lemma rooted_Join: "HasPrefix dir ''/'' \<Longrightarrow> plain_name n \<Longrightarrow> HasPrefix (filepath_Join [dir, n]) ''/''"
  using dir_key_Join [of dir n] by (simp add: dir_key_def)

lemma Clean_Join: "HasPrefix dir ''/'' \<Longrightarrow> plain_name n \<Longrightarrow> Clean (filepath_Join [dir, n]) = filepath_Join [dir, n]"
  using rooted_key [of dir] dir_key_Join [of dir n] Join_entry [of dir n] unfolding Clean_key by simp

lemma Join_three:
  assumes "HasPrefix dir ''/''" "plain_name a" "plain_name b"
  shows "filepath_Join [dir, a, b] = filepath_Join [filepath_Join [dir, a], b]"
proof -
  note r = rooted_key [OF assms(1)]
  have ab: "CHR ''/'' \<notin> set a" "CHR ''/'' \<notin> set b" using assms(2,3) by (auto simp: plain_name_def)
  have "HasPrefix (dir @ ''/'' @ a @ ''/'' @ b) ''/''" using assms(1) by (auto simp: HasPrefix_slash)
  moreover have "Split (dir @ ''/'' @ a @ ''/'' @ b) (CHR ''/'') = (Split dir (CHR ''/'') @ [a]) @ [b]"
    using ab by (simp add: Split_append Split_single)
  ultimately have "filepath_Join [dir, a, b] = render_path True (snd (dir_key dir) @ [a] @ [b])"
    using r assms(1,2,3) clean_comps_snoc [of b True "[]" "Split dir (CHR ''/'') @ [a]"] clean_comps_snoc [of a True "[]" "Split dir (CHR ''/'')"]
    by (simp add: filepath_Join_def Clean_def Let_def dir_key_def)
  also have "\<dots> = filepath_Join [filepath_Join [dir, a], b]"
    using Join_entry [of "filepath_Join [dir, a]" b] rooted_key [OF rooted_Join [OF assms(1,2)]] dir_key_Join [OF assms(1,2)] assms(3)
    by simp
  finally show ?thesis .
qed

abbreviation state_sub :: "string \<Rightarrow> string \<Rightarrow> string" where
  "state_sub dataDir sub \<equiv> filepath_Join [filepath_Join [dataDir, ''state''], sub]"

lemma plain_names [simp]: "plain_name ''state''" "plain_name ''report''" "plain_name ''data''"
  "plain_name ''metadata.json''" "plain_name ''secrets.json''"
  by (simp_all add: plain_name_def)

lemma key_file_plain: "CHR ''/'' \<notin> set k \<Longrightarrow> plain_name (k @ ''.json'')"
proof -
  assume "CHR ''/'' \<notin> set k"
  moreover have "k @ ''.json'' \<noteq> ''.''" "k @ ''.json'' \<noteq> ''..''"
    by (cases k; simp; rule notI; drule arg_cong [where f = length]; simp)+
  ultimately show ?thesis by (simp add: plain_name_def)
qed

section \<open>Reports on disk\<close>

abbreviation report_file :: "string \<Rightarrow> string \<Rightarrow> string" where
  "report_file dataDir k \<equiv> filepath_Join [state_sub dataDir ''report'', k @ ''.json'']"

text \<open>The keys whose file cannot be mistaken for the temporary file of another key.\<close>

definition report_key :: "string \<Rightarrow> bool" where
  "report_key k \<longleftrightarrow> CHR ''/'' \<notin> set k \<and> \<not> HasPrefix (k @ ''.json'') ''.tmp-''"

definition persisted :: "cache_json \<Rightarrow> StateCache \<Rightarrow> FS \<Rightarrow> bool" where
  "persisted js sc fs \<longleftrightarrow> HasPrefix (sc_dataDir sc) ''/'' \<and> fs_ok fs \<and> no_faults fs \<and>
     state_sub (sc_dataDir sc) ''report'' \<in> set (fs_dirs fs) \<and> mwf (sc_reports sc) \<and>
     (\<forall>k e. mget (sc_reports sc) k = Some e \<longrightarrow> re_Key e = k \<and> report_key k \<and>
        (\<exists>s. mj_report js e = Inr s \<and> content fs (report_file (sc_dataDir sc) k) = Some s)) \<and>
     (\<forall>p. content fs p \<noteq> None \<longrightarrow> (\<exists>k. mhas (sc_reports sc) k \<and> p = report_file (sc_dataDir sc) k))"

lemma persisted_dir:
  assumes "HasPrefix d ''/''" "plain_name sub"
  shows "HasPrefix (state_sub d sub) ''/''" "Clean (state_sub d sub) = state_sub d sub" "state_sub d sub \<noteq> ''''"
  using rooted_Join [OF rooted_Join [OF assms(1) plain_names(1)] assms(2)]
    Clean_Join [OF rooted_Join [OF assms(1) plain_names(1)] assms(2)] rooted_key by auto

lemma report_path_eq:
  assumes "HasPrefix (sc_dataDir sc) ''/''" "CHR ''/'' \<notin> set k"
  shows "report_path sc k = report_file (sc_dataDir sc) k"
  unfolding report_path_def stateDir_def
  by (rule Join_three [OF rooted_Join [OF assms(1) plain_names(1)] plain_names(2) key_file_plain [OF assms(2)]])

lemma report_dir_file:
  assumes "HasPrefix d ''/''" "report_key k"
  shows "dir_file (state_sub d ''report'') (k @ ''.json'')"
  using assms persisted_dir(3) [OF assms(1), of "''report''"] key_file_plain [of k] by (simp add: dir_file_def report_key_def)

lemma report_file_inj:
  assumes "HasPrefix d ''/''" "report_key k" "report_key k'" "report_file d k = report_file d k'"
  shows "k = k'"
proof (rule ccontr)
  assume "k \<noteq> k'"
  then have "k @ ''.json'' \<noteq> k' @ ''.json''" by simp
  then show False using other_entry(1) [OF report_dir_file [OF assms(1,3)] report_dir_file [OF assms(1,2)]] assms(4) by blast
qed

text \<open>Writing the file of a report with no faults.\<close>

lemma persist_report:
  assumes p: "persisted js sc fs" and k: "report_key k"
  defines "d \<equiv> sc_dataDir sc"
  shows "let fs' = persistJSON (report_path sc k) (Inr s) fs in
    fs_ok fs' \<and> no_faults fs' \<and> fs_dirs fs' = fs_dirs fs \<and> content fs' (report_file d k) = Some s \<and>
    (\<forall>q. q \<noteq> report_file d k \<longrightarrow> content fs' q = content fs q \<or> content fs' q = None) \<and>
    (\<forall>j. report_key j \<longrightarrow> j \<noteq> k \<longrightarrow> content fs' (report_file d j) = content fs (report_file d j)) \<and>
    (\<exists>m \<in> set (fs_seen fs'). mget m (filepath_Join [state_sub d ''report'', ''.tmp-'' @ k @ ''.json'']) \<in> range (\<lambda>mode. Some ('''', mode)) \<and>
       (\<forall>q. q \<noteq> filepath_Join [state_sub d ''report'', ''.tmp-'' @ k @ ''.json''] \<longrightarrow> mget m q = mget (fs_files fs) q))"
proof -
  let ?dir = "state_sub d ''report''" and ?n = "k @ ''.json''"
  let ?tmp = "filepath_Join [?dir, ''.tmp-'' @ ?n]"
  have root: "HasPrefix d ''/''" and fs: "fs_ok fs" "no_faults fs" "?dir \<in> set (fs_dirs fs)"
    using p by (simp_all add: persisted_def d_def)
  have n: "plain_name ?n" using k key_file_plain by (simp add: report_key_def)
  note dir = persisted_dir [OF root plain_names(2)]
  have path: "report_path sc k = report_file d k" using report_path_eq [of sc k] root k by (simp add: report_key_def d_def)
  have tmpdir: "filepath_Dir ?tmp \<in> set (fs_dirs fs)"
    using Dir_Base_entry(1) [OF dir(1) tmp_plain [OF n]] dir(2) fs(3) by simp
  obtain fs' where w: "WriteFileAtomic ?dir ?n s 384 fs = (None, fs')" "no_faults fs'"
    "mput ?tmp ('''', case mget (fs_files fs) ?tmp of None \<Rightarrow> 384 | Some (_, m) \<Rightarrow> m) (fs_files fs) \<in> set (fs_seen fs')"
    using write_rename_succeeds [OF fs(2) tmpdir fs(1) tmp_not_target [OF dir(3) n], of s 384]
    unfolding WriteFileAtomic_def Let_def by blast
  have run: "persistJSON (report_path sc k) (Inr s) fs = fs'"
    using Dir_Base_entry [OF dir(1) n] dir(2) w(1) by (simp add: persistJSON_def path)
  note eff = WriteFileAtomic_effect [OF fs(1) dir(3) n w(1), unfolded atomic_effect_def]
  have "content fs' q = content fs q \<or> content fs' q = None" if "q \<noteq> report_file d k" for q
    using eff that by metis
  moreover have "content fs' (report_file d j) = content fs (report_file d j)" if "report_key j" "j \<noteq> k" for j
    using ad.read_other [OF fs(1) report_dir_file [OF root k] report_dir_file [OF root that(1)] _ w(1)] that(2) by simp
  moreover have "\<exists>m \<in> set (fs_seen fs'). mget m ?tmp \<in> range (\<lambda>mode. Some ('''', mode)) \<and>
      (\<forall>q. q \<noteq> ?tmp \<longrightarrow> mget m q = mget (fs_files fs) q)"
    by (rule bexI [OF _ w(3)]) simp
  moreover have "fs_ok fs'" "fs_dirs fs' = fs_dirs fs" "content fs' (report_file d k) = Some s"
    using eff by (elim conjE; simp)+
  ultimately show ?thesis using w(2) unfolding run Let_def by (intro conjI allI impI)
qed

text \<open>What JSON encoding promises for a report whose payload is valid JSON.\<close>

definition report_codec :: "cache_json \<Rightarrow> (string \<Rightarrow> bool) \<Rightarrow> (string \<Rightarrow> string) \<Rightarrow> bool" where
  "report_codec js valid indent \<longleftrightarrow>
     (\<forall>e. valid (re_Payload e) \<longrightarrow> (\<exists>s. mj_report js e = Inr s \<and> uj_report js s = Inr (e\<lparr>re_Payload := indent (re_Payload e)\<rparr>)))"

text \<open>The two operations of clients on reports.\<close>

datatype report_op = Put time string string string "int option" | Del string

fun report_step :: "cache_json \<Rightarrow> report_op \<Rightarrow> StateCache \<times> FS \<Rightarrow> StateCache \<times> FS" where
  "report_step js (Put now key ct payload ifMatch) (sc, fs) = snd (PutReport js now key ct payload ifMatch sc fs)"
| "report_step js (Del key) (sc, fs) = snd (DeleteReport key sc fs)"

fun report_op_ok :: "(string \<Rightarrow> bool) \<Rightarrow> report_op \<Rightarrow> bool" where
  "report_op_ok valid (Put now key ct payload ifMatch) = (report_key key \<and> valid payload)"
| "report_op_ok valid (Del key) = report_key key"

definition payloads_ok :: "(string \<Rightarrow> bool) \<Rightarrow> StateCache \<Rightarrow> bool" where
  "payloads_ok valid sc \<longleftrightarrow> (\<forall>k e. mget (sc_reports sc) k = Some e \<longrightarrow> valid (re_Payload e))"

lemma PutReport_cases:
  obtains (conflict) "PutReport js now key ct payload ifMatch sc fs = (Inl ErrVersionConflict, sc, fs)"
  | (stored) e where "re_Key e = key" "re_Payload e = payload"
      "PutReport js now key ct payload ifMatch sc fs =
         (Inr e, sc\<lparr>sc_reports := mput key e (sc_reports sc)\<rparr>,
          persistJSON (report_path (sc\<lparr>sc_reports := mput key e (sc_reports sc)\<rparr>) key) (mj_report js e) fs)"
proof -
  let ?e = "\<lambda>v. \<lparr>re_Key = key, re_ContentType = ct, re_Payload = payload, re_Version = v, re_UpdatedAt = now\<rparr>"
  show ?thesis
  proof (cases "mget (sc_reports sc) key")
    case None
    then show ?thesis
      using conflict stored [of "?e 1"] by (cases "ifMatch \<noteq> None \<and> ifMatch \<noteq> Some 0") (simp_all add: PutReport_def Let_def)
  next
    case (Some a)
    then show ?thesis
      using conflict stored [of "?e (wrap64 (re_Version a + 1))"]
      by (cases "ifMatch \<noteq> None \<and> ifMatch \<noteq> Some (re_Version a)") (simp_all add: PutReport_def Let_def)
  qed
qed

lemma persisted_put:
  assumes p: "persisted js sc fs" and k: "report_key key" and e: "re_Key e = key" "mj_report js e = Inr s"
  defines "sc' \<equiv> sc\<lparr>sc_reports := mput key e (sc_reports sc)\<rparr>"
  shows "persisted js sc' (persistJSON (report_path sc' key) (mj_report js e) fs)"
proof -
  let ?d = "sc_dataDir sc" and ?fs = "persistJSON (report_path sc key) (Inr s) fs"
  have path: "report_path sc' key = report_path sc key" by (simp add: sc'_def report_path_def stateDir_def)
  note w = persist_report [OF p k, of s, unfolded Let_def]
  have files: "\<exists>j. mhas (sc_reports sc') j \<and> q = report_file ?d j" if q: "content ?fs q \<noteq> None" for q
  proof (cases "q = report_file ?d key")
    case True
    then show ?thesis by (intro exI [of _ key]) (simp add: sc'_def)
  next
    case False
    then have "content fs q \<noteq> None" using w q by metis
    then obtain j where "mhas (sc_reports sc) j" "q = report_file ?d j" using p unfolding persisted_def by blast
    then show ?thesis by (intro exI [of _ j]) (simp add: sc'_def)
  qed
  have entry: "re_Key r = j \<and> report_key j \<and> (\<exists>t. mj_report js r = Inr t \<and> content ?fs (report_file ?d j) = Some t)"
    if j: "mget (sc_reports sc') j = Some r" for j r
  proof (cases "j = key")
    case True
    then show ?thesis using j e k w by (simp add: sc'_def)
  next
    case False
    then have "mget (sc_reports sc) j = Some r" using j by (simp add: sc'_def)
    then obtain t where "re_Key r = j" "report_key j" "mj_report js r = Inr t" "content fs (report_file ?d j) = Some t"
      using p unfolding persisted_def by blast
    then show ?thesis using w False by simp
  qed
  have "mwf (sc_reports sc')" using p by (simp add: sc'_def persisted_def gm.wf_put)
  moreover have "HasPrefix (sc_dataDir sc') ''/''" "state_sub (sc_dataDir sc') ''report'' \<in> set (fs_dirs ?fs)" "sc_dataDir sc' = ?d"
    using p w by (simp_all add: sc'_def persisted_def)
  ultimately show ?thesis using w entry files unfolding path e(2) by (simp add: persisted_def)
qed

lemma os_Remove_ok:
  assumes "no_faults fs" "fs_ok fs"
  shows "no_faults (snd (os_Remove p fs))" "fs_ok (snd (os_Remove p fs))" "fs_dirs (snd (os_Remove p fs)) = fs_dirs fs"
    "content (snd (os_Remove p fs)) q = (if q = p then None else content fs q)"
  using assms by (auto simp: os_Remove_def syscall_ok fs_ok_def content_def set_files_def no_faults_def gm.wf_del gm.get_del
    split: option.splits)

lemma persisted_delete:
  assumes p: "persisted js sc fs" and h: "mhas (sc_reports sc) key"
  shows "persisted js (sc\<lparr>sc_reports := mdel key (sc_reports sc)\<rparr>) (snd (os_Remove (report_path sc key) fs))"
proof -
  let ?d = "sc_dataDir sc" and ?sc = "sc\<lparr>sc_reports := mdel key (sc_reports sc)\<rparr>"
  have base: "HasPrefix ?d ''/''" "no_faults fs" "fs_ok fs" "mwf (sc_reports sc)" using p by (simp_all add: persisted_def)
  have k: "report_key key" using p h unfolding persisted_def by blast
  have path: "report_path sc key = report_file ?d key" using report_path_eq [OF base(1)] k by (simp add: report_key_def)
  note rm = os_Remove_ok [OF base(2,3), of "report_file ?d key"]
  have get: "mget (sc_reports ?sc) j = (if j = key then None else mget (sc_reports sc) j)" for j
    using base(4) by (simp add: gm.get_del)
  have "content (snd (os_Remove (report_file ?d key) fs)) (report_file ?d j) = content fs (report_file ?d j)"
    if "j \<noteq> key" "report_key j" for j
    using rm(4) report_file_inj [OF base(1) that(2) k] that(1) by auto
  then have entry: "re_Key r = j \<and> report_key j \<and>
      (\<exists>t. mj_report js r = Inr t \<and> content (snd (os_Remove (report_file ?d key) fs)) (report_file ?d j) = Some t)"
    if "mget (sc_reports ?sc) j = Some r" for j r
    using that p unfolding persisted_def get by (auto split: if_splits)
  have "\<exists>j. mhas (sc_reports ?sc) j \<and> q = report_file ?d j"
    if "content (snd (os_Remove (report_file ?d key) fs)) q \<noteq> None" for q
  proof -
    have q: "content fs q \<noteq> None" "q \<noteq> report_file ?d key" using that rm(4) by (auto split: if_splits)
    obtain j where j: "mhas (sc_reports sc) j" "q = report_file ?d j" using p q(1) unfolding persisted_def by blast
    then have "j \<noteq> key" using q(2) by blast
    then show ?thesis using j get by (intro exI [of _ j]) simp
  qed
  then show ?thesis using p rm(1-3) entry base(4) unfolding path by (simp add: persisted_def gm.wf_del)
qed

lemma report_step_persisted:
  assumes "persisted js sc fs" "payloads_ok valid sc" "report_codec js valid indent" "report_op_ok valid op"
    and "report_step js op (sc, fs) = (sc', fs')"
  shows "persisted js sc' fs' \<and> payloads_ok valid sc' \<and> sc_dataDir sc' = sc_dataDir sc"
proof (cases op)
  case (Put now key ct payload ifMatch)
  show ?thesis
  proof (cases rule: PutReport_cases [of js now key ct payload ifMatch sc fs])
    case conflict
    then show ?thesis using assms Put by simp
  next
    case (stored e)
    have op: "report_key key" "valid payload" using assms(4) Put by simp_all
    obtain s where s: "mj_report js e = Inr s" using assms(3) op(2) stored(2) unfolding report_codec_def by blast
    have r: "sc' = sc\<lparr>sc_reports := mput key e (sc_reports sc)\<rparr>" "fs' = persistJSON (report_path sc' key) (mj_report js e) fs"
      using assms(5) Put stored(3) by auto
    show ?thesis
      using persisted_put [OF assms(1) op(1) stored(1) s] assms(2) op(2) stored(2) r by (auto simp: payloads_ok_def)
  qed
next
  case (Del key)
  show ?thesis
  proof (cases "mget (sc_reports sc) key")
    case None
    then show ?thesis using assms Del by (simp add: DeleteReport_def)
  next
    case (Some e)
    then have r: "sc' = sc\<lparr>sc_reports := mdel key (sc_reports sc)\<rparr>" "fs' = snd (os_Remove (report_path sc key) fs)"
      using assms(5) Del by (auto simp: DeleteReport_def)
    have "mwf (sc_reports sc)" using assms(1) by (simp add: persisted_def)
    then show ?thesis
      using persisted_delete [OF assms(1)] Some assms(2) r by (auto simp: payloads_ok_def gm.get_del split: if_splits)
  qed
qed

section \<open>Loading\<close>

lemma load_dir_ok:
  assumes "no_faults fs"
    and "\<And>n. n \<in> set names \<Longrightarrow> HasSuffix n ''.json'' \<and> (\<exists>s. content fs (filepath_Join [dir, n]) = Some s \<and> um s = Inr (f n))"
  shows "load_dir um key dir names m fs = (None, fold (\<lambda>n. mput (key (f n)) (f n)) names m, fs)"
  using assms(2)
proof (induction names arbitrary: m)
  case (Cons n names)
  obtain s where "content fs (filepath_Join [dir, n]) = Some s" "um s = Inr (f n)" "HasSuffix n ''.json''"
    using Cons.prems [of n] by auto
  then show ?case using Cons assms(1) by (simp add: os_ReadFile_nf)
qed simp

lemma HasSuffix_append [simp]: "HasSuffix (k @ s) s"
  by (simp add: HasSuffix_def)

lemma report_file_parts:
  assumes "HasPrefix d ''/''" "CHR ''/'' \<notin> set k"
  shows "filepath_Dir (report_file d k) = state_sub d ''report''" "filepath_Base (report_file d k) = k @ ''.json''"
  using Dir_Base_entry [OF persisted_dir(1) [OF assms(1) plain_names(2)] key_file_plain [OF assms(2)]]
    persisted_dir(2) [OF assms(1) plain_names(2)] by auto

lemma state_sub_neq:
  assumes "HasPrefix d ''/''" "plain_name a" "plain_name b" "CHR ''/'' \<notin> set k"
  shows "state_sub d a \<noteq> filepath_Join [state_sub d b, k @ ''.json'']" "a \<noteq> b \<Longrightarrow> state_sub d a \<noteq> state_sub d b"
proof -
  note s = rooted_Join [OF assms(1) plain_names(1)] dir_key_Join [OF assms(1) plain_names(1)]
  have "dir_key (filepath_Join [d, ''state'']) \<noteq> dir_key (state_sub d b)" using s dir_key_Join [OF s(1) assms(3)] by simp
  then show "state_sub d a \<noteq> filepath_Join [state_sub d b, k @ ''.json'']"
    using Join_entry_eq_iff [of "filepath_Join [d, ''state'']" "state_sub d b" a "k @ ''.json''"] assms
      rooted_key [OF s(1)] rooted_key [OF rooted_Join [OF s(1) assms(3)]] key_file_plain [OF assms(4)] by auto
  show "a \<noteq> b \<Longrightarrow> state_sub d a \<noteq> state_sub d b"
    using Join_entry_eq_iff [of "filepath_Join [d, ''state'']" "filepath_Join [d, ''state'']" a b] assms rooted_key [OF s(1)] by auto
qed

text \<open>The reports that a fresh cache loads, up to the layout of their payloads.\<close>

definition loads_reports :: "cache_json \<Rightarrow> (string \<Rightarrow> string) \<Rightarrow> StateCache \<Rightarrow> FS \<Rightarrow> bool" where
  "loads_reports js indent sc fs \<longleftrightarrow>
     (\<exists>sc' fs'. Load js (NewStateCache (sc_dataDir sc)) fs = (None, sc', fs') \<and>
       (\<forall>k. mget (sc_reports sc') k = map_option (\<lambda>e. e\<lparr>re_Payload := indent (re_Payload e)\<rparr>) (mget (sc_reports sc) k)))"

lemma persisted_entry:
  assumes p: "persisted js sc fs" and v: "payloads_ok valid sc" and c: "report_codec js valid indent"
    and e: "mget (sc_reports sc) k = Some e"
  shows "report_key k" "re_Key e = k"
    "\<exists>s. content fs (report_file (sc_dataDir sc) k) = Some s \<and> uj_report js s = Inr (e\<lparr>re_Payload := indent (re_Payload e)\<rparr>)"
proof -
  show "report_key k" "re_Key e = k" using p e unfolding persisted_def by blast+
  obtain s where s: "mj_report js e = Inr s" "content fs (report_file (sc_dataDir sc) k) = Some s"
    using p e unfolding persisted_def by blast
  then show "\<exists>s. content fs (report_file (sc_dataDir sc) k) = Some s \<and> uj_report js s = Inr (e\<lparr>re_Payload := indent (re_Payload e)\<rparr>)"
    using c v e unfolding report_codec_def payloads_ok_def by (metis Inr_inject)
qed

lemma report_dir_names:
  assumes p: "persisted js sc fs"
  obtains names where "os_ReadDir (state_sub (sc_dataDir sc) ''report'') fs = (Inr names, fs)"
    "set names = (\<lambda>k. k @ ''.json'') ` {k. mhas (sc_reports sc) k}"
proof -
  let ?d = "sc_dataDir sc" and ?dir = "state_sub (sc_dataDir sc) ''report''"
  have d: "HasPrefix ?d ''/''" "no_faults fs" "?dir \<in> set (fs_dirs fs)" using p by (simp_all add: persisted_def)
  obtain names where names: "os_ReadDir ?dir fs = (Inr names, fs)"
    "set names = filepath_Base ` {p. content fs p \<noteq> None \<and> filepath_Dir p = ?dir}"
    by (rule os_ReadDir_nf [OF d(2) persisted_dir(2) [OF d(1) plain_names(2)] d(3)])
  have parts: "filepath_Dir (report_file ?d k) = ?dir" "filepath_Base (report_file ?d k) = k @ ''.json''"
    "content fs (report_file ?d k) \<noteq> None" if k: "mhas (sc_reports sc) k" for k
  proof -
    have "report_key k" using p k unfolding persisted_def by blast
    then show "filepath_Dir (report_file ?d k) = ?dir" "filepath_Base (report_file ?d k) = k @ ''.json''"
      using report_file_parts [OF d(1)] by (simp_all add: report_key_def)
    show "content fs (report_file ?d k) \<noteq> None" using p k unfolding persisted_def by blast
  qed
  have "{p. content fs p \<noteq> None \<and> filepath_Dir p = ?dir} = report_file ?d ` {k. mhas (sc_reports sc) k}"
  proof (intro set_eqI iffI)
    fix q assume "q \<in> {p. content fs p \<noteq> None \<and> filepath_Dir p = ?dir}"
    then show "q \<in> report_file ?d ` {k. mhas (sc_reports sc) k}" using p unfolding persisted_def by blast
  qed (use parts(1,3) in auto)
  then have "set names = (\<lambda>k. filepath_Base (report_file ?d k)) ` {k. mhas (sc_reports sc) k}"
    unfolding names(2) by (simp only: image_image)
  also have "\<dots> = (\<lambda>k. k @ ''.json'') ` {k. mhas (sc_reports sc) k}"
    by (rule image_cong [OF refl]) (use parts(2) in simp)
  finally show ?thesis using that names(1) by blast
qed

lemma load_reports_dir:
  assumes p: "persisted js sc fs" and v: "payloads_ok valid sc" and c: "report_codec js valid indent"
  shows "\<exists>m. load_all (uj_report js) re_Key (state_sub (sc_dataDir sc) ''report'') fs = (None, m, fs) \<and>
    (\<forall>k. mget m k = map_option (\<lambda>e. e\<lparr>re_Payload := indent (re_Payload e)\<rparr>) (mget (sc_reports sc) k))"
proof -
  let ?dir = "state_sub (sc_dataDir sc) ''report''" and ?norm = "\<lambda>e. e\<lparr>re_Payload := indent (re_Payload e)\<rparr>"
  define f where "f n = ?norm (the (mget (sc_reports sc) (take (length n - 5) n)))" for n
  note entry = persisted_entry [OF p v c]
  obtain names where names: "os_ReadDir ?dir fs = (Inr names, fs)" "set names = (\<lambda>k. k @ ''.json'') ` {k. mhas (sc_reports sc) k}"
    by (rule report_dir_names [OF p])
  have f: "HasSuffix n ''.json'' \<and> (\<exists>s. content fs (filepath_Join [?dir, n]) = Some s \<and> uj_report js s = Inr (f n))"
    and key: "re_Key (f n) = take (length n - 5) n" if n: "n \<in> set names" for n
  proof -
    obtain k e where "n = k @ ''.json''" "mget (sc_reports sc) k = Some e" using n names(2) by auto
    then show "HasSuffix n ''.json'' \<and> (\<exists>s. content fs (filepath_Join [?dir, n]) = Some s \<and> uj_report js s = Inr (f n))"
      "re_Key (f n) = take (length n - 5) n" using entry(2,3) [of k e] by (simp_all add: f_def)
  qed
  have "no_faults fs" using p by (simp add: persisted_def)
  then have "load_all (uj_report js) re_Key ?dir fs = (None, fold (\<lambda>n. mput (re_Key (f n)) (f n)) names [], fs)"
    unfolding load_all_def names(1) using load_dir_ok [OF _ f] by simp
  moreover have "mget (fold (\<lambda>n. mput (re_Key (f n)) (f n)) names []) k = map_option ?norm (mget (sc_reports sc) k)" for k
  proof (cases "mget (sc_reports sc) k")
    case (Some e)
    have inj: "inj_on (\<lambda>n. re_Key (f n)) (set names)" using key names(2) by (auto simp: inj_on_def)
    have n: "k @ ''.json'' \<in> set names" using names(2) Some by auto
    then show ?thesis using gm.get_build_in [OF n inj, of f "[]"] key [OF n] Some by (simp add: f_def)
  next
    case None
    have "k \<notin> (\<lambda>n. re_Key (f n)) ` set names"
    proof
      assume "k \<in> (\<lambda>n. re_Key (f n)) ` set names"
      then obtain n where n: "n \<in> set names" "k = re_Key (f n)" by blast
      then obtain j where "n = j @ ''.json''" "mhas (sc_reports sc) j" using names(2) by auto
      then show False using n key [OF n(1)] None by simp
    qed
    then show ?thesis using gm.has_build [of "\<lambda>n. re_Key (f n)" f names "[]" k] None by auto
  qed
  ultimately show ?thesis by blast
qed

lemma persisted_no_other:
  assumes p: "persisted js sc fs" and n: "plain_name n"
  shows "content fs (state_sub (sc_dataDir sc) n) = None"
proof (rule ccontr)
  assume "content fs (state_sub (sc_dataDir sc) n) \<noteq> None"
  then obtain k where k: "mhas (sc_reports sc) k" "state_sub (sc_dataDir sc) n = report_file (sc_dataDir sc) k"
    using p unfolding persisted_def by blast
  then have "report_key k" using p unfolding persisted_def by blast
  moreover have "HasPrefix (sc_dataDir sc) ''/''" using p by (simp add: persisted_def)
  ultimately show False using state_sub_neq(1) [of "sc_dataDir sc" n "''report''" k] k(2) n by (simp add: report_key_def)
qed

lemma load_optional_absent: "no_faults fs \<Longrightarrow> content fs p = None \<Longrightarrow> load_optional um p fs = (Inr None, fs)"
  by (simp add: load_optional_def os_ReadFile_nf no_such_def)

lemma load_data_empty:
  assumes p: "persisted js sc fs" and d: "state_sub (sc_dataDir sc) ''data'' \<in> set (fs_dirs fs)"
  shows "load_all um key (state_sub (sc_dataDir sc) ''data'') fs = (None, [], fs)"
proof -
  let ?d = "sc_dataDir sc"
  have root: "HasPrefix ?d ''/''" "no_faults fs" using p by (simp_all add: persisted_def)
  obtain names where names: "os_ReadDir (state_sub ?d ''data'') fs = (Inr names, fs)"
    "set names = filepath_Base ` {q. content fs q \<noteq> None \<and> filepath_Dir q = state_sub ?d ''data''}"
    by (rule os_ReadDir_nf [OF root(2) persisted_dir(2) [OF root(1) plain_names(3)] d])
  have "filepath_Dir q \<noteq> state_sub ?d ''data''" if q: "content fs q \<noteq> None" for q
  proof -
    obtain k where k: "mhas (sc_reports sc) k" "q = report_file ?d k" using p q unfolding persisted_def by blast
    then have "report_key k" using p unfolding persisted_def by blast
    then have "filepath_Dir q = state_sub ?d ''report''" using report_file_parts(1) [OF root(1)] k by (simp add: report_key_def)
    then show ?thesis using state_sub_neq(2) [OF root(1) plain_names(2,3), of "''''"] by simp
  qed
  then have "{q. content fs q \<noteq> None \<and> filepath_Dir q = state_sub ?d ''data''} = {}"
    unfolding Collect_empty_eq by blast
  then have "set names = {}" unfolding names(2) by (simp only: image_empty)
  then have "names = []" by simp
  then show ?thesis by (simp add: load_all_def names(1))
qed

lemma Load_persisted:
  assumes p: "persisted js sc fs" and v: "payloads_ok valid sc" and c: "report_codec js valid indent"
  shows "loads_reports js indent sc fs"
proof -
  let ?d = "sc_dataDir sc"
  let ?fs1 = "fs\<lparr>fs_dirs := fs_dirs fs @ path_prefixes (state_sub ?d ''data'')\<rparr>"
  let ?fs2 = "?fs1\<lparr>fs_dirs := fs_dirs ?fs1 @ path_prefixes (state_sub ?d ''report'')\<rparr>"
  have root: "HasPrefix ?d ''/''" "no_faults fs" using p by (simp_all add: persisted_def)
  have same: "content ?fs2 = content fs" "fs_ok ?fs2 = fs_ok fs" "no_faults ?fs2 = no_faults fs"
    by (simp_all add: content_def fun_eq_iff fs_ok_def no_faults_def)
  have "state_sub ?d ''report'' \<in> set (fs_dirs ?fs2)" using p by (simp add: persisted_def)
  then have p2: "persisted js sc ?fs2" using p unfolding persisted_def same by blast
  have mk: "os_MkdirAll (state_sub ?d ''data'') fs = (None, ?fs1)" "os_MkdirAll (state_sub ?d ''report'') ?fs1 = (None, ?fs2)"
    using root(2) by (simp_all add: os_MkdirAll_nf no_faults_def)
  have nf: "no_faults ?fs2" using root(2) by (simp add: no_faults_def)
  have opt: "load_optional um (state_sub ?d n) ?fs2 = (Inr None, ?fs2)" if "plain_name n" for um :: "string \<Rightarrow> string + 'z" and n
    using load_optional_absent [OF nf persisted_no_other [OF p2 that]] .
  have data: "load_all (uj_data js) de_Key (state_sub ?d ''data'') ?fs2 = (None, [], ?fs2)"
    using load_data_empty [OF p2] path_prefixes_self [of "state_sub ?d ''data''"] persisted_dir(2) [OF root(1) plain_names(3)] by simp
  obtain m where m: "load_all (uj_report js) re_Key (state_sub ?d ''report'') ?fs2 = (None, m, ?fs2)"
    "\<And>k. mget m k = map_option (\<lambda>e. e\<lparr>re_Payload := indent (re_Payload e)\<rparr>) (mget (sc_reports sc) k)"
    using load_reports_dir [OF p2 v c] by blast
  let ?sc = "(NewStateCache ?d)\<lparr>sc_data := [], sc_reports := m\<rparr>"
  have sd: "stateDir (NewStateCache ?d) = filepath_Join [?d, ''state'']" by (simp add: stateDir_def NewStateCache_def)
  have "Load js (NewStateCache ?d) fs = (None, ?sc, ?fs2)"
    unfolding Load_def Let_def sd mk(1) prod.case option.case mk(2) opt [OF plain_names(4)] opt [OF plain_names(5)] sum.case
      data m(1) by simp
  then show ?thesis using m(2) unfolding loads_reports_def by (intro exI [of _ ?sc] exI [of _ ?fs2]) simp
qed

lemma report_steps_persisted:
  assumes "persisted js sc fs" "payloads_ok valid sc" "report_codec js valid indent" "list_all (report_op_ok valid) ops"
    and "fold (report_step js) ops (sc, fs) = (sc', fs')"
  shows "persisted js sc' fs' \<and> payloads_ok valid sc' \<and> sc_dataDir sc' = sc_dataDir sc"
  using assms
proof (induction ops arbitrary: sc fs)
  case (Cons op ops)
  obtain sc1 fs1 where s: "report_step js op (sc, fs) = (sc1, fs1)" by force
  have 1: "persisted js sc1 fs1" "payloads_ok valid sc1" "sc_dataDir sc1 = sc_dataDir sc"
    using report_step_persisted [OF Cons.prems(1-3) _ s] Cons.prems(4) by simp_all
  have "fold (report_step js) ops (sc1, fs1) = (sc', fs')" "list_all (report_op_ok valid) ops" using Cons.prems(4,5) s by simp_all
  then show ?case using Cons.IH [OF 1(1,2) Cons.prems(3)] 1(3) by simp
qed simp

section \<open>Crashes\<close>

lemma load_dir_fails:
  assumes "no_faults fs" "n \<in> set names" "HasSuffix n ''.json''" "content fs (filepath_Join [dir, n]) = Some s" "um s = Inl err"
  shows "fst (load_dir um key dir names m fs) \<noteq> None"
  using assms(2)
proof (induction names arbitrary: m)
  case (Cons x names)
  show ?case
  proof (cases "x = n")
    case True
    then show ?thesis using assms by (simp add: os_ReadFile_nf)
  next
    case False
    then have IH: "fst (load_dir um key dir names m fs) \<noteq> None" for m using Cons by simp
    then show ?thesis using assms(1) by (auto simp: os_ReadFile_nf split: option.split sum.split)
  qed
qed simp

lemma load_optional_nf: "no_faults fs \<Longrightarrow> snd (load_optional um p fs) = fs"
  by (simp add: load_optional_def os_ReadFile_nf no_such_def split: option.split)

lemma load_dir_nf: "no_faults fs \<Longrightarrow> snd (snd (load_dir um key dir names m fs)) = fs"
  by (induction names arbitrary: m) (auto simp: os_ReadFile_nf split: option.split sum.split)

lemma load_all_nf: "no_faults fs \<Longrightarrow> snd (snd (load_all um key dir fs)) = fs"
  by (auto simp: load_all_def os_ReadDir_def syscall_ok load_dir_nf no_such_def)

text \<open>A load that succeeds has loaded the directory of reports.\<close>

lemma Load_None:
  assumes nf: "no_faults fs" and ok: "fst (Load js sc fs) = None"
  defines "dir \<equiv> filepath_Join [stateDir sc, ''report'']"
  shows "\<exists>ds. fst (load_all (uj_report js) re_Key dir (fs\<lparr>fs_dirs := ds @ path_prefixes dir\<rparr>)) = None"
proof -
  let ?data = "filepath_Join [stateDir sc, ''data'']"
  let ?fs = "fs\<lparr>fs_dirs := (fs_dirs fs @ path_prefixes ?data) @ path_prefixes dir\<rparr>"
  have nf2: "no_faults ?fs" using nf by (simp add: no_faults_def)
  have mk: "os_MkdirAll ?data fs = (None, fs\<lparr>fs_dirs := fs_dirs fs @ path_prefixes ?data\<rparr>)"
    "os_MkdirAll dir (fs\<lparr>fs_dirs := fs_dirs fs @ path_prefixes ?data\<rparr>) = (None, ?fs)"
    using nf by (simp_all add: os_MkdirAll_nf no_faults_def)
  obtain m where m: "load_optional (uj_meta js) (filepath_Join [stateDir sc, ''metadata.json'']) ?fs = (m, ?fs)"
    using load_optional_nf [OF nf2] by (metis prod.collapse)
  obtain r where r: "load_optional (uj_refs js) (filepath_Join [stateDir sc, ''secrets.json'']) ?fs = (r, ?fs)"
    using load_optional_nf [OF nf2] by (metis prod.collapse)
  obtain e d where d: "load_all (uj_data js) de_Key ?data ?fs = (e, d, ?fs)"
    using load_all_nf [OF nf2] by (metis prod.collapse)
  obtain e' q where q: "load_all (uj_report js) re_Key dir ?fs = (e', q, ?fs)"
    using load_all_nf [OF nf2] by (metis prod.collapse)
  have "\<exists>x. m = Inr x" "\<exists>y. r = Inr y"
    using ok unfolding Load_def Let_def mk [unfolded dir_def] mk dir_def [symmetric] prod.case option.case m r
    by (cases m; cases r; simp)+
  then obtain x y where xy: "m = Inr x" "r = Inr y" by blast
  have "e = None" "e' = None"
    using ok unfolding Load_def Let_def mk dir_def [symmetric] prod.case option.case m r xy sum.case d q
    by (cases e; simp)+
  then show ?thesis using q by (metis fst_conv)
qed

section \<open>Versions\<close>

definition current_version :: "string \<Rightarrow> StateCache \<Rightarrow> int" where
  "current_version key sc = (case mget (sc_reports sc) key of None \<Rightarrow> 0 | Some e \<Rightarrow> re_Version e)"

lemma PutReport_conditional:
  assumes "PutReport js now key ct payload (Some v) sc fs = (r, sc', fs')"
  shows "if v = current_version key sc
    then \<exists>e. r = Inr e \<and> re_Version e = wrap64 (v + 1) \<and> sc' = sc\<lparr>sc_reports := mput key e (sc_reports sc)\<rparr>
    else r = Inl ErrVersionConflict \<and> sc' = sc \<and> fs' = fs"
  using assms by (auto simp: PutReport_def current_version_def Let_def wrap64_def split: option.splits if_splits)

lemma report_step_version:
  assumes "report_step js op (sc, fs) = (sc', fs')" "op \<noteq> Del key"
    and "mget (sc_reports sc) key = Some e" "0 \<le> re_Version e" "re_Version e + 1 < 2 ^ 63"
  shows "\<exists>e'. mget (sc_reports sc') key = Some e' \<and> re_Version e \<le> re_Version e' \<and> re_Version e' \<le> re_Version e + 1"
proof -
  have w: "wrap64 (re_Version e + 1) = re_Version e + 1" using assms(4,5) by (intro wrap64_id) (simp add: is_int64_def)
  show ?thesis
  proof (cases op)
    case (Put now k ct payload ifMatch)
    then show ?thesis using assms(1,3) w by (cases "k = key") (auto simp: PutReport_def Let_def split: option.splits if_splits)
  next
    case (Del k)
    then have "map_of (AList.delete k (sc_reports sc)) key = mget (sc_reports sc) key" using assms(2) by (simp add: AList.delete_conv')
    then show ?thesis using assms(1,3) Del by (auto simp: DeleteReport_def split: option.splits)
  qed
qed

lemma report_steps_version:
  assumes "fold (report_step js) ops (sc, fs) = (sc', fs')" "Del key \<notin> set ops"
    and "mget (sc_reports sc) key = Some e" "0 \<le> re_Version e" "re_Version e + int (length ops) < 2 ^ 63"
  shows "\<exists>e'. mget (sc_reports sc') key = Some e' \<and> re_Version e \<le> re_Version e'"
  using assms
proof (induction ops arbitrary: sc fs e)
  case (Cons op ops)
  obtain sc1 fs1 where s: "report_step js op (sc, fs) = (sc1, fs1)" by force
  have op: "op \<noteq> Del key" "re_Version e + 1 < 2 ^ 63" using Cons.prems(2,5) by auto
  obtain e1 where e1: "mget (sc_reports sc1) key = Some e1" "re_Version e \<le> re_Version e1" "re_Version e1 \<le> re_Version e + 1"
    using report_step_version [OF s op(1) Cons.prems(3,4) op(2)] by blast
  have "fold (report_step js) ops (sc1, fs1) = (sc', fs')" "Del key \<notin> set ops" "0 \<le> re_Version e1"
    "re_Version e1 + int (length ops) < 2 ^ 63" using Cons.prems s e1 by auto
  from Cons.IH [OF this(1,2) e1(1) this(3,4)] show ?case using e1(2) by fastforce
qed auto

lemma tmp_blocks_Load:
  assumes root: "HasPrefix dataDir ''/''" and nf: "no_faults fsc" and key: "report_key key"
    and tmp: "content fsc (filepath_Join [state_sub dataDir ''report'', ''.tmp-'' @ key @ ''.json'']) = Some data"
    and bad: "uj_report js data = Inl err"
  shows "fst (Load js (NewStateCache dataDir) fsc) \<noteq> None"
proof
  let ?dir = "state_sub dataDir ''report''" and ?n = "''.tmp-'' @ key @ ''.json''"
  have sd: "filepath_Join [stateDir (NewStateCache dataDir), ''report''] = ?dir" by (simp add: stateDir_def NewStateCache_def)
  assume ok: "fst (Load js (NewStateCache dataDir) fsc) = None"
  obtain ds where l: "fst (load_all (uj_report js) re_Key ?dir (fsc\<lparr>fs_dirs := ds @ path_prefixes ?dir\<rparr>)) = None"
    using Load_None [OF nf ok, unfolded sd] by (elim exE)
  let ?f = "fsc\<lparr>fs_dirs := ds @ path_prefixes ?dir\<rparr>"
  have c: "no_faults ?f" "content ?f (filepath_Join [?dir, ?n]) = Some data" "Clean ?dir = ?dir" "?dir \<in> set (fs_dirs ?f)"
    using nf tmp persisted_dir(2) [OF root plain_names(2)] path_prefixes_self [of ?dir]
    by (simp_all add: no_faults_def content_def)
  obtain names where names: "os_ReadDir ?dir ?f = (Inr names, ?f)"
    "set names = filepath_Base ` {p. content ?f p \<noteq> None \<and> filepath_Dir p = ?dir}"
    by (rule os_ReadDir_nf [OF c(1,3,4)])
  have pn: "plain_name ?n" using tmp_plain [OF key_file_plain] key by (simp add: report_key_def)
  note parts = Dir_Base_entry [OF persisted_dir(1) [OF root plain_names(2)] pn]
  have "filepath_Join [?dir, ?n] \<in> {p. content ?f p \<noteq> None \<and> filepath_Dir p = ?dir}" using c(2,3) parts(1) by simp
  then have "?n \<in> set names" unfolding names(2) by (rule image_eqI [where f = filepath_Base, OF parts(2) [symmetric]])
  moreover have "HasSuffix ?n ''.json''" using HasSuffix_append [of "''.tmp-'' @ key" "''.json''"] by simp
  ultimately have "fst (load_dir (uj_report js) re_Key ?dir names [] ?f) \<noteq> None"
    using load_dir_fails [where um = "uj_report js", OF c(1) _ _ c(2) bad] by blast
  then show False using l by (simp add: load_all_def names(1))
qed

lemma PutReport_fresh:
  "ifMatch = None \<or> ifMatch = Some 0 \<Longrightarrow> \<exists>e sc' fs'. PutReport js now key ct p ifMatch (NewStateCache d) fs = (Inr e, sc', fs')"
  by (auto simp: PutReport_def NewStateCache_def Let_def)

section \<open>Properties of the cache\<close>

text \<open>A fresh data directory, and a concrete JSON codec for the witnesses: the fields of a report in
  Base64 or decimal, separated by bars.\<close>

definition fresh_disk :: "string \<Rightarrow> FS \<Rightarrow> bool" where
  "fresh_disk dataDir fs \<longleftrightarrow> HasPrefix dataDir ''/'' \<and> no_faults fs \<and> fs_files fs = [] \<and>
     state_sub dataDir ''report'' \<in> set (fs_dirs fs)"

lemma fresh_persisted: "fresh_disk dataDir fs \<Longrightarrow> persisted js (NewStateCache dataDir) fs \<and> payloads_ok valid (NewStateCache dataDir)"
  by (simp add: fresh_disk_def persisted_def payloads_ok_def NewStateCache_def fs_ok_def content_def)

definition ex_int :: "string \<Rightarrow> int option" where
  "ex_int s = (case s of [] \<Rightarrow> None
     | c # cs \<Rightarrow> if c = CHR ''-'' then map_option (\<lambda>n. - int n) (parse_digits 0 cs) else map_option int (parse_digits 0 s))"

definition ex_report_json :: "ReportEntry \<Rightarrow> string" where
  "ex_report_json e = EncodeToString (re_Key e) @ ''|'' @ EncodeToString (re_ContentType e) @ ''|'' @
     EncodeToString (re_Payload e) @ ''|'' @ Itoa (re_Version e) @ ''|'' @ Itoa (re_UpdatedAt e)"

definition ex_report_parse :: "string \<Rightarrow> string + ReportEntry" where
  "ex_report_parse s = (case Split s (CHR ''|'') of
       [k, c, p, v, t] \<Rightarrow>
         (case (DecodeString k, DecodeString c, DecodeString p, ex_int v, ex_int t) of
            (Some k, Some c, Some p, Some v, Some t) \<Rightarrow>
              Inr \<lparr>re_Key = k, re_ContentType = c, re_Payload = p, re_Version = v, re_UpdatedAt = t\<rparr>
          | _ \<Rightarrow> Inl ''unexpected end of JSON input'')
     | _ \<Rightarrow> Inl ''unexpected end of JSON input'')"

definition ex_json :: cache_json where
  "ex_json = \<lparr>mj_meta = (\<lambda>_. Inl ''''), uj_meta = (\<lambda>_. Inl ''''), mj_refs = (\<lambda>_. Inl ''''), uj_refs = (\<lambda>_. Inl ''''),
     mj_data = (\<lambda>_. Inl ''''), uj_data = (\<lambda>_. Inl ''''), mj_report = (\<lambda>e. Inr (ex_report_json e)), uj_report = ex_report_parse\<rparr>"

lemma ex_int_Itoa: "ex_int (Itoa n) = Some n"
proof (cases "n < 0")
  case True
  then show ?thesis by (simp add: ex_int_def Itoa_def parse_nat_digits)
next
  case False
  obtain c cs where ds: "nat_digits (nat n) = c # cs" using nat_digits_nonempty [of "nat n"] by (cases "nat_digits (nat n)") auto
  then have "c \<noteq> CHR ''-''" using hd_nat_digits by blast
  then show ?thesis using False ds parse_nat_digits [of "nat n"] by (simp add: ex_int_def Itoa_def)
qed

lemma no_bar: "CHR ''|'' \<notin> set (EncodeToString x)" "CHR ''|'' \<notin> set (Itoa n)"
proof -
  have "list_all (\<lambda>i. b64_char i \<noteq> CHR ''|'') [0..<64]" by code_simp
  then have "b64_char i \<noteq> CHR ''|''" if "i < 64" for i using that by (auto simp: list_all_iff)
  then show "CHR ''|'' \<notin> set (EncodeToString x)"
    by (induction x rule: EncodeToString.induct) (auto simp: b64_range dest: sym)
  have "digit_val (CHR ''|'') = None" by code_simp
  then have "CHR ''|'' \<notin> set (nat_digits m)" for m using nat_digits_digits by blast
  then show "CHR ''|'' \<notin> set (Itoa n)" by (simp add: Itoa_def)
qed

lemma ex_codec: "report_codec ex_json (\<lambda>_. True) id"
  by (simp add: report_codec_def ex_json_def ex_report_parse_def ex_report_json_def Split_append Split_single no_bar
    DecodeString_EncodeToString ex_int_Itoa)

definition ex_disk :: FS where
  "ex_disk = \<lparr>fs_files = [], fs_dirs = [''/v/state/report''], fs_faults = [], fs_seen = []\<rparr>"

definition ex_ops :: "report_op list" where
  "ex_ops = [Put 1 ''health'' ''application/json'' ''{}'' None, Put 2 ''os'' ''application/json'' ''[1]'' (Some 0), Del ''health'']"

lemma ex_fresh: "fresh_disk ''/v'' ex_disk" and ex_ops_ok: "list_all (report_op_ok (\<lambda>_. True)) ex_ops"
  by code_simp+

text \<open>C23: Reports survive a restart: after any sequence of successful or conflicting writes and of
  deletions on a disk that does not fail, a fresh cache loads exactly the reports that the old one
  held, up to the layout of the payloads, provided that no key begins with the prefix of temporary
  files.\<close>

theorem reports_survive_restart:
  assumes "fresh_disk dataDir fs" and "report_codec js valid indent" and "list_all (report_op_ok valid) ops"
    and "fold (report_step js) ops (NewStateCache dataDir, fs) = (sc, fs')"
  shows "\<exists>sc2 fs2. Load js (NewStateCache dataDir) fs' = (None, sc2, fs2) \<and>
    (\<forall>k. GetReport k sc2 = map_option (\<lambda>e. e\<lparr>re_Payload := indent (re_Payload e)\<rparr>) (GetReport k sc))"
proof -
  have p: "persisted js (NewStateCache dataDir) fs" "payloads_ok valid (NewStateCache dataDir)"
    using fresh_persisted [OF assms(1)] by blast+
  have "persisted js sc fs'" "payloads_ok valid sc" "sc_dataDir sc = sc_dataDir (NewStateCache dataDir)"
    using report_steps_persisted [OF p assms(2,3,4)] by blast+
  then have "loads_reports js indent sc fs'" "sc_dataDir sc = dataDir"
    using Load_persisted [OF _ _ assms(2)] by (auto simp: NewStateCache_def)
  then show ?thesis by (simp add: loads_reports_def GetReport_def)
qed

theorem reports_survive_restart_witness:
  "\<exists>sc fs' sc2 fs2. fold (report_step ex_json) ex_ops (NewStateCache ''/v'', ex_disk) = (sc, fs') \<and>
     Load ex_json (NewStateCache ''/v'') fs' = (None, sc2, fs2) \<and> GetReport ''os'' sc2 = GetReport ''os'' sc"
proof -
  obtain sc fs' where run: "fold (report_step ex_json) ex_ops (NewStateCache ''/v'', ex_disk) = (sc, fs')" by force
  obtain sc2 fs2 where "Load ex_json (NewStateCache ''/v'') fs' = (None, sc2, fs2)"
    "GetReport ''os'' sc2 = map_option (\<lambda>e. e\<lparr>re_Payload := id (re_Payload e)\<rparr>) (GetReport ''os'' sc)"
    using reports_survive_restart [OF ex_fresh ex_codec ex_ops_ok run] by blast
  then show ?thesis using run by (intro exI [of _ sc] exI [of _ fs'] exI [of _ sc2] exI [of _ fs2]) (simp add: option.map_ident)
qed

text \<open>A crash in the middle of writing a report leaves a file system on which the cache does not
  load: the temporary file has the suffix of a report, and its contents are not JSON.\<close>

theorem crash_blocks_Load:
  assumes "fresh_disk dataDir fs0" and "report_codec js valid indent" and "list_all (report_op_ok valid) ops"
    and "fold (report_step js) ops (NewStateCache dataDir, fs0) = (sc, fs)"
    and "uj_report js '''' = Inl err" and "report_key key" and "valid payload"
    and "PutReport js now key ct payload ifMatch sc fs = (Inr e, sc', fs')"
  shows "\<exists>m \<in> set (fs_seen fs').
    fst (Load js (NewStateCache dataDir) \<lparr>fs_files = m, fs_dirs = fs_dirs fs, fs_faults = [], fs_seen = []\<rparr>) \<noteq> None"
proof -
  let ?dir = "state_sub dataDir ''report''" and ?n = "''.tmp-'' @ key @ ''.json''"
  have p0: "persisted js (NewStateCache dataDir) fs0" "payloads_ok valid (NewStateCache dataDir)"
    using fresh_persisted [OF assms(1)] by blast+
  have p: "persisted js sc fs" and d: "sc_dataDir sc = dataDir"
    using report_steps_persisted [OF p0 assms(2,3,4)] by (simp_all add: NewStateCache_def)
  have root: "HasPrefix dataDir ''/''" using assms(1) by (simp add: fresh_disk_def)
  have e: "re_Payload e = payload" "fs' = persistJSON (report_path sc key) (mj_report js e) fs"
    using assms(8) by (cases rule: PutReport_cases [of js now key ct payload ifMatch sc fs]; simp add: report_path_def stateDir_def)+
  obtain s where s: "mj_report js e = Inr s" using assms(2,7) e(1) unfolding report_codec_def by blast
  obtain m mode where m: "m \<in> set (fs_seen fs')" "mget m (filepath_Join [?dir, ?n]) = Some ('''', mode)"
    using persist_report [OF p assms(6), of s] e(2) s d by (auto simp: Let_def)
  have c: "content \<lparr>fs_files = m, fs_dirs = fs_dirs fs, fs_faults = [], fs_seen = []\<rparr> (filepath_Join [?dir, ?n]) = Some ''''"
    "no_faults \<lparr>fs_files = m, fs_dirs = fs_dirs fs, fs_faults = [], fs_seen = []\<rparr>"
    using m(2) by (simp_all only: content_def no_faults_def FS.simps option.map fst_conv)
  show ?thesis by (rule bexI [OF _ m(1)]) (rule tmp_blocks_Load [OF root c(2) assms(6) c(1) assms(5)])
qed

theorem crash_blocks_Load_witness:
  "\<exists>e sc' fs'. PutReport ex_json 3 ''os'' ''text/plain'' ''1'' None (NewStateCache ''/v'') ex_disk = (Inr e, sc', fs') \<and>
     (\<exists>m. m \<in> set (fs_seen fs') \<and>
       fst (Load ex_json (NewStateCache ''/v'') \<lparr>fs_files = m, fs_dirs = fs_dirs ex_disk, fs_faults = [], fs_seen = []\<rparr>) \<noteq> None)"
proof -
  have k: "report_key ''os''" "uj_report ex_json '''' = Inl ''unexpected end of JSON input''" by code_simp+
  obtain e sc' fs' where put: "PutReport ex_json 3 ''os'' ''text/plain'' ''1'' None (NewStateCache ''/v'') ex_disk = (Inr e, sc', fs')"
    using PutReport_fresh [of "None"] by blast
  have "fold (report_step ex_json) [] (NewStateCache ''/v'', ex_disk) = (NewStateCache ''/v'', ex_disk)" "list_all (report_op_ok (\<lambda>_. True)) []"
    by simp_all
  from crash_blocks_Load [OF ex_fresh ex_codec this(2,1) k(2,1) TrueI put]
  obtain m where "m \<in> set (fs_seen fs')"
    "fst (Load ex_json (NewStateCache ''/v'') \<lparr>fs_files = m, fs_dirs = fs_dirs ex_disk, fs_faults = [], fs_seen = []\<rparr>) \<noteq> None"
    by (elim bexE)
  with put show ?thesis by (intro exI conjI)
qed

text \<open>C24: Optimistic locking: once a write conditional on a version has succeeded, a second write
  conditional on the same version is refused and changes nothing, whatever other writes happen in
  between, as long as the report is not deleted.\<close>

theorem PutReport_no_lost_update:
  assumes "PutReport js t1 key ct1 p1 (Some v) sc fs = (Inr e, sc1, fs1)"
    and "fold (report_step js) ops (sc1, fs1) = (sc2, fs2)" and "Del key \<notin> set ops"
    and "0 \<le> v" and "v + 1 + int (length ops) < 2 ^ 63"
  shows "PutReport js t2 key ct2 p2 (Some v) sc2 fs2 = (Inl ErrVersionConflict, sc2, fs2)"
proof -
  have w: "wrap64 (v + 1) = v + 1" using assms(4,5) by (intro wrap64_id) (simp add: is_int64_def)
  have "re_Version e = v + 1" "mget (sc_reports sc1) key = Some e"
    using PutReport_conditional [OF assms(1)] w by (auto split: if_splits)
  then obtain e' where "mget (sc_reports sc2) key = Some e'" "v < re_Version e'"
    using report_steps_version [OF assms(2,3), of e] assms(4,5) by auto
  then show ?thesis by (simp add: PutReport_def Let_def)
qed

theorem PutReport_no_lost_update_witness:
  "\<exists>e sc1 fs1. PutReport ex_json 3 ''os'' ''text/plain'' ''1'' (Some 0) (NewStateCache ''/v'') ex_disk = (Inr e, sc1, fs1) \<and>
     PutReport ex_json 4 ''os'' ''text/plain'' ''2'' (Some 0) sc1 fs1 = (Inl ErrVersionConflict, sc1, fs1)"
proof -
  obtain e sc1 fs1 where put: "PutReport ex_json 3 ''os'' ''text/plain'' ''1'' (Some 0) (NewStateCache ''/v'') ex_disk = (Inr e, sc1, fs1)"
    using PutReport_fresh [of "Some 0"] by blast
  from PutReport_no_lost_update [OF put, of "[]" sc1 fs1 4 "''text/plain''" "''2''"] show ?thesis using put by simp
qed

end
