(* ===== verification/ReportSync.thy ===== *)
theory ReportSync
  imports GoLib
begin

text \<open>
  The report syncer of the local node API, \<open>internal/nodeapi/sync.go\<close>, with the request types of
  \<open>internal/api/types.go\<close>.  Changes are appended to a buffer under a mutex and announced on a
  channel of capacity one; a single loop waits for the announcement, debounces, takes the buffer and
  sends it, and puts it back when sending fails.  The callers of \<open>NotifyChange\<close> and the loop run
  concurrently: the model is a step relation whose steps are the critical sections and the channel
  operations, each given by the definition of the code between two of them.
\<close>

section \<open>Types\<close>

record ApiReportEntry =
  are_Key :: string
  are_ContentType :: string
  are_Payload :: string
  are_Version :: int
  are_UpdatedAt :: time

record ReportSyncRequest =
  rsq_Entries :: "ApiReportEntry list"
  rsq_Deleted :: "string list"

record ReportSyncer =
  rs_nodeID :: string
  rs_debouncePeriod :: duration
  rs_entries :: "ApiReportEntry list"
  rs_deleted :: "string list"
  rs_pending :: bool
  rs_notifyCh :: bool

definition NewReportSyncer :: "string \<Rightarrow> duration \<Rightarrow> ReportSyncer" where
  "NewReportSyncer nodeID debouncePeriod =
     \<lparr>rs_nodeID = nodeID, rs_debouncePeriod = debouncePeriod, rs_entries = [], rs_deleted = [], rs_pending = False,
      rs_notifyCh = False\<rparr>"

section \<open>Operations\<close>

text \<open>The critical section of \<open>NotifyChange\<close>, and the non-blocking send on the channel.\<close>

definition buffer_change :: "ApiReportEntry list \<Rightarrow> string list \<Rightarrow> ReportSyncer \<Rightarrow> ReportSyncer" where
  "buffer_change entries deleted s =
     s\<lparr>rs_entries := rs_entries s @ entries, rs_deleted := rs_deleted s @ deleted, rs_pending := True\<rparr>"

definition signal :: "ReportSyncer \<Rightarrow> ReportSyncer" where
  "signal s = s\<lparr>rs_notifyCh := True\<rparr>"

definition NotifyChange :: "ApiReportEntry list \<Rightarrow> string list \<Rightarrow> ReportSyncer \<Rightarrow> ReportSyncer" where
  "NotifyChange entries deleted s = signal (buffer_change entries deleted s)"

text \<open>The two critical sections of \<open>flush\<close>.\<close>

definition take_buffer :: "ReportSyncer \<Rightarrow> (ApiReportEntry list \<times> string list) \<times> ReportSyncer" where
  "take_buffer s = ((rs_entries s, rs_deleted s), s\<lparr>rs_entries := [], rs_deleted := [], rs_pending := False\<rparr>)"

definition rebuffer :: "ApiReportEntry list \<Rightarrow> string list \<Rightarrow> ReportSyncer \<Rightarrow> ReportSyncer" where
  "rebuffer entries deleted s =
     s\<lparr>rs_entries := entries @ rs_entries s, rs_deleted := deleted @ rs_deleted s, rs_pending := True\<rparr>"

text \<open>\<open>flush\<close> when nothing else runs: \<open>SyncReports\<close> answers with an error or not, and \<open>cancelled\<close> is
  what \<open>ctx.Err()\<close> says afterwards.\<close>

definition flush :: "(string \<Rightarrow> ReportSyncRequest \<Rightarrow> string option) \<Rightarrow> bool \<Rightarrow> ReportSyncer \<Rightarrow> ReportSyncer" where
  "flush SyncReports cancelled s =
     (let ((entries, deleted), s) = take_buffer s in
      if entries = [] \<and> deleted = [] then s
      else case SyncReports (rs_nodeID s) \<lparr>rsq_Entries = entries, rsq_Deleted = deleted\<rparr> of
             None \<Rightarrow> s
           | Some err \<Rightarrow> if cancelled then s else signal (rebuffer entries deleted s))"

section \<open>The loop and its callers\<close>

text \<open>Where the loop of \<open>Run\<close> stands.\<close>

datatype run_loc =
    Waiting
  | Debouncing time
  | Flushing
  | Sending "ApiReportEntry list" "string list"
  | Resignalling
  | Returned

text \<open>The syncer, the loop, the callers of \<open>NotifyChange\<close> between their critical section and their
  send, the context and the clock; and the history: what the callers handed over, the requests that
  were acknowledged, and when requests were sent.\<close>

record sync_world =
  sy_s :: ReportSyncer
  sy_loc :: run_loc
  sy_signals :: nat
  sy_cancelled :: bool
  sy_now :: time
  sy_notified :: "ApiReportEntry list \<times> string list"
  sy_acked :: "ReportSyncRequest list"
  sy_calls :: "time list"

definition sync_init :: "string \<Rightarrow> duration \<Rightarrow> time \<Rightarrow> sync_world" where
  "sync_init nodeID period now =
     \<lparr>sy_s = NewReportSyncer nodeID period, sy_loc = Waiting, sy_signals = 0, sy_cancelled = False, sy_now = now,
      sy_notified = ([], []), sy_acked = [], sy_calls = []\<rparr>"

definition flush_take :: "sync_world \<Rightarrow> sync_world" where
  "flush_take w =
     (let ((entries, deleted), s) = take_buffer (sy_s w) in
      if entries = [] \<and> deleted = [] then w\<lparr>sy_s := s, sy_loc := Waiting\<rparr>
      else w\<lparr>sy_s := s, sy_loc := Sending entries deleted, sy_calls := sy_calls w @ [sy_now w]\<rparr>)"

inductive sync_step :: "sync_world \<Rightarrow> sync_world \<Rightarrow> bool" where
  notify: "sync_step w (w\<lparr>sy_s := buffer_change es ds (sy_s w), sy_signals := Suc (sy_signals w),
             sy_notified := (fst (sy_notified w) @ es, snd (sy_notified w) @ ds)\<rparr>)"
| announce: "sy_signals w = Suc n \<Longrightarrow> sync_step w (w\<lparr>sy_s := signal (sy_s w), sy_signals := n\<rparr>)"
| tick: "0 \<le> d \<Longrightarrow> sync_step w (w\<lparr>sy_now := sy_now w + d\<rparr>)"
| cancel: "sync_step w (w\<lparr>sy_cancelled := True\<rparr>)"
| wait_done: "sy_loc w = Waiting \<Longrightarrow> sy_cancelled w \<Longrightarrow> sync_step w (w\<lparr>sy_loc := Returned\<rparr>)"
| wake: "sy_loc w = Waiting \<Longrightarrow> rs_notifyCh (sy_s w) \<Longrightarrow>
     sync_step w (w\<lparr>sy_s := (sy_s w)\<lparr>rs_notifyCh := False\<rparr>, sy_loc := Debouncing (sy_now w)\<rparr>)"
| debounce_done: "sy_loc w = Debouncing t \<Longrightarrow> sy_cancelled w \<Longrightarrow> sync_step w (w\<lparr>sy_loc := Returned\<rparr>)"
| fire: "sy_loc w = Debouncing t \<Longrightarrow> t + rs_debouncePeriod (sy_s w) \<le> sy_now w \<Longrightarrow> sync_step w (w\<lparr>sy_loc := Flushing\<rparr>)"
| grab: "sy_loc w = Flushing \<Longrightarrow> sync_step w (flush_take w)"
| sent: "sy_loc w = Sending es ds \<Longrightarrow>
     sync_step w (w\<lparr>sy_loc := Waiting, sy_acked := sy_acked w @ [\<lparr>rsq_Entries = es, rsq_Deleted = ds\<rparr>]\<rparr>)"
| failed_cancelled: "sy_loc w = Sending es ds \<Longrightarrow> sy_cancelled w \<Longrightarrow> sync_step w (w\<lparr>sy_loc := Waiting\<rparr>)"
| failed: "sy_loc w = Sending es ds \<Longrightarrow> \<not> sy_cancelled w \<Longrightarrow>
     sync_step w (w\<lparr>sy_s := rebuffer es ds (sy_s w), sy_loc := Resignalling\<rparr>)"
| resignal: "sy_loc w = Resignalling \<Longrightarrow> sync_step w (w\<lparr>sy_s := signal (sy_s w), sy_loc := Waiting\<rparr>)"

inductive sync_reach :: "sync_world \<Rightarrow> sync_world \<Rightarrow> bool" where
  sync_here: "sync_reach w w"
| sync_more: "sync_reach w w' \<Longrightarrow> sync_step w' w'' \<Longrightarrow> sync_reach w w''"

section \<open>Nothing is lost\<close>

fun in_flight :: "run_loc \<Rightarrow> ApiReportEntry list \<times> string list" where
  "in_flight (Sending es ds) = (es, ds)"
| "in_flight l = ([], [])"

definition acked_entries :: "sync_world \<Rightarrow> ApiReportEntry list" where
  "acked_entries w = concat (map rsq_Entries (sy_acked w))"

definition acked_deleted :: "sync_world \<Rightarrow> string list" where
  "acked_deleted w = concat (map rsq_Deleted (sy_acked w))"

definition buffered :: "ReportSyncer \<Rightarrow> bool" where
  "buffered s \<longleftrightarrow> rs_entries s \<noteq> [] \<or> rs_deleted s \<noteq> []"

text \<open>Acknowledged, in flight and buffered changes are those that were handed over, in their order.\<close>

definition conserved :: "sync_world \<Rightarrow> bool" where
  "conserved w \<longleftrightarrow>
     acked_entries w @ fst (in_flight (sy_loc w)) @ rs_entries (sy_s w) = fst (sy_notified w) \<and>
     acked_deleted w @ snd (in_flight (sy_loc w)) @ rs_deleted (sy_s w) = snd (sy_notified w)"

text \<open>A buffered change has somebody who will look at it.\<close>

definition will_wake :: "sync_world \<Rightarrow> bool" where
  "will_wake w \<longleftrightarrow> buffered (sy_s w) \<longrightarrow>
     rs_notifyCh (sy_s w) \<or> 0 < sy_signals w \<or> (\<exists>t. sy_loc w = Debouncing t) \<or> sy_loc w \<in> {Flushing, Resignalling}"

lemmas sync_ops = buffer_change_def signal_def take_buffer_def rebuffer_def flush_take_def Let_def

lemma sync_step_conserved:
  assumes "sync_step w w'" and "\<not> sy_cancelled w \<Longrightarrow> conserved w \<and> will_wake w \<and> sy_loc w \<noteq> Returned" and "\<not> sy_cancelled w'"
  shows "conserved w' \<and> will_wake w' \<and> sy_loc w' \<noteq> Returned"
  using assms
  by (cases rule: sync_step.cases)
    (auto simp: conserved_def will_wake_def acked_entries_def acked_deleted_def buffered_def sync_ops)

lemma sync_reach_conserved:
  assumes "sync_reach (sync_init nodeID period t0) w"
  shows "\<not> sy_cancelled w \<Longrightarrow> conserved w \<and> will_wake w \<and> sy_loc w \<noteq> Returned"
  using assms
proof (induction "sync_init nodeID period t0" w rule: sync_reach.induct)
  case sync_here
  then show ?case
    by (simp add: sync_init_def conserved_def will_wake_def acked_entries_def acked_deleted_def buffered_def NewReportSyncer_def)
next
  case (sync_more w' w'')
  then show ?case using sync_step_conserved by blast
qed

section \<open>The rate of requests\<close>

definition spaced :: "sync_world \<Rightarrow> bool" where
  "spaced w \<longleftrightarrow>
     sorted_wrt (\<lambda>a b. a + rs_debouncePeriod (sy_s w) \<le> b) (sy_calls w) \<and> (\<forall>c \<in> set (sy_calls w). c \<le> sy_now w) \<and>
     (\<forall>t. sy_loc w = Debouncing t \<longrightarrow> t \<le> sy_now w \<and> (\<forall>c \<in> set (sy_calls w). c \<le> t)) \<and>
     (sy_loc w = Flushing \<longrightarrow> (\<forall>c \<in> set (sy_calls w). c + rs_debouncePeriod (sy_s w) \<le> sy_now w))"

lemma sync_step_period:
  assumes "sync_step w w'"
  shows "rs_debouncePeriod (sy_s w') = rs_debouncePeriod (sy_s w)"
  using assms by (cases rule: sync_step.cases) (auto simp: sync_ops)

lemma sync_step_spaced:
  assumes "sync_step w w'" and "spaced w"
  shows "spaced w'"
  using assms by (cases rule: sync_step.cases) (fastforce simp: spaced_def sync_ops sorted_wrt_append)+

lemma sync_reach_spaced:
  "sync_reach (sync_init nodeID period t0) w \<Longrightarrow> spaced w \<and> rs_debouncePeriod (sy_s w) = period"
proof (induction "sync_init nodeID period t0" w rule: sync_reach.induct)
  case sync_here
  then show ?case by (simp add: sync_init_def spaced_def NewReportSyncer_def)
next
  case (sync_more w' w'')
  then show ?case using sync_step_spaced sync_step_period by metis
qed

section \<open>Delivery\<close>

text \<open>What the loop does from \<open>Waiting\<close> with a pending announcement, when the control plane accepts
  the request and nobody interferes.\<close>

lemma sync_reach_trans: "sync_reach w' w'' \<Longrightarrow> sync_reach w w' \<Longrightarrow> sync_reach w w''"
  by (induction rule: sync_reach.induct) (auto intro: sync_more)

lemma sync_reach_step: "sync_step w w' \<Longrightarrow> sync_reach w w'"
  using sync_here sync_more by blast

definition delivered :: "sync_world \<Rightarrow> sync_world \<Rightarrow> bool" where
  "delivered w w' \<longleftrightarrow> sync_reach w w' \<and> sy_notified w' = sy_notified w \<and> \<not> sy_cancelled w' \<and> sy_loc w' = Waiting \<and>
     \<not> buffered (sy_s w')"

lemma delivered_later:
  "sync_step w w' \<Longrightarrow> sy_notified w' = sy_notified w \<Longrightarrow> \<exists>w''. delivered w' w'' \<Longrightarrow> \<exists>w''. delivered w w''"
  unfolding delivered_def by (metis sync_reach_trans sync_reach_step)

lemma deliver_Flushing:
  assumes "sy_loc w = Flushing" "\<not> sy_cancelled w"
  shows "\<exists>w'. delivered w w'"
proof (cases "buffered (sy_s w)")
  case False
  then have "delivered w (flush_take w)"
    using sync_reach_step [OF grab [OF assms(1)]] assms by (auto simp: delivered_def buffered_def sync_ops)
  then show ?thesis ..
next
  case True
  let ?w = "flush_take w"
  have loc: "sy_loc ?w = Sending (rs_entries (sy_s w)) (rs_deleted (sy_s w))" "\<not> buffered (sy_s ?w)" "sy_notified ?w = sy_notified w"
    "\<not> sy_cancelled ?w"
    using True assms by (auto simp: buffered_def sync_ops)
  show ?thesis
  proof (rule delivered_later [OF grab [OF assms(1)] loc(3)])
    show "\<exists>w'. delivered ?w w'"
      using sync_reach_step [OF sent [OF loc(1)]] loc by (auto simp: delivered_def)
  qed
qed

lemma deliver_Debouncing:
  assumes "sy_loc w = Debouncing t" "\<not> sy_cancelled w"
  shows "\<exists>w'. delivered w w'"
proof -
  let ?w = "w\<lparr>sy_now := sy_now w + \<bar>t + rs_debouncePeriod (sy_s w) - sy_now w\<bar>\<rparr>"
  have f: "sync_step ?w (?w\<lparr>sy_loc := Flushing\<rparr>)" using assms(1) by (intro fire) auto
  show ?thesis
    by (rule delivered_later [OF tick [of "\<bar>t + rs_debouncePeriod (sy_s w) - sy_now w\<bar>"]], simp, simp,
        rule delivered_later [OF f], simp, rule deliver_Flushing) (use assms in simp_all)
qed

lemma deliver_announced:
  assumes "sy_loc w = Waiting" "rs_notifyCh (sy_s w)" "\<not> sy_cancelled w"
  shows "\<exists>w'. delivered w w'"
  by (rule delivered_later [OF wake [OF assms(1,2)]], simp, rule deliver_Debouncing) (use assms in simp_all)

lemma deliver_Waiting:
  assumes "sy_loc w = Waiting" "will_wake w" "\<not> sy_cancelled w"
  shows "\<exists>w'. delivered w w'"
proof (cases "buffered (sy_s w)")
  case False
  then show ?thesis using sync_here assms by (auto simp: delivered_def)
next
  case True
  show ?thesis
  proof (cases "rs_notifyCh (sy_s w)")
    case False
    then obtain n where "sy_signals w = Suc n" using True assms by (auto simp: will_wake_def gr0_conv_Suc)
    from announce [OF this] show ?thesis
      by (rule delivered_later, simp_all add: signal_def) (rule deliver_announced; use assms in simp)
  qed (use deliver_announced assms in blast)
qed

lemma deliver_any:
  assumes "\<not> sy_cancelled w" "will_wake w" "sy_loc w \<noteq> Returned"
  shows "\<exists>w'. delivered w w'"
proof (cases "sy_loc w")
  case (Sending es ds)
  have "will_wake (w\<lparr>sy_loc := Waiting, sy_acked := sy_acked w @ [\<lparr>rsq_Entries = es, rsq_Deleted = ds\<rparr>]\<rparr>)"
    using assms(2) Sending by (simp add: will_wake_def)
  then show ?thesis by (intro delivered_later [OF sent [OF Sending]] deliver_Waiting) (use assms in simp_all)
next
  case Resignalling
  show ?thesis
    by (rule delivered_later [OF resignal [OF Resignalling]], simp, rule deliver_announced) (use assms in \<open>simp_all add: signal_def\<close>)
qed (use assms deliver_Waiting deliver_Debouncing deliver_Flushing in blast)+

section \<open>Properties of the syncer\<close>

text \<open>Two concrete runs: one change has been buffered, and its request has been sent.\<close>

definition ex_report :: ApiReportEntry where
  "ex_report = \<lparr>are_Key = ''os'', are_ContentType = ''text/plain'', are_Payload = ''1'', are_Version = 1, are_UpdatedAt = 0\<rparr>"

definition ex_pending :: sync_world where
  "ex_pending = (let w = sync_init ''n'' Second 0 in
     w\<lparr>sy_s := buffer_change [ex_report] [] (sy_s w), sy_signals := Suc (sy_signals w),
       sy_notified := (fst (sy_notified w) @ [ex_report], snd (sy_notified w) @ [])\<rparr>)"

lemma ex_pending_reach: "sync_reach (sync_init ''n'' Second 0) ex_pending"
  unfolding ex_pending_def Let_def by (rule sync_reach_step [OF notify])

lemma ex_sent_reach: "\<exists>w. sync_reach (sync_init ''n'' Second 0) w \<and> sy_calls w = [Second]"
proof -
  let ?w1 = "ex_pending\<lparr>sy_s := signal (sy_s ex_pending), sy_signals := 0\<rparr>"
  let ?w2 = "?w1\<lparr>sy_s := (sy_s ?w1)\<lparr>rs_notifyCh := False\<rparr>, sy_loc := Debouncing (sy_now ?w1)\<rparr>"
  let ?w3 = "?w2\<lparr>sy_now := sy_now ?w2 + Second\<rparr>"
  let ?w4 = "?w3\<lparr>sy_loc := Flushing\<rparr>"
  note defs = ex_pending_def sync_init_def NewReportSyncer_def sync_ops
  have "sync_step ex_pending ?w1" by (rule announce) (simp add: defs)
  moreover have "sync_step ?w1 ?w2" by (rule wake) (simp_all add: defs)
  moreover have "sync_step ?w2 ?w3" by (rule tick) simp
  moreover have "sync_step ?w3 ?w4" by (rule fire [of _ 0]) (simp_all add: defs)
  moreover have "sync_step ?w4 (flush_take ?w4)" by (rule grab) simp
  ultimately have "sync_reach (sync_init ''n'' Second 0) (flush_take ?w4)" using ex_pending_reach by (meson sync_more)
  moreover have "sy_calls (flush_take ?w4) = [Second]" by (simp add: defs)
  ultimately show ?thesis by blast
qed

text \<open>C28: No report change is lost, duplicated or reordered, however the callers and the loop
  interleave and however often sending fails: as long as the context is alive, the acknowledged
  requests, the request in flight and the buffer are, in this order, exactly what the callers handed
  over, entries and deletions alike.\<close>

theorem report_sync_conserves:
  assumes "sync_reach (sync_init nodeID period t0) w" and "\<not> sy_cancelled w"
  shows "concat (map rsq_Entries (sy_acked w)) @ fst (in_flight (sy_loc w)) @ rs_entries (sy_s w) = fst (sy_notified w) \<and>
    concat (map rsq_Deleted (sy_acked w)) @ snd (in_flight (sy_loc w)) @ rs_deleted (sy_s w) = snd (sy_notified w)"
  using sync_reach_conserved [OF assms] unfolding conserved_def acked_entries_def acked_deleted_def by blast

theorem report_sync_conserves_witness:
  "rs_entries (sy_s ex_pending) = [ex_report] \<and> fst (sy_notified ex_pending) = [ex_report] \<and>
   concat (map rsq_Entries (sy_acked ex_pending)) @ fst (in_flight (sy_loc ex_pending)) @ rs_entries (sy_s ex_pending) =
     fst (sy_notified ex_pending)"
  using report_sync_conserves [OF ex_pending_reach] by (simp add: ex_pending_def sync_init_def sync_ops NewReportSyncer_def)



text \<open>Requests are rate limited: two requests are never sent less than the debounce period apart,
  also when sending fails.\<close>

theorem report_sync_rate:
  assumes "sync_reach (sync_init nodeID period t0) w"
  shows "sorted_wrt (\<lambda>a b. a + period \<le> b) (sy_calls w)"
  using sync_reach_spaced [OF assms] unfolding spaced_def by blast

theorem report_sync_rate_witness:
  "\<exists>w. sync_reach (sync_init ''n'' Second 0) w \<and> sy_calls w = [Second] \<and> sorted_wrt (\<lambda>a b. a + Second \<le> b) (sy_calls w)"
  using ex_sent_reach report_sync_rate by blast

end
