(* ===== verification/SseStream.thy ===== *)
theory SseStream
  imports EventVerifier
begin

text \<open>
  The event stream of \<open>internal/api\<close>: the parser and the stream of \<open>sse.go\<close>, the dispatcher
  of \<open>dispatcher.go\<close>, and the idle timeout of the reader.

  The verifier and the event handlers share a world \<open>'w\<close>, because a handler may replace the
  keys of the verifier.  What the stream relies on in a verifier is the locale
  \<open>event_verifier\<close>, interpreted on both verifiers of the code.
\<close>

section \<open>sse.go: the parser\<close>

record SSEEvent =
  evt_Type :: string
  evt_Data :: string
  evt_ID :: string

text \<open>
  The parser reads the lines of the scanner; the calls of the retry callback are recorded in
  order.  A parser without a callback makes none.
\<close>

record SSEParser =
  sp_lines :: "string list"
  sp_lastEventID :: string
  sp_hasCallback :: bool
  sp_retries :: "duration list"

definition NewSSEParser :: "string \<Rightarrow> SSEParser" where
  "NewSSEParser input = \<lparr>sp_lines = ScanLines input, sp_lastEventID = '''', sp_hasCallback = False, sp_retries = []\<rparr>"

definition SetRetryCallback :: "SSEParser \<Rightarrow> SSEParser" where
  "SetRetryCallback p = p\<lparr>sp_hasCallback := True\<rparr>"

definition dispatch_event :: "string \<Rightarrow> string list \<Rightarrow> string \<Rightarrow> SSEEvent" where
  "dispatch_event eventType data i =
     \<lparr>evt_Type = (if eventType = '''' then ''message'' else eventType),
      evt_Data = Join data [CHR 0x0A], evt_ID = i\<rparr>"

text \<open>The switch over the field names: the accumulated type, data lines and identifier.\<close>

definition apply_field ::
    "string \<Rightarrow> string \<Rightarrow> string \<Rightarrow> string list \<Rightarrow> string \<Rightarrow> SSEParser \<Rightarrow>
     string \<times> string list \<times> string \<times> SSEParser" where
  "apply_field field value eventType data i p =
     (if field = ''event'' then (value, data, i, p)
      else if field = ''data'' then (eventType, data @ [value], i, p)
      else if field = ''id'' then (eventType, data, value, p)
      else if field = ''retry'' then
        (case Atoi value of
           Some ms \<Rightarrow>
             if sp_hasCallback p
             then (eventType, data, i, p\<lparr>sp_retries := sp_retries p @ [wrap64 (ms * Millisecond)]\<rparr>)
             else (eventType, data, i, p)
         | None \<Rightarrow> (eventType, data, i, p))
      else (eventType, data, i, p))"

fun Next_loop ::
    "string list \<Rightarrow> string \<Rightarrow> string list \<Rightarrow> string \<Rightarrow> SSEParser \<Rightarrow> SSEEvent option \<times> SSEParser" where
  "Next_loop [] eventType data i p = (None, p\<lparr>sp_lines := []\<rparr>)"
| "Next_loop (line # lines) eventType data i p =
     (if line = '''' then
        (if length data > 0 then
           (Some (dispatch_event eventType data i),
            p\<lparr>sp_lines := lines, sp_lastEventID := (if i \<noteq> '''' then i else sp_lastEventID p)\<rparr>)
         else Next_loop lines '''' [] '''' p)
      else if HasPrefix line '':'' then Next_loop lines eventType data i p
      else
        let (field, value, _) = Cut line (CHR '':'');
            (eventType', data', i', p') = apply_field field (TrimPrefix value '' '') eventType data i p
        in Next_loop lines eventType' data' i' p')"

definition Next :: "SSEParser \<Rightarrow> SSEEvent option \<times> SSEParser" where
  "Next p = Next_loop (sp_lines p) '''' [] '''' p"

lemma Next_loop_decreases:
  "Next_loop lines t d i p = (Some e, p') \<Longrightarrow> length (sp_lines p') < length lines"
proof (induction lines arbitrary: t d i p)
  case (Cons line lines)
  have "(\<exists>t d i p. Next_loop (line # lines) t' d' i' p'' = Next_loop lines t d i p) \<or>
      sp_lines (snd (Next_loop (line # lines) t' d' i' p'')) = lines" for t' d' i' p''
    by (simp add: split_beta Let_def) blast
  then show ?case using Cons.prems Cons.IH by (metis length_Cons less_Suc_eq snd_conv)
qed simp

lemma Next_decreases: "Next p = (Some e, p') \<Longrightarrow> length (sp_lines p') < length (sp_lines p)"
  unfolding Next_def by (rule Next_loop_decreases)

text \<open>All events of a stream, in order.\<close>

function parse_events :: "SSEParser \<Rightarrow> SSEEvent list" where
  "parse_events p = (case Next p of (None, _) \<Rightarrow> [] | (Some e, p') \<Rightarrow> e # parse_events p')"
  by auto

termination
  by (relation "measure (\<lambda>p. length (sp_lines p))") (auto dest: Next_decreases[OF sym])

declare parse_events.simps [simp del]

section \<open>dispatcher.go\<close>

type_synonym 'w EventHandler = "SignedEnvelope \<Rightarrow> 'w \<Rightarrow> string option outcome \<times> 'w"

type_synonym 'w EventDispatcher = "(string, 'w EventHandler list) gomap"

definition Register :: "string \<Rightarrow> 'w EventHandler \<Rightarrow> 'w EventDispatcher \<Rightarrow> 'w EventDispatcher" where
  "Register eventType handler d =
     mput eventType ((case mget d eventType of None \<Rightarrow> [] | Some hs \<Rightarrow> hs) @ [handler]) d"

text \<open>An error of a handler is logged; a panic is not recovered.\<close>

fun dispatch_loop :: "'w EventHandler list \<Rightarrow> SignedEnvelope \<Rightarrow> 'w \<Rightarrow> unit outcome \<times> 'w" where
  "dispatch_loop [] env w = (Ret (), w)"
| "dispatch_loop (h # hs) env w =
     (case h env w of
        (Panic v, w') \<Rightarrow> (Panic v, w')
      | (Ret err, w') \<Rightarrow> dispatch_loop hs env w')"

definition Dispatch :: "'w EventDispatcher \<Rightarrow> SignedEnvelope \<Rightarrow> 'w \<Rightarrow> unit outcome \<times> 'w" where
  "Dispatch d env w =
     (case mget d (env_EventType env) of
        None \<Rightarrow> (Ret (), w)
      | Some handlers \<Rightarrow> if length handlers = 0 then (Ret (), w) else dispatch_loop handlers env w)"

section \<open>sse.go: the idle timeout\<close>

record idleTimeoutReader =
  it_err :: bool
  it_stopped :: bool
  it_closed :: bool
  it_armed :: bool

definition newIdleTimeoutReader :: "duration \<Rightarrow> idleTimeoutReader" where
  "newIdleTimeoutReader timeout =
     \<lparr>it_err = False, it_stopped = False, it_closed = False, it_armed = timeout > 0\<rparr>"

definition onTimeout :: "idleTimeoutReader \<Rightarrow> idleTimeoutReader" where
  "onTimeout r = (if it_stopped r then r else r\<lparr>it_err := True, it_closed := True\<rparr>)"

definition idle_Stop :: "idleTimeoutReader \<Rightarrow> idleTimeoutReader" where
  "idle_Stop r = r\<lparr>it_stopped := True, it_armed := False\<rparr>"

section \<open>sse.go: the stream\<close>

text \<open>
  The state of one connection.  \<open>ss_log\<close> records, for each dispatched envelope, the clock and
  the world in which it was verified.  The end of the input is reached with or without a prior
  idle timeout, which is the argument \<open>idle\<close>; the context is cancelled from iteration
  \<open>n\<close> on when \<open>cancelled n\<close>.
\<close>

record ('c, 'w) sse_state =
  ss_lastEventID :: string
  ss_world :: 'w
  ss_log :: "('c \<times> SignedEnvelope \<times> 'w) list"

datatype connect_result = CtxErr | IdleTimeout | Clean | ConnectErr string

definition handle_event ::
    "(string \<Rightarrow> string + SignedEnvelope) \<Rightarrow> ('c \<Rightarrow> SignedEnvelope \<Rightarrow> 'w \<Rightarrow> string option outcome \<times> 'w) \<Rightarrow>
     'w EventDispatcher \<Rightarrow> 'c \<Rightarrow> SSEEvent \<Rightarrow> ('c, 'w) sse_state \<Rightarrow> unit outcome \<times> ('c, 'w) sse_state" where
  "handle_event unmarshal verify d c evt s =
     (let s = (if evt_ID evt \<noteq> '''' then s\<lparr>ss_lastEventID := evt_ID evt\<rparr> else s)
      in case ParseEnvelope unmarshal (evt_Data evt) of
           Inl err \<Rightarrow> (Ret (), s)
         | Inr envelope \<Rightarrow>
             (case verify c envelope (ss_world s) of
                (Panic v, w) \<Rightarrow> (Panic v, s\<lparr>ss_world := w\<rparr>)
              | (Ret (Some err), w) \<Rightarrow> (Ret (), s\<lparr>ss_world := w\<rparr>)
              | (Ret None, w) \<Rightarrow>
                  let (r, w') = Dispatch d envelope w
                  in (r, s\<lparr>ss_world := w', ss_log := ss_log s @ [(c, envelope, ss_world s)]\<rparr>)))"

function Connect_loop ::
    "(string \<Rightarrow> string + SignedEnvelope) \<Rightarrow> ('c \<Rightarrow> SignedEnvelope \<Rightarrow> 'w \<Rightarrow> string option outcome \<times> 'w) \<Rightarrow>
     'w EventDispatcher \<Rightarrow> (nat \<Rightarrow> 'c) \<Rightarrow> (nat \<Rightarrow> bool) \<Rightarrow> bool \<Rightarrow> nat \<Rightarrow> SSEParser \<Rightarrow> ('c, 'w) sse_state \<Rightarrow>
     connect_result outcome \<times> ('c, 'w) sse_state" where
  "Connect_loop unmarshal verify d clk cancelled idle n p s =
     (if cancelled n then (Ret CtxErr, s)
      else case Next p of
        (None, _) \<Rightarrow> (Ret (if idle then IdleTimeout else Clean), s)
      | (Some evt, p') \<Rightarrow>
          (case handle_event unmarshal verify d (clk n) evt s of
             (Panic v, s') \<Rightarrow> (Panic v, s')
           | (Ret _, s') \<Rightarrow> Connect_loop unmarshal verify d clk cancelled idle (n + 1) p' s'))"
  by pat_completeness auto

termination
  by (relation "measure (\<lambda>(_, _, _, _, _, _, _, p, _). length (sp_lines p))") (auto dest: Next_decreases[OF sym])

declare Connect_loop.simps [simp del]

definition Connect ::
    "(string \<Rightarrow> string + SignedEnvelope) \<Rightarrow> ('c \<Rightarrow> SignedEnvelope \<Rightarrow> 'w \<Rightarrow> string option outcome \<times> 'w) \<Rightarrow>
     'w EventDispatcher \<Rightarrow> (nat \<Rightarrow> 'c) \<Rightarrow> (nat \<Rightarrow> bool) \<Rightarrow> bool \<Rightarrow> (string \<Rightarrow> string + string) \<Rightarrow>
     ('c, 'w) sse_state \<Rightarrow> connect_result outcome \<times> ('c, 'w) sse_state" where
  "Connect unmarshal verify d clk cancelled idle connectSSE s =
     (case connectSSE (ss_lastEventID s) of
        Inl err \<Rightarrow> (Ret (ConnectErr err), s)
      | Inr body \<Rightarrow> Connect_loop unmarshal verify d clk cancelled idle 0 (NewSSEParser body) s)"

section \<open>Printing and parsing events\<close>

text \<open>The wire format a conforming server writes, and the events it can carry.\<close>

definition line_ok :: "string \<Rightarrow> bool" where
  "line_ok l \<longleftrightarrow> CHR 0x0A \<notin> set l \<and> CHR 0x0D \<notin> set l \<and> length l \<le> 65000"

definition event_lines :: "SSEEvent \<Rightarrow> string list" where
  "event_lines e = (''event: '' @ evt_Type e) # (if evt_ID e = '''' then [] else [''id: '' @ evt_ID e]) @
     map (\<lambda>l. ''data: '' @ l) (Split (evt_Data e) (CHR 0x0A)) @ ['''']"

definition print_event :: "SSEEvent \<Rightarrow> string" where
  "print_event e = concat (map (\<lambda>l. l @ [CHR 0x0A]) (event_lines e))"

definition printable :: "SSEEvent \<Rightarrow> bool" where
  "printable e \<longleftrightarrow> evt_Type e \<noteq> '''' \<and> line_ok (evt_Type e) \<and> line_ok (evt_ID e) \<and>
     CHR 0x0D \<notin> set (evt_Data e) \<and> length (evt_Data e) \<le> 65000"

lemma Split_length: "l \<in> set (Split s c) \<Longrightarrow> length l \<le> length s"
proof (induction s arbitrary: l)
  case (Cons x xs)
  then show ?case
    using Split_nonempty[of xs c] by (cases "Split xs c") (fastforce split: if_splits)+
qed simp

lemma ScanLines_lines:
  assumes "\<And>l. l \<in> set ls \<Longrightarrow> CHR 0x0A \<notin> set l \<and> CHR 0x0D \<notin> set l \<and> length l \<le> 65535"
  shows "ScanLines (concat (map (\<lambda>l. l @ [CHR 0x0A]) ls) @ s) = ls @ ScanLines s"
  using assms by (induction ls) (simp_all add: ScanLines_line)

lemma ScanLines_event:
  assumes "printable e"
  shows "ScanLines (print_event e @ s) = event_lines e @ ScanLines s"
  unfolding print_event_def
proof (rule ScanLines_lines)
  fix l assume "l \<in> set (event_lines e)"
  then consider "l = ''event: '' @ evt_Type e" | "l = ''id: '' @ evt_ID e" | "l = ''''"
    | d where "l = ''data: '' @ d" "d \<in> set (Split (evt_Data e) (CHR 0x0A))"
    unfolding event_lines_def by (auto split: if_splits)
  then show "CHR 0x0A \<notin> set l \<and> CHR 0x0D \<notin> set l \<and> length l \<le> 65535"
  proof cases
    case 4
    then show ?thesis
      using assms Split_no_sep[OF 4(2)] Split_chars[OF 4(2)] Split_length[OF 4(2)]
      by (auto simp: printable_def)
  qed (use assms in \<open>auto simp: printable_def line_ok_def\<close>)
qed

lemma Cut_field:
  "Cut (''event: '' @ v) (CHR '':'') = (''event'', '' '' @ v, True)"
  "Cut (''id: '' @ v) (CHR '':'') = (''id'', '' '' @ v, True)"
  "Cut (''data: '' @ v) (CHR '':'') = (''data'', '' '' @ v, True)"
  using Cut_append[of "CHR '':''" "''event''" "'' '' @ v"] Cut_append[of "CHR '':''" "''id''" "'' '' @ v"]
    Cut_append[of "CHR '':''" "''data''" "'' '' @ v"] by simp_all

lemma Next_loop_field:
  "Next_loop ((''event: '' @ v) # ls) t d i p = Next_loop ls v d i p"
  "Next_loop ((''id: '' @ v) # ls) t d i p = Next_loop ls t d v p"
  "Next_loop ((''data: '' @ v) # ls) t d i p = Next_loop ls t (d @ [v]) i p"
  using Cut_field[of v] TrimPrefix_append[of "'' ''" v]
  by (simp_all add: HasPrefix_def apply_field_def)

lemma Next_loop_data:
  "Next_loop (map (\<lambda>l. ''data: '' @ l) ds @ ls) t d i p = Next_loop ls t (d @ ds) i p"
proof (induction ds arbitrary: d)
  case (Cons x xs)
  then show ?case
    using Next_loop_field(3)[of x "map (\<lambda>l. ''data: '' @ l) xs @ ls" t d i p] by (simp del: Next_loop.simps)
qed simp

lemma Next_event:
  assumes "printable e"
  shows "Next_loop (event_lines e @ ls) '''' [] '''' p =
     (Some e, p\<lparr>sp_lines := ls, sp_lastEventID := (if evt_ID e \<noteq> '''' then evt_ID e else sp_lastEventID p)\<rparr>)"
proof -
  let ?ds = "Split (evt_Data e) (CHR 0x0A)"
  have "Next_loop (event_lines e @ ls) '''' [] '''' p = Next_loop ('''' # ls) (evt_Type e) ?ds (evt_ID e) p"
    using Next_loop_field(1)[of "evt_Type e"] Next_loop_field(2)[of "evt_ID e"] Next_loop_data[of ?ds]
    by (simp add: event_lines_def del: Next_loop.simps)
  also have "\<dots> = (Some (dispatch_event (evt_Type e) ?ds (evt_ID e)),
      p\<lparr>sp_lines := ls, sp_lastEventID := (if evt_ID e \<noteq> '''' then evt_ID e else sp_lastEventID p)\<rparr>)"
    using Split_nonempty[of "evt_Data e" "CHR 0x0A"] by simp
  also have "dispatch_event (evt_Type e) ?ds (evt_ID e) = e"
    using assms by (simp add: dispatch_event_def Join_Split printable_def)
  finally show ?thesis .
qed

lemma ScanLines_events:
  "list_all printable es \<Longrightarrow> ScanLines (concat (map print_event es)) = concat (map event_lines es)"
  by (induction es) (simp_all add: ScanLines_event, simp add: ScanLines_def)

lemma parse_event_lines:
  "list_all printable es \<Longrightarrow> sp_lines p = concat (map event_lines es) \<Longrightarrow> parse_events p = es"
proof (induction es arbitrary: p)
  case Nil
  then show ?case by (subst parse_events.simps) (simp add: Next_def)
next
  case (Cons e es)
  then show ?case
    by (subst parse_events.simps) (simp add: Next_def Next_event)
qed

section \<open>What a connection does\<close>

fun process_events ::
    "(nat \<Rightarrow> SSEEvent \<Rightarrow> 's \<Rightarrow> unit outcome \<times> 's) \<Rightarrow> nat \<Rightarrow> SSEEvent list \<Rightarrow> 's \<Rightarrow> unit outcome \<times> 's" where
  "process_events h n [] s = (Ret (), s)"
| "process_events h n (e # es) s =
     (case h n e s of (Panic v, s') \<Rightarrow> (Panic v, s') | (Ret _, s') \<Rightarrow> process_events h (n + 1) es s')"

lemma Connect_loop_eq:
  "Connect_loop unmarshal verify d clk (\<lambda>_. False) idle n p s =
     (case process_events (\<lambda>n. handle_event unmarshal verify d (clk n)) n (parse_events p) s of
        (Panic v, s') \<Rightarrow> (Panic v, s')
      | (Ret _, s') \<Rightarrow> (Ret (if idle then IdleTimeout else Clean), s'))"
proof (induction "length (sp_lines p)" arbitrary: n p s rule: less_induct)
  case less
  show ?case
  proof (cases "Next p")
    case (Pair eo p')
    show ?thesis
    proof (cases eo)
      case None
      then show ?thesis using Pair by (subst Connect_loop.simps, subst parse_events.simps) simp
    next
      case (Some e)
      obtain r s' where h: "handle_event unmarshal verify d (clk n) e s = (r, s')" by fastforce
      show ?thesis
        using less[of p' "n + 1" s'] Next_decreases[of p e p'] Pair Some h
        by (subst Connect_loop.simps, subst parse_events.simps) (cases r; simp)
    qed
  qed
qed

lemma handle_event_log:
  "\<exists>zs. ss_log (snd (handle_event unmarshal verify d c e s)) = ss_log s @ zs \<and>
     (\<forall>(c', env, w) \<in> set zs. fst (verify c' env w) = Ret None)"
  unfolding handle_event_def Let_def
  by (auto split: sum.splits prod.splits outcome.splits option.splits)

lemma Connect_loop_log:
  "\<exists>zs. ss_log (snd (Connect_loop unmarshal verify d clk cancelled idle n p s)) = ss_log s @ zs \<and>
     (\<forall>(c', env, w) \<in> set zs. fst (verify c' env w) = Ret None)"
proof (induction "length (sp_lines p)" arbitrary: n p s rule: less_induct)
  case less
  show ?case
  proof (cases "cancelled n \<or> fst (Next p) = None")
    case True
    then show ?thesis by (subst Connect_loop.simps) (auto split: prod.splits)
  next
    case False
    then obtain e p' where N: "Next p = (Some e, p')" by (cases "Next p") auto
    obtain r s' where h: "handle_event unmarshal verify d (clk n) e s = (r, s')" by fastforce
    note log = handle_event_log[of unmarshal verify d "clk n" e s, unfolded h snd_conv]
    show ?thesis
    proof (cases r)
      case (Panic v)
      then show ?thesis using False N h log by (subst Connect_loop.simps) simp
    next
      case (Ret u)
      have step: "Connect_loop unmarshal verify d clk cancelled idle n p s =
          Connect_loop unmarshal verify d clk cancelled idle (n + 1) p' s'"
        using False N h Ret by (subst Connect_loop.simps) simp
      obtain ys where ys: "ss_log s' = ss_log s @ ys" "\<forall>(c', env, w) \<in> set ys. fst (verify c' env w) = Ret None"
        using log by blast
      obtain zs where zs: "ss_log (snd (Connect_loop unmarshal verify d clk cancelled idle (n + 1) p' s')) = ss_log s' @ zs"
          "\<forall>(c', env, w) \<in> set zs. fst (verify c' env w) = Ret None"
        using less[OF Next_decreases[OF N], of "n + 1" s'] by blast
      show ?thesis unfolding step using ys zs by (intro exI[of _ "ys @ zs"]) auto
    qed
  qed
qed

lemma handle_event_lastEventID:
  "ss_lastEventID (snd (handle_event unmarshal verify d c e s)) =
     (if evt_ID e \<noteq> '''' then evt_ID e else ss_lastEventID s)"
  unfolding handle_event_def Let_def
  by (auto split: sum.splits prod.splits outcome.splits option.splits)

lemma process_events_lastEventID:
  assumes "process_events (\<lambda>n. handle_event unmarshal verify d (clk n)) n es s = (Ret u, s')"
  shows "ss_lastEventID s' = last (ss_lastEventID s # filter (\<lambda>i. i \<noteq> '''') (map evt_ID es))"
  using assms
proof (induction es arbitrary: n s)
  case (Cons e es)
  obtain r t where h: "handle_event unmarshal verify d (clk n) e s = (r, t)" by fastforce
  then obtain u' where r: "r = Ret u'" using Cons.prems by (cases r) auto
  have "ss_lastEventID t = (if evt_ID e \<noteq> '''' then evt_ID e else ss_lastEventID s)"
    using handle_event_lastEventID[of unmarshal verify d "clk n" e s] h by simp
  then show ?case using Cons.IH[of "n + 1" t] Cons.prems h r by simp
qed simp

section \<open>The contract of a verifier\<close>

locale event_verifier =
  fixes verify :: "'c \<Rightarrow> SignedEnvelope \<Rightarrow> 'w \<Rightarrow> string option outcome \<times> 'w"
    and genuine :: "'c \<Rightarrow> SignedEnvelope \<Rightarrow> 'w \<Rightarrow> bool"
  assumes accept_genuine: "fst (verify c env w) = Ret None \<Longrightarrow> genuine c env w"
begin

lemma dispatched_genuine:
  assumes "Connect unmarshal verify d clk cancelled idle connectSSE s = (r, s')" "ss_log s = []"
    and "(c, env, w) \<in> set (ss_log s')"
  shows "genuine c env w"
proof (cases "connectSSE (ss_lastEventID s)")
  case (Inl err)
  then show ?thesis using assms by (simp add: Connect_def)
next
  case (Inr body)
  then have "fst (verify c env w) = Ret None"
    using Connect_loop_log[of unmarshal verify d clk cancelled idle 0 "NewSSEParser body" s] assms
    by (auto simp: Connect_def)
  then show ?thesis by (rule accept_genuine)
qed

end

text \<open>The two verifiers of the code, on worlds that hold the verifier beside everything else.\<close>

definition noop_verify :: "'c \<Rightarrow> SignedEnvelope \<Rightarrow> 'w \<Rightarrow> string option outcome \<times> 'w" where
  "noop_verify c env w = (Ret (NoOpVerifier_Verify env), w)"

definition ed25519_verify ::
    "(string \<Rightarrow> string \<Rightarrow> string \<Rightarrow> bool) \<Rightarrow> (canonicalEnvelope \<Rightarrow> string option) \<Rightarrow> verify_clock \<Rightarrow>
     SignedEnvelope \<Rightarrow> Ed25519Verifier \<times> 'u \<Rightarrow> string option outcome \<times> (Ed25519Verifier \<times> 'u)" where
  "ed25519_verify ed canon c env w =
     (let (r, v) = Verify ed canon c env (fst w) in (r, (v, snd w)))"

lemma Verify_accepted_genuine:
  assumes "fst (Verify ed canon c env v) = Ret None"
  shows "authentic ed canon (t_transition c) v env \<and> fresh c env \<and> env_Nonce env \<noteq> '''' \<and>
     mget (known_nonces c (v_nonces v)) (env_Nonce env) = None"
proof -
  have "authentic ed canon (t_transition c) v env \<and> fresh c env \<and> env_Nonce env \<noteq> ''''"
    using assms unfolding Verify_def authentic_def fresh_def ed25519_Verify_def
    by (auto simp: Let_def split: if_splits option.splits bool.splits)
  then show ?thesis using Verify_accepted(2)[OF assms] by simp
qed

interpretation noop: event_verifier noop_verify "\<lambda>c env w. True"
  by unfold_locales simp

interpretation edv: event_verifier "ed25519_verify ed canon"
    "\<lambda>c env w. authentic ed canon (t_transition c) (fst w) env \<and> fresh c env \<and> env_Nonce env \<noteq> '''' \<and>
       mget (known_nonces c (v_nonces (fst w))) (env_Nonce env) = None" for ed canon
  by unfold_locales (rule Verify_accepted_genuine, simp add: ed25519_verify_def split_beta)

section \<open>Properties of the stream\<close>

definition ex_event :: "string \<Rightarrow> string \<Rightarrow> SSEEvent" where
  "ex_event i dat = \<lparr>evt_Type = ''peer_added'', evt_Data = dat, evt_ID = i\<rparr>"

text \<open>C7: Parsing inverts printing: a body that carries a sequence of events, each with a non-empty type,
  single-line type and identifier, data without carriage returns and lines within the buffer of
  the scanner, is parsed into exactly these events in order.\<close>

theorem parse_print_events:
  assumes "list_all printable es"
  shows "parse_events (NewSSEParser (concat (map print_event es))) = es"
  using parse_event_lines[OF assms] ScanLines_events[OF assms] by (simp add: NewSSEParser_def)

theorem parse_print_events_witness:
  "parse_events (NewSSEParser (concat (map print_event [ex_event ''1'' ''x'', ex_event '''' [CHR ''a'', CHR 0x0A, CHR ''b'']]))) =
     [ex_event ''1'' ''x'', ex_event '''' [CHR ''a'', CHR 0x0A, CHR ''b'']]"
  by (rule parse_print_events) (simp add: printable_def line_ok_def ex_event_def)



text \<open>Only authenticated events reach a handler: every envelope that a connection with the Ed25519
  verifier dispatched was, at the moment of its verification, fresh, signed under a key in force,
  and carried a nonce that the store did not know.\<close>

theorem Connect_dispatches_authentic:
  assumes "Connect unmarshal (ed25519_verify ed canon) d clk cancelled idle connectSSE s = (r, s')"
    and "ss_log s = []" and "(c, env, w) \<in> set (ss_log s')"
  shows "authentic ed canon (t_transition c) (fst w) env \<and> fresh c env \<and> env_Nonce env \<noteq> '''' \<and>
     mget (known_nonces c (v_nonces (fst w))) (env_Nonce env) = None"
  using edv.dispatched_genuine[OF assms] .

theorem Connect_dispatches_authentic_witness:
  "\<exists>s'. Connect (\<lambda>_. Inr (ex_env ''n'' 1000)) (ed25519_verify ex_ed (\<lambda>_. Some ''m'')) [] (\<lambda>_. ex_clock 1000 1000)
       (\<lambda>_. False) False (\<lambda>_. Inr (print_event (ex_event ''1'' ''x'')))
       \<lparr>ss_lastEventID = '''', ss_world = (ex_verifier, ()), ss_log = []\<rparr> = (Ret Clean, s') \<and>
     ss_log s' = [(ex_clock 1000 1000, ex_env ''n'' 1000, (ex_verifier, ()))] \<and>
     authentic ex_ed (\<lambda>_. Some ''m'') 1000 ex_verifier (ex_env ''n'' 1000)"
proof -
  let ?s = "\<lparr>ss_lastEventID = '''', ss_world = (ex_verifier, ()), ss_log = []\<rparr>"
  have p: "list_all printable [ex_event ''1'' ''x'']" by (simp add: printable_def line_ok_def ex_event_def)
  have parse: "parse_events (NewSSEParser (print_event (ex_event ''1'' ''x''))) = [ex_event ''1'' ''x'']"
    using parse_event_lines[OF p] ScanLines_events[OF p] by (simp add: NewSSEParser_def)
  have ok: "fst (Verify ex_ed (\<lambda>_. Some ''m'') (ex_clock 1000 1000) (ex_env ''n'' 1000) ex_verifier) = Ret None"
    by (simp add: Verify_def ex_env_def ex_clock_def ex_decode ex_ed_def ed25519_Verify_def ex_verifier_def
        NewEd25519Verifier_def NewNonceStore_def NonceStore_Add_def Let_def)
  obtain s' where run: "Connect (\<lambda>_. Inr (ex_env ''n'' 1000)) (ed25519_verify ex_ed (\<lambda>_. Some ''m'')) []
       (\<lambda>_. ex_clock 1000 1000) (\<lambda>_. False) False (\<lambda>_. Inr (print_event (ex_event ''1'' ''x''))) ?s = (Ret Clean, s')"
      and log: "ss_log s' = [(ex_clock 1000 1000, ex_env ''n'' 1000, (ex_verifier, ()))]"
    using parse ok
    by (auto simp: Connect_def Connect_loop_eq handle_event_def ParseEnvelope_def ex_event_def ed25519_verify_def
        Dispatch_def split_beta ex_env_def)
  show ?thesis
    using run log Connect_dispatches_authentic[OF run, of "ex_clock 1000 1000" "ex_env ''n'' 1000" "(ex_verifier, ())"]
    by (simp add: ex_clock_def)
qed

text \<open>The resume point is taken from every event, verified or not: after a connection that did not
  panic, the last event identifier sent on reconnection is the last non-empty identifier of the
  body, even when no envelope was accepted.\<close>

theorem Connect_resume_point:
  assumes "list_all printable es" "connectSSE (ss_lastEventID s) = Inr (concat (map print_event es))"
    and "Connect unmarshal verify d clk (\<lambda>_. False) idle connectSSE s = (Ret r, s')"
  shows "ss_lastEventID s' = last (ss_lastEventID s # filter (\<lambda>i. i \<noteq> '''') (map evt_ID es))"
proof -
  have "parse_events (NewSSEParser (concat (map print_event es))) = es"
    using parse_event_lines[OF assms(1)] ScanLines_events[OF assms(1)] by (simp add: NewSSEParser_def)
  then obtain u where "process_events (\<lambda>n. handle_event unmarshal verify d (clk n)) 0 es s = (Ret u, s')"
    using assms(2,3) by (auto simp: Connect_def Connect_loop_eq split: prod.splits outcome.splits)
  then show ?thesis by (rule process_events_lastEventID)
qed

theorem Connect_resume_point_witness:
  "\<exists>r s'. Connect (\<lambda>_. Inl ''bad'') noop_verify [] (\<lambda>_. ()) (\<lambda>_. False) True
     (\<lambda>_. Inr (concat (map print_event [ex_event ''1'' ''x'', ex_event ''2'' ''y''])))
     \<lparr>ss_lastEventID = '''', ss_world = 0::nat, ss_log = []\<rparr> = (Ret r, s') \<and> ss_lastEventID s' = ''2''"
proof -
  let ?es = "[ex_event ''1'' ''x'', ex_event ''2'' ''y'']"
  let ?s = "\<lparr>ss_lastEventID = '''', ss_world = 0::nat, ss_log = []\<rparr>"
  have p: "list_all printable ?es"
    by (simp add: printable_def line_ok_def ex_event_def)
  have parse: "parse_events (NewSSEParser (concat (map print_event ?es))) = ?es"
    using parse_event_lines[OF p] ScanLines_events[OF p] by (simp add: NewSSEParser_def)
  obtain r s' where run: "Connect (\<lambda>_. Inl ''bad'') noop_verify [] (\<lambda>_. ()) (\<lambda>_. False) True
     (\<lambda>_. Inr (concat (map print_event ?es))) ?s = (Ret r, s')"
    using parse by (simp add: Connect_def Connect_loop_eq handle_event_def ParseEnvelope_def ex_event_def)
  show ?thesis
    using run Connect_resume_point[OF p _ run] by (auto simp: ex_event_def)
qed

end
