(* ===== verification/NodeApi.thy ===== *)
theory NodeApi
  imports GoHttp StateCache ReportSync Reconcile Reconnect SseStream
begin

text \<open>
  The local node API, \<open>internal/nodeapi\<close>: its configuration (\<open>config.go\<close>), the decryption of
  secrets (\<open>decrypt.go\<close>), the handlers and their routes (\<open>handler.go\<close>), the bearer and peer
  credential authentication (\<open>auth.go\<close>, \<open>auth_unix.go\<close>, \<open>socket_perms_linux.go\<close>), the handlers of
  events (\<open>events.go\<close>), and the server that puts them together (\<open>server.go\<close>).

  A handler is a function of the request and the state, the cache and the file system; the body of
  a response is the value that is encoded as JSON.  The control plane, the AES-GCM primitive, the
  JSON decoder, the user database and the sockets are parameters.
\<close>

section \<open>config.go\<close>

record NodeAPIConfig =
  na_SocketPath :: string
  na_HTTPEnabled :: bool
  na_HTTPListen :: string
  na_HTTPTokenFile :: string
  na_DebouncePeriod :: duration
  na_ShutdownTimeout :: duration
  na_DataDir :: string
  na_SecretAuthEnabled :: bool

definition NodeAPIConfig_ApplyDefaults :: "NodeAPIConfig \<Rightarrow> NodeAPIConfig" where
  "NodeAPIConfig_ApplyDefaults c =
     (let c = (if na_SocketPath c = '''' then c\<lparr>na_SocketPath := ''/var/run/plexd/api.sock''\<rparr> else c);
          c = (if na_HTTPListen c = '''' then c\<lparr>na_HTTPListen := ''127.0.0.1:9100''\<rparr> else c);
          c = (if na_DebouncePeriod c = 0 then c\<lparr>na_DebouncePeriod := 5 * Second\<rparr> else c)
      in if na_ShutdownTimeout c = 0 then c\<lparr>na_ShutdownTimeout := 5 * Second\<rparr> else c)"

definition NodeAPIConfig_Validate :: "NodeAPIConfig \<Rightarrow> string option" where
  "NodeAPIConfig_Validate c =
     (if na_DataDir c = '''' then Some ''nodeapi: config: DataDir is required''
      else if na_DebouncePeriod c \<le> 0 then Some ''nodeapi: config: DebouncePeriod must be positive''
      else if na_ShutdownTimeout c \<le> 0 then Some ''nodeapi: config: ShutdownTimeout must be positive''
      else None)"

section \<open>decrypt.go\<close>

text \<open>\<open>gcm_Open key nonce ciphertext\<close> is AES-GCM; a cipher with a key of 32 bytes exists, and its nonce
  has 12 bytes.\<close>

definition DecryptSecret :: "(string \<Rightarrow> string \<Rightarrow> string \<Rightarrow> string option) \<Rightarrow> string \<Rightarrow> string \<Rightarrow> string \<Rightarrow> string + string" where
  "DecryptSecret gcm_Open nsk ciphertext nonce =
     (let failed = Inl ''nodeapi: decryption failed'' in
      if length nsk \<noteq> 32 then failed
      else case DecodeString ciphertext of
        None \<Rightarrow> failed
      | Some ciphertextBytes \<Rightarrow>
          (case DecodeString nonce of
             None \<Rightarrow> failed
           | Some nonceBytes \<Rightarrow>
               if length nonceBytes \<noteq> 12 then failed
               else case gcm_Open nsk nonceBytes ciphertextBytes of
                 None \<Rightarrow> failed
               | Some plaintext \<Rightarrow> Inr plaintext))"

section \<open>handler.go: types\<close>

record SecretResponse =
  sp_Key :: string
  sp_Ciphertext :: string
  sp_Nonce :: string
  sp_Version :: int

record dataKeySummary =
  dk_Key :: string
  dk_Version :: int
  dk_ContentType :: string

record keySummary =
  ks_Key :: string
  ks_Version :: int

record StateSummary =
  su_Metadata :: "(string, string) gomap"
  su_DataKeys :: "dataKeySummary list"
  su_SecretKeys :: "keySummary list"
  su_ReportKeys :: "keySummary list"

record reportPutRequest =
  rpr_ContentType :: string
  rpr_Payload :: string

datatype body =
    BNone
  | BText string
  | BError string
  | BSummary StateSummary
  | BMetadata "(string, string) gomap"
  | BMetadataValue string string
  | BDataKeys "dataKeySummary list"
  | BData DataEntry
  | BSecretIndex "SecretRef list"
  | BSecretValue string string int
  | BReportKeys "keySummary list"
  | BReport ReportEntry

record Response =
  rp_Status :: int
  rp_Body :: body

record Handler =
  hd_nodeID :: string
  hd_nsk :: string

text \<open>What the handlers use of their surroundings: the control plane, AES-GCM, the JSON decoder on the
  bytes that can be read (and whether reading on fails), \<open>json.Valid\<close>, the clock, the order in which a
  map is iterated, and the codec of the cache.\<close>

record handler_env =
  he_FetchSecret :: "string \<Rightarrow> string \<Rightarrow> go_error + SecretResponse"
  he_gcm_Open :: "string \<Rightarrow> string \<Rightarrow> string \<Rightarrow> string option"
  he_Decode :: "string \<Rightarrow> bool \<Rightarrow> string + reportPutRequest"
  he_Valid :: "string \<Rightarrow> bool"
  he_now :: time
  he_ord :: "string list \<Rightarrow> string list"
  he_json :: cache_json

type_synonym api_state = "StateCache \<times> FS"
type_synonym 's http_handler = "Request \<Rightarrow> 's \<Rightarrow> Response \<times> 's"

section \<open>handler.go: the handlers\<close>

definition writeJSON :: "int \<Rightarrow> body \<Rightarrow> Response" where
  "writeJSON status v = \<lparr>rp_Status = status, rp_Body = v\<rparr>"

definition writeError :: "int \<Rightarrow> string \<Rightarrow> Response" where
  "writeError status msg = writeJSON status (BError msg)"

definition validReportKey :: "string \<Rightarrow> bool" where
  "validReportKey key \<longleftrightarrow> key \<noteq> '''' \<and> key \<noteq> ''.'' \<and> key \<noteq> ''..'' \<and> CHR ''/'' \<notin> set key \<and> CHR 0x5C \<notin> set key"

text \<open>The values of a map, in the order of the iteration.\<close>

definition map_values :: "(string list \<Rightarrow> string list) \<Rightarrow> (string, 'v) gomap \<Rightarrow> 'v list" where
  "map_values ord m = List.map_filter (mget m) (ord (mkeys m))"

definition data_summary :: "DataEntry \<Rightarrow> dataKeySummary" where
  "data_summary d = \<lparr>dk_Key = de_Key d, dk_Version = de_Version d, dk_ContentType = de_ContentType d\<rparr>"

definition report_summary :: "ReportEntry \<Rightarrow> keySummary" where
  "report_summary e = \<lparr>ks_Key = re_Key e, ks_Version = re_Version e\<rparr>"

definition handleGetState :: "handler_env \<Rightarrow> api_state \<Rightarrow> Response \<times> api_state" where
  "handleGetState e s =
     (let sc = fst s;
          metadata = GetMetadata sc;
          dataKeys = map data_summary (map_values (he_ord e) (GetData sc));
          secretKeys = map (\<lambda>r. \<lparr>ks_Key = sr_Key r, ks_Version = sr_Version r\<rparr>) (case GetSecretIndex sc of None \<Rightarrow> [] | Some refs \<Rightarrow> refs);
          reportKeys = map report_summary (map_values (he_ord e) (GetReports sc))
      in (writeJSON 200 (BSummary \<lparr>su_Metadata = metadata, su_DataKeys = dataKeys, su_SecretKeys = secretKeys,
            su_ReportKeys = reportKeys\<rparr>), s))"

definition handleGetMetadataAll :: "api_state \<Rightarrow> Response \<times> api_state" where
  "handleGetMetadataAll s = (writeJSON 200 (BMetadata (GetMetadata (fst s))), s)"

definition handleGetMetadataKey :: "string \<Rightarrow> api_state \<Rightarrow> Response \<times> api_state" where
  "handleGetMetadataKey key s =
     (case GetMetadataKey key (fst s) of
        None \<Rightarrow> (writeError 404 ''not found'', s)
      | Some val \<Rightarrow> (writeJSON 200 (BMetadataValue key val), s))"

definition handleGetDataAll :: "handler_env \<Rightarrow> api_state \<Rightarrow> Response \<times> api_state" where
  "handleGetDataAll e s = (writeJSON 200 (BDataKeys (map data_summary (map_values (he_ord e) (GetData (fst s))))), s)"

definition handleGetDataKey :: "string \<Rightarrow> api_state \<Rightarrow> Response \<times> api_state" where
  "handleGetDataKey key s =
     (case GetDataEntry key (fst s) of
        None \<Rightarrow> (writeError 404 ''not found'', s)
      | Some entry \<Rightarrow> (writeJSON 200 (BData entry), s))"

definition handleGetSecretsList :: "api_state \<Rightarrow> Response \<times> api_state" where
  "handleGetSecretsList s =
     (writeJSON 200 (BSecretIndex (case GetSecretIndex (fst s) of None \<Rightarrow> [] | Some index \<Rightarrow> index)), s)"

definition handleGetSecretValue :: "handler_env \<Rightarrow> Handler \<Rightarrow> string \<Rightarrow> api_state \<Rightarrow> Response \<times> api_state" where
  "handleGetSecretValue e h key s =
     (case he_FetchSecret e (hd_nodeID h) key of
        Inl err \<Rightarrow>
          if errors_Is err ErrNotFound then (writeError 404 ''not found'', s)
          else (writeError 503 ''control plane unavailable'', s)
      | Inr resp \<Rightarrow>
          (case DecryptSecret (he_gcm_Open e) (hd_nsk h) (sp_Ciphertext resp) (sp_Nonce resp) of
             Inl err \<Rightarrow> (writeError 500 ''internal error'', s)
           | Inr plaintext \<Rightarrow> (writeJSON 200 (BSecretValue (sp_Key resp) plaintext (sp_Version resp)), s)))"

definition handleGetReportAll :: "handler_env \<Rightarrow> api_state \<Rightarrow> Response \<times> api_state" where
  "handleGetReportAll e s = (writeJSON 200 (BReportKeys (map report_summary (map_values (he_ord e) (GetReports (fst s))))), s)"

definition handleGetReportKey :: "string \<Rightarrow> api_state \<Rightarrow> Response \<times> api_state" where
  "handleGetReportKey key s =
     (if \<not> validReportKey key then (writeError 400 ''invalid report key'', s)
      else case GetReport key (fst s) of
        None \<Rightarrow> (writeError 404 ''not found'', s)
      | Some entry \<Rightarrow> (writeJSON 200 (BReport entry), s))"

abbreviation maxReportBodyBytes :: nat where "maxReportBodyBytes \<equiv> 2 ^ 20"

text \<open>The \<open>If-Match\<close> header: absent, a version, or not a number.\<close>

definition parse_if_match :: "string \<Rightarrow> int option option" where
  "parse_if_match hdr = (if hdr = '''' then Some None else case Atoi hdr of None \<Rightarrow> None | Some v \<Rightarrow> Some (Some v))"

definition handlePutReport :: "handler_env \<Rightarrow> string \<Rightarrow> Request \<Rightarrow> api_state \<Rightarrow> Response \<times> api_state" where
  "handlePutReport e key r s =
     (if \<not> validReportKey key then (writeError 400 ''invalid report key'', s)
      else case he_Decode e (take maxReportBodyBytes (rq_Body r)) (maxReportBodyBytes < length (rq_Body r)) of
        Inl err \<Rightarrow> (writeError 400 ''invalid JSON body'', s)
      | Inr req \<Rightarrow>
          if rpr_ContentType req = '''' then (writeError 400 ''content_type is required'', s)
          else if length (rpr_Payload req) = 0 \<or> \<not> he_Valid e (rpr_Payload req) then (writeError 400 ''payload must be valid JSON'', s)
          else case parse_if_match (rq_IfMatch r) of
            None \<Rightarrow> (writeError 400 ''If-Match must be an integer'', s)
          | Some ifMatch \<Rightarrow>
              (case PutReport (he_json e) (he_now e) key (rpr_ContentType req) (rpr_Payload req) ifMatch (fst s) (snd s) of
                 (Inl err, s) \<Rightarrow>
                   if err = ErrVersionConflict then (writeError 409 ''version conflict'', s)
                   else (writeError 500 ''internal error'', s)
               | (Inr entry, s) \<Rightarrow> (writeJSON 200 (BReport entry), s)))"

definition handleDeleteReport :: "string \<Rightarrow> api_state \<Rightarrow> Response \<times> api_state" where
  "handleDeleteReport key s =
     (if \<not> validReportKey key then (writeError 400 ''invalid report key'', s)
      else case DeleteReport key (fst s) (snd s) of
        (Some err, s) \<Rightarrow>
          if err = ErrReportNotFound then (writeError 404 ''not found'', s)
          else (writeError 500 ''internal error'', s)
      | (None, s) \<Rightarrow> (\<lparr>rp_Status = 204, rp_Body = BNone\<rparr>, s))"

section \<open>handler.go: the routes\<close>

datatype endpoint =
    GetState_ep | GetMetadataAll_ep | GetMetadataKey_ep | GetDataAll_ep | GetDataKey_ep | GetSecretsList_ep
  | GetSecretValue_ep | GetReportAll_ep | GetReportKey_ep | PutReport_ep | DeleteReport_ep

definition Mux :: "endpoint mux" where
  "Mux =
     [(''GET'', [''v1'', ''state''], GetState_ep),
      (''GET'', [''v1'', ''state'', ''metadata''], GetMetadataAll_ep),
      (''GET'', [''v1'', ''state'', ''metadata'', wildcard], GetMetadataKey_ep),
      (''GET'', [''v1'', ''state'', ''data''], GetDataAll_ep),
      (''GET'', [''v1'', ''state'', ''data'', wildcard], GetDataKey_ep),
      (''GET'', [''v1'', ''state'', ''secrets''], GetSecretsList_ep),
      (''GET'', [''v1'', ''state'', ''secrets'', wildcard], GetSecretValue_ep),
      (''GET'', [''v1'', ''state'', ''report''], GetReportAll_ep),
      (''GET'', [''v1'', ''state'', ''report'', wildcard], GetReportKey_ep),
      (''PUT'', [''v1'', ''state'', ''report'', wildcard], PutReport_ep),
      (''DELETE'', [''v1'', ''state'', ''report'', wildcard], DeleteReport_ep)]"

text \<open>\<open>r.PathValue("key")\<close>.\<close>

definition PathValue :: "string list \<Rightarrow> string" where
  "PathValue vs = (case vs of [] \<Rightarrow> '''' | v # _ \<Rightarrow> v)"

definition endpoint_handler :: "handler_env \<Rightarrow> Handler \<Rightarrow> endpoint \<Rightarrow> string \<Rightarrow> api_state http_handler" where
  "endpoint_handler e h ep key r s =
     (case ep of
        GetState_ep \<Rightarrow> handleGetState e s
      | GetMetadataAll_ep \<Rightarrow> handleGetMetadataAll s
      | GetMetadataKey_ep \<Rightarrow> handleGetMetadataKey key s
      | GetDataAll_ep \<Rightarrow> handleGetDataAll e s
      | GetDataKey_ep \<Rightarrow> handleGetDataKey key s
      | GetSecretsList_ep \<Rightarrow> handleGetSecretsList s
      | GetSecretValue_ep \<Rightarrow> handleGetSecretValue e h key s
      | GetReportAll_ep \<Rightarrow> handleGetReportAll e s
      | GetReportKey_ep \<Rightarrow> handleGetReportKey key s
      | PutReport_ep \<Rightarrow> handlePutReport e key r s
      | DeleteReport_ep \<Rightarrow> handleDeleteReport key s)"

definition serve_mux :: "handler_env \<Rightarrow> Handler \<Rightarrow> api_state http_handler" where
  "serve_mux e h r s =
     (case findHandler Mux r of
        Found ep vs \<Rightarrow> endpoint_handler e h ep (PathValue vs) r s
      | Redirect path \<Rightarrow> (\<lparr>rp_Status = 301, rp_Body = BText path\<rparr>, s)
      | MethodNotAllowed \<Rightarrow> (\<lparr>rp_Status = 405, rp_Body = BText ''Method Not Allowed''\<rparr>, s)
      | NoSuchPage \<Rightarrow> (\<lparr>rp_Status = 404, rp_Body = BText ''404 page not found''\<rparr>, s))"

section \<open>auth.go\<close>

definition lower :: "char \<Rightarrow> char" where
  "lower c = (let n = of_char c :: nat in if 65 \<le> n \<and> n \<le> 90 then char_of (n + 32) else c)"

definition writeAuthError :: Response where
  "writeAuthError = writeError 401 ''unauthorized''"

definition bearer_ok :: "string \<Rightarrow> string \<Rightarrow> bool" where
  "bearer_ok token auth =
     (if auth = '''' then False
      else let (scheme, rest, found) = Cut auth (CHR '' '') in
        if \<not> found \<or> map lower scheme \<noteq> map lower ''Bearer'' then False else rest = token)"

definition BearerAuthMiddleware :: "string \<Rightarrow> 's http_handler \<Rightarrow> 's http_handler" where
  "BearerAuthMiddleware token next r s =
     (if bearer_ok token (rq_Authorization r) then next r s else (writeAuthError, s))"

section \<open>auth\_unix.go\<close>

text \<open>The user database: the group identifier of a name, and the group identifiers of a user.\<close>

record user_db =
  ud_LookupGroup :: "string \<Rightarrow> string + string"
  ud_GroupIds :: "string \<Rightarrow> string + string list"

definition IsInGroup :: "user_db \<Rightarrow> nat \<Rightarrow> nat \<Rightarrow> string \<Rightarrow> bool" where
  "IsInGroup db uid gid groupName =
     (case ud_LookupGroup db groupName of
        Inl err \<Rightarrow> False
      | Inr Gid \<Rightarrow>
          (case parse_uint Gid of
             None \<Rightarrow> False
           | Some groupGID \<Rightarrow>
               if 2 ^ 32 \<le> groupGID then False
               else if gid = groupGID then True
               else case ud_GroupIds db (nat_digits uid) of
                 Inl err \<Rightarrow> False
               | Inr groupIDs \<Rightarrow> Gid \<in> set groupIDs))"

text \<open>A connection: not a Unix socket, or one with the results of \<open>SyscallConn\<close>, \<open>Control\<close> and
  \<open>GetsockoptUcred\<close>.\<close>

datatype net_conn = OtherConn | UnixConn "string option" "string option" "string + PeerCredentials"

fun GetPeerCredentials :: "net_conn \<Rightarrow> string + PeerCredentials" where
  "GetPeerCredentials OtherConn = Inl ''nodeapi: auth: not a Unix socket connection''"
| "GetPeerCredentials (UnixConn sysErr ctlErr cred) =
     (case sysErr of
        Some err \<Rightarrow> Inl (''nodeapi: auth: get syscall conn: '' @ err)
      | None \<Rightarrow>
          (case ctlErr of
             Some err \<Rightarrow> Inl (''nodeapi: auth: control: '' @ err)
           | None \<Rightarrow>
               (case cred of
                  Inl err \<Rightarrow> Inl (''nodeapi: auth: getsockopt SO_PEERCRED: '' @ err)
                | Inr cred \<Rightarrow> Inr cred)))"

text \<open>The calls on the socket file, each with its result.\<close>

datatype perm_call = Chmod string nat | Chown string int int

definition SetSocketPermissions :: "user_db \<Rightarrow> (perm_call \<Rightarrow> string option) \<Rightarrow> string \<Rightarrow> string option \<times> perm_call list" where
  "SetSocketPermissions db os socketPath =
     (case ud_LookupGroup db ''plexd'' of
        Inl err \<Rightarrow> (os (Chmod socketPath 438), [Chmod socketPath 438])
      | Inr Gid \<Rightarrow>
          (case Atoi Gid of
             None \<Rightarrow> (Some ''nodeapi: auth: parse gid'', [])
           | Some gid \<Rightarrow>
               (case os (Chown socketPath 0 gid) of
                  Some err \<Rightarrow> (Some (''nodeapi: auth: chown socket: '' @ err), [Chown socketPath 0 gid])
                | None \<Rightarrow>
                    (map_option (\<lambda>err. ''nodeapi: auth: chmod socket: '' @ err) (os (Chmod socketPath 432)),
                     [Chown socketPath 0 gid, Chmod socketPath 432]))))"

definition writeSecretAuthError :: Response where
  "writeSecretAuthError = writeError 403 ''forbidden: insufficient privileges for secret access''"

definition SecretAuthMiddleware ::
    "(nat \<Rightarrow> nat \<Rightarrow> string \<Rightarrow> bool) \<Rightarrow> (Request \<Rightarrow> string + PeerCredentials) \<Rightarrow> 's http_handler \<Rightarrow> 's http_handler" where
  "SecretAuthMiddleware checker getter next r s =
     (case getter r of
        Inl err \<Rightarrow> (writeSecretAuthError, s)
      | Inr cred \<Rightarrow>
          if pc_UID cred = 0 then next r s
          else if checker (pc_UID cred) (pc_GID cred) ''plexd-secrets'' then next r s
          else (writeSecretAuthError, s))"

section \<open>socket\_perms\_linux.go\<close>

text \<open>A failure is logged only.\<close>

definition applySocketPermissions :: "user_db \<Rightarrow> (perm_call \<Rightarrow> string option) \<Rightarrow> string \<Rightarrow> perm_call list" where
  "applySocketPermissions db os socketPath = snd (SetSocketPermissions db os socketPath)"

definition connContextWithPeerCred :: "net_conn \<Rightarrow> PeerCredentials option" where
  "connContextWithPeerCred c = (case GetPeerCredentials c of Inl err \<Rightarrow> None | Inr cred \<Rightarrow> Some cred)"

definition contextPeerCred :: "Request \<Rightarrow> string + PeerCredentials" where
  "contextPeerCred r =
     (case rq_cred r of None \<Rightarrow> Inl ''nodeapi: peer credentials not available'' | Some cred \<Rightarrow> Inr cred)"

definition wrapSecretAuth :: "user_db \<Rightarrow> 's http_handler \<Rightarrow> 's http_handler" where
  "wrapSecretAuth db next r s =
     (let protected = SecretAuthMiddleware (IsInGroup db) contextPeerCred next
      in if HasPrefix (URL_Path r) ''/v1/state/secrets'' then protected r s else next r s)"

section \<open>events.go\<close>

record NodeStateUpdatePayload =
  nsu_Metadata :: "(string, string) gomap"
  nsu_Data :: "DataEntry list"

definition HandleNodeStateUpdated ::
    "cache_json \<Rightarrow> (string list \<Rightarrow> string list) \<Rightarrow> (string \<Rightarrow> string + NodeStateUpdatePayload) \<Rightarrow> api_state EventHandler" where
  "HandleNodeStateUpdated js ord unmarshal env s =
     (case unmarshal (env_Payload env) of
        Inl err \<Rightarrow> (Ret (Some (''nodeapi: parse node_state_updated: '' @ err)), s)
      | Inr payload \<Rightarrow>
          let (sc, fs) = UpdateMetadata js (nsu_Metadata payload) (fst s) (snd s)
          in (Ret None, UpdateData js ord (nsu_Data payload) sc fs))"

definition HandleNodeSecretsUpdated ::
    "cache_json \<Rightarrow> (string \<Rightarrow> string + SecretRef list) \<Rightarrow> api_state EventHandler" where
  "HandleNodeSecretsUpdated js unmarshal env s =
     (case unmarshal (env_Payload env) of
        Inl err \<Rightarrow> (Ret (Some (''nodeapi: parse node_secrets_updated: '' @ err)), s)
      | Inr refs \<Rightarrow> (Ret None, UpdateSecretIndex js refs (fst s) (snd s)))"

definition RegisterEventHandlers ::
    "cache_json \<Rightarrow> (string list \<Rightarrow> string list) \<Rightarrow> (string \<Rightarrow> string + NodeStateUpdatePayload) \<Rightarrow> (string \<Rightarrow> string + SecretRef list) \<Rightarrow>
     api_state EventDispatcher \<Rightarrow> api_state EventDispatcher" where
  "RegisterEventHandlers js ord uState uSecrets d =
     Register ''node_secrets_updated'' (HandleNodeSecretsUpdated js uSecrets)
       (Register ''node_state_updated'' (HandleNodeStateUpdated js ord uState) d)"

section \<open>server.go\<close>

record NodeAPIServer =
  sv_cfg :: NodeAPIConfig
  sv_nsk :: string
  sv_cache :: StateCache

definition NewServer :: "NodeAPIConfig \<Rightarrow> string \<Rightarrow> NodeAPIServer" where
  "NewServer cfg nsk =
     (let cfg = NodeAPIConfig_ApplyDefaults cfg
      in \<lparr>sv_cfg = cfg, sv_nsk = nsk, sv_cache = NewStateCache (na_DataDir cfg)\<rparr>)"

definition isReportPath :: "string \<Rightarrow> bool" where
  "isReportPath path \<longleftrightarrow> HasPrefix path ''/v1/state/report/'' \<and> length (filter (\<lambda>c. c = CHR ''/'') path) = 4"

definition extractReportKey :: "string \<Rightarrow> string" where
  "extractReportKey path = (let parts = Split path (CHR ''/'') in if 5 \<le> length parts then parts ! 4 else '''')"

definition api_entry :: "ReportEntry \<Rightarrow> ApiReportEntry" where
  "api_entry e = \<lparr>are_Key = re_Key e, are_ContentType = re_ContentType e, are_Payload = re_Payload e,
     are_Version = re_Version e, are_UpdatedAt = re_UpdatedAt e\<rparr>"

text \<open>Requests run concurrently: \<open>other\<close> is what other requests do to the cache between the response
  and the look-up of the entry.\<close>

definition reportNotifyMiddleware ::
    "(api_state \<Rightarrow> api_state) \<Rightarrow> api_state http_handler \<Rightarrow> (api_state \<times> ReportSyncer) http_handler" where
  "reportNotifyMiddleware other next r st =
     (let isPutReport = (rq_Method r = ''PUT'' \<and> isReportPath (URL_Path r));
          isDeleteReport = (rq_Method r = ''DELETE'' \<and> isReportPath (URL_Path r));
          (resp, s) = next r (fst st);
          s = other s;
          syncer = snd st;
          syncer =
            (if isPutReport \<and> rp_Status resp = 200 then
               (case GetReport (extractReportKey (URL_Path r)) (fst s) of
                  None \<Rightarrow> syncer
                | Some entry \<Rightarrow> NotifyChange [api_entry entry] [] syncer)
             else syncer);
          syncer =
            (if isDeleteReport \<and> rp_Status resp = 204 then NotifyChange [] [extractReportKey (URL_Path r)] syncer
             else syncer)
      in (resp, s, syncer))"

definition NodeAPI_ReconcileHandler ::
    "cache_json \<Rightarrow> (string list \<Rightarrow> string list) \<Rightarrow> api_state ReconcileHandler" where
  "NodeAPI_ReconcileHandler js ord desired diff s =
     (let s = (if MetadataChanged diff then UpdateMetadata js (sr_Metadata desired) (fst s) (snd s) else s);
          s = (if DataChanged diff then UpdateData js ord (sr_Data desired) (fst s) (snd s) else s);
          s = (if SecretRefsChanged diff then UpdateSecretIndex js (sr_SecretRefs desired) (fst s) (snd s) else s)
      in (Ret None, s))"

definition readTokenFile :: "string \<Rightarrow> FS \<Rightarrow> (string + string) \<times> FS" where
  "readTokenFile path fs =
     (if path = '''' then (Inl ''token file path is empty'', fs)
      else case os_ReadFile path fs of
        (Inl err, fs) \<Rightarrow> (Inl (fs_error_text err), fs)
      | (Inr data, fs) \<Rightarrow>
          let token = TrimSpace data
          in (if token = '''' then Inl ''token file is empty'' else Inr token, fs))"

text \<open>The handler of the Unix socket and that of the TCP listener; a request target that cannot be
  decoded is refused by the HTTP server.\<close>

definition http_serve :: "'s http_handler \<Rightarrow> 's http_handler" where
  "http_serve next r s =
     (if unescape (rq_EscapedPath r) = None then (\<lparr>rp_Status = 400, rp_Body = BText ''400 Bad Request''\<rparr>, s) else next r s)"

definition unix_handler ::
    "handler_env \<Rightarrow> user_db \<Rightarrow> (api_state \<Rightarrow> api_state) \<Rightarrow> string \<Rightarrow> NodeAPIServer \<Rightarrow> (api_state \<times> ReportSyncer) http_handler" where
  "unix_handler e db other nodeID s =
     (let wrappedMux = reportNotifyMiddleware other (serve_mux e \<lparr>hd_nodeID = nodeID, hd_nsk = sv_nsk s\<rparr>)
      in http_serve (if na_SecretAuthEnabled (sv_cfg s) then wrapSecretAuth db wrappedMux else wrappedMux))"

definition tcp_handler ::
    "handler_env \<Rightarrow> (api_state \<Rightarrow> api_state) \<Rightarrow> string \<Rightarrow> NodeAPIServer \<Rightarrow> string \<Rightarrow> (api_state \<times> ReportSyncer) http_handler" where
  "tcp_handler e other nodeID s token =
     http_serve (BearerAuthMiddleware token
       (reportNotifyMiddleware other (serve_mux e \<lparr>hd_nodeID = nodeID, hd_nsk = sv_nsk s\<rparr>)))"

text \<open>The listeners that are open, the socket files that exist, and the rest of the file system.\<close>

datatype listener = UnixListener string | TCPListener string

record server_world =
  sw_open :: "listener list"
  sw_sockets :: "string list"
  sw_perms :: "perm_call list"
  sw_fs :: FS

record server_env =
  se_listenUnix :: "string \<Rightarrow> string option"
  se_listenTCP :: "string \<Rightarrow> string option"
  se_users :: user_db
  se_perm :: "perm_call \<Rightarrow> string option"

definition remove_socket :: "string \<Rightarrow> server_world \<Rightarrow> server_world" where
  "remove_socket path w = w\<lparr>sw_sockets := removeAll path (sw_sockets w)\<rparr>"

definition close_listener :: "listener \<Rightarrow> server_world \<Rightarrow> server_world" where
  "close_listener l w = w\<lparr>sw_open := remove1 l (sw_open w)\<rparr>"

text \<open>The part of \<open>Start\<close> that can fail: the TCP token and listener, if one is wanted, and the Unix
  listener, with the error or the token.\<close>

definition start_listeners :: "server_env \<Rightarrow> NodeAPIConfig \<Rightarrow> server_world \<Rightarrow> (string + string option) \<times> server_world" where
  "start_listeners e cfg w =
     (let path = na_SocketPath cfg;
          w = remove_socket path w
      in case os_MkdirAll (filepath_Dir path) (sw_fs w) of
        (Some err, fs) \<Rightarrow> (Inl (''nodeapi: create socket dir: '' @ fs_error_text err), w\<lparr>sw_fs := fs\<rparr>)
      | (None, fs) \<Rightarrow>
          let w = w\<lparr>sw_fs := fs\<rparr>
          in case se_listenUnix e path of
            Some err \<Rightarrow> (Inl (''nodeapi: listen unix '' @ path @ '': '' @ err), w)
          | None \<Rightarrow>
              let w = w\<lparr>sw_open := UnixListener path # sw_open w, sw_sockets := path # sw_sockets w\<rparr>;
                  w = w\<lparr>sw_perms := sw_perms w @ applySocketPermissions (se_users e) (se_perm e) path\<rparr>;
                  undo = (\<lambda>w. remove_socket path (close_listener (UnixListener path) w))
              in if \<not> na_HTTPEnabled cfg then (Inr None, w)
                 else case readTokenFile (na_HTTPTokenFile cfg) (sw_fs w) of
                   (Inl err, fs) \<Rightarrow> (Inl (''nodeapi: read token file: '' @ err), undo (w\<lparr>sw_fs := fs\<rparr>))
                 | (Inr token, fs) \<Rightarrow>
                     (case se_listenTCP e (na_HTTPListen cfg) of
                        Some err \<Rightarrow> (Inl (''nodeapi: listen tcp '' @ na_HTTPListen cfg @ '': '' @ err), undo (w\<lparr>sw_fs := fs\<rparr>))
                      | None \<Rightarrow> (Inr (Some token), w\<lparr>sw_fs := fs, sw_open := TCPListener (na_HTTPListen cfg) # sw_open w\<rparr>)))"

text \<open>\<open>Start\<close> with everything that happens while it serves as the parameter \<open>serving\<close>, which does not
  open or close listeners of its own.\<close>

definition NodeAPI_Start ::
    "cache_json \<Rightarrow> server_env \<Rightarrow> (string option \<Rightarrow> StateCache \<times> FS \<Rightarrow> StateCache \<times> FS) \<Rightarrow> NodeAPIServer \<Rightarrow> server_world \<Rightarrow>
     string \<times> NodeAPIServer \<times> server_world" where
  "NodeAPI_Start js e serving s w =
     (case NodeAPIConfig_Validate (sv_cfg s) of
        Some err \<Rightarrow> (err, s, w)
      | None \<Rightarrow>
          (case Load js (sv_cache s) (sw_fs w) of
             (Some err, sc, fs) \<Rightarrow> (''nodeapi: load cache: '' @ err, s\<lparr>sv_cache := sc\<rparr>, w\<lparr>sw_fs := fs\<rparr>)
           | (None, sc, fs) \<Rightarrow>
               (case start_listeners e (sv_cfg s) (w\<lparr>sw_fs := fs\<rparr>) of
                  (Inl err, w) \<Rightarrow> (err, s\<lparr>sv_cache := sc\<rparr>, w)
                | (Inr token, w) \<Rightarrow>
                    let (sc, fs) = serving token (sc, sw_fs w);
                        w = close_listener (UnixListener (na_SocketPath (sv_cfg s))) (w\<lparr>sw_fs := fs\<rparr>);
                        w = (if token \<noteq> None then close_listener (TCPListener (na_HTTPListen (sv_cfg s))) w else w)
                    in (''context canceled'', s\<lparr>sv_cache := sc\<rparr>, remove_socket (na_SocketPath (sv_cfg s)) w))))"

section \<open>Routing\<close>

lemma match_literal: "wildcard \<notin> set ps \<Longrightarrow> match_segments ps segs = Some vs \<Longrightarrow> segs = ps \<and> vs = []"
  by (induction ps segs arbitrary: vs rule: match_segments.induct) (auto split: if_splits)

lemma match_key:
  "wildcard \<notin> set ps \<Longrightarrow> match_segments (ps @ [wildcard]) segs = Some vs \<Longrightarrow> \<exists>k. segs = ps @ [k] \<and> vs = [k] \<and> k \<noteq> ''/''"
proof (induction ps arbitrary: segs)
  case Nil
  then show ?case by (cases segs; cases "tl segs") (auto split: if_splits)
next
  case (Cons p ps)
  then show ?case by (cases segs) (auto split: if_splits)
qed

lemma route_path:
  assumes "findHandler Mux r = Found ep vs" and "unescape (rq_EscapedPath r) \<noteq> None"
  obtains (literal) m pat where "(m, pat, ep) \<in> set Mux" "wildcard \<notin> set pat" "URL_Path r = CHR ''/'' # Join pat ''/''"
      "m = rq_Method r \<or> (rq_Method r = ''HEAD'' \<and> m = ''GET'')"
  | (key) m pat k where "(m, pat @ [wildcard], ep) \<in> set Mux" "URL_Path r = CHR ''/'' # Join (pat @ [k]) ''/''" "PathValue vs = k"
      "m = rq_Method r \<or> (rq_Method r = ''HEAD'' \<and> m = ''GET'')"
proof -
  obtain m pat where f: "(m, pat, ep) \<in> set Mux" "m = rq_Method r \<or> (rq_Method r = ''HEAD'' \<and> m = ''GET'')"
    "match_segments pat (path_segments (rq_EscapedPath r)) = Some vs"
    "rq_Method r \<noteq> ''CONNECT'' \<longrightarrow> HasPrefix (rq_EscapedPath r) ''/''"
    using findHandler_Found [OF assms(1)] .
  have "m \<noteq> ''CONNECT''" using f(1) by (auto simp: Mux_def)
  then have root: "HasPrefix (rq_EscapedPath r) ''/''" using f(2,4) by auto
  note path = path_segments_Join [OF root assms(2)]
  consider "wildcard \<notin> set pat" "pat \<noteq> []" "last pat \<noteq> ''/''" | ps where "pat = ps @ [wildcard]" "wildcard \<notin> set ps"
    using f(1) by (auto simp: Mux_def)
  then show thesis
  proof cases
    case 1
    then show ?thesis using match_literal [OF 1(1) f(3)] path f(1,2) 1(1) literal by (simp add: URL_Path_def)
  next
    case (2 ps)
    then obtain k where "path_segments (rq_EscapedPath r) = ps @ [k]" "vs = [k]" "k \<noteq> ''/''" using match_key f(3) by blast
    then show ?thesis using path f(1,2) 2 key by (simp add: URL_Path_def PathValue_def)
  qed
qed

lemma secret_endpoint_path:
  assumes "findHandler Mux r = Found ep vs" "unescape (rq_EscapedPath r) \<noteq> None" "ep \<in> {GetSecretsList_ep, GetSecretValue_ep}"
  shows "HasPrefix (URL_Path r) ''/v1/state/secrets''"
  using assms(1,2)
proof (cases rule: route_path)
  case (literal m pat)
  then show ?thesis using assms(3) by (auto simp: Mux_def HasPrefix_def)
next
  case (key m pat k)
  then show ?thesis using assms(3) by (auto simp: Mux_def HasPrefix_def)
qed

lemma report_endpoint_path:
  assumes "findHandler Mux r = Found ep vs" "unescape (rq_EscapedPath r) \<noteq> None" "ep \<in> {PutReport_ep, DeleteReport_ep}"
  shows "URL_Path r = ''/v1/state/report/'' @ PathValue vs" "rq_Method r = (if ep = PutReport_ep then ''PUT'' else ''DELETE'')"
proof -
  have "URL_Path r = ''/v1/state/report/'' @ PathValue vs \<and> rq_Method r = (if ep = PutReport_ep then ''PUT'' else ''DELETE'')"
    using assms(1,2)
  proof (cases rule: route_path)
    case (literal m pat)
    then show ?thesis using assms(3) by (auto simp: Mux_def)
  next
    case (key m pat k)
    then show ?thesis using assms(3) by (auto simp: Mux_def)
  qed
  then show "URL_Path r = ''/v1/state/report/'' @ PathValue vs" "rq_Method r = (if ep = PutReport_ep then ''PUT'' else ''DELETE'')"
    by blast+
qed

lemma report_path_key:
  assumes "CHR ''/'' \<notin> set key"
  shows "isReportPath (''/v1/state/report/'' @ key)" "extractReportKey (''/v1/state/report/'' @ key) = key"
proof -
  show "isReportPath (''/v1/state/report/'' @ key)"
    using assms by (auto simp: isReportPath_def HasPrefix_def filter_empty_conv)
  have "Split (''/v1/state/report'' @ CHR ''/'' # key) (CHR ''/'') = ['''', ''v1'', ''state'', ''report'', key]"
    by (simp only: Split_append Split_single [OF assms]) simp
  then show "extractReportKey (''/v1/state/report/'' @ key) = key" by (simp add: extractReportKey_def)
qed

section \<open>Responses\<close>

fun is_secret :: "body \<Rightarrow> bool" where
  "is_secret (BSecretIndex _) = True"
| "is_secret (BSecretValue _ _ _) = True"
| "is_secret _ = False"

lemmas handler_defs = handleGetState_def handleGetMetadataAll_def handleGetMetadataKey_def handleGetDataAll_def handleGetDataKey_def
  handleGetSecretsList_def handleGetSecretValue_def handleGetReportAll_def handleGetReportKey_def

lemmas write_defs = writeJSON_def writeError_def

lemma handlePutReport_cases:
  obtains (refused) resp where "handlePutReport e key r s = (resp, s)" "rp_Status resp \<notin> {200, 204}" "\<not> is_secret (rp_Body resp)"
  | (stored) entry ct p im s' where "validReportKey key" "handlePutReport e key r s = (writeJSON 200 (BReport entry), s')"
      "PutReport (he_json e) (he_now e) key ct p im (fst s) (snd s) = (Inr entry, s')"
proof -
  let ?req = "he_Decode e (take maxReportBodyBytes (rq_Body r)) (maxReportBodyBytes < length (rq_Body r))"
  have "(\<exists>resp. handlePutReport e key r s = (resp, s) \<and> rp_Status resp \<notin> {200, 204} \<and> \<not> is_secret (rp_Body resp)) \<or>
    (\<exists>entry ct p im s'. validReportKey key \<and> handlePutReport e key r s = (writeJSON 200 (BReport entry), s') \<and>
       PutReport (he_json e) (he_now e) key ct p im (fst s) (snd s) = (Inr entry, s'))" (is ?goal)
  proof (cases "\<exists>req im. validReportKey key \<and> ?req = Inr req \<and> rpr_ContentType req \<noteq> '''' \<and> length (rpr_Payload req) \<noteq> 0 \<and>
      he_Valid e (rpr_Payload req) \<and> parse_if_match (rq_IfMatch r) = Some im")
    case False
    then show ?thesis unfolding handlePutReport_def write_defs by (auto split: sum.splits option.splits)
  next
    case True
    then obtain req im where t: "validReportKey key" "?req = Inr req" "rpr_ContentType req \<noteq> ''''" "length (rpr_Payload req) \<noteq> 0"
      "he_Valid e (rpr_Payload req)" "parse_if_match (rq_IfMatch r) = Some im" by blast
    show ?thesis
    proof (cases rule: PutReport_cases [of "he_json e" "he_now e" key "rpr_ContentType req" "rpr_Payload req" im "fst s" "snd s"])
      case conflict
      then show ?thesis using t by (simp add: handlePutReport_def write_defs)
    next
      case (stored entry)
      then show ?thesis using t by (auto simp: handlePutReport_def)
    qed
  qed
  then show thesis using that by blast
qed

lemma handleDeleteReport_cases:
  obtains (refused) resp where "handleDeleteReport key s = (resp, s)" "rp_Status resp \<noteq> 204" "\<not> is_secret (rp_Body resp)"
  | (deleted) s' where "validReportKey key" "handleDeleteReport key s = (\<lparr>rp_Status = 204, rp_Body = BNone\<rparr>, s')"
      "DeleteReport key (fst s) (snd s) = (None, s')"
proof (cases "validReportKey key \<and> mhas (sc_reports (fst s)) key")
  case True
  then obtain s' where "DeleteReport key (fst s) (snd s) = (None, s')" by (auto simp: DeleteReport_def)
  then show ?thesis using deleted True by (simp add: handleDeleteReport_def)
next
  case False
  then have "validReportKey key \<Longrightarrow> DeleteReport key (fst s) (snd s) = (Some ErrReportNotFound, s)" by (simp add: DeleteReport_def)
  then have "handleDeleteReport key s = (if validReportKey key then writeError 404 ''not found'' else writeError 400 ''invalid report key'', s)"
    by (simp add: handleDeleteReport_def)
  then show ?thesis by (rule refused) (simp_all add: write_defs)
qed

text \<open>What a request does, by its endpoint: it reads, or it writes or deletes one report.\<close>

lemma serve_mux_cases:
  assumes "serve_mux e h r s = (resp, s')"
  obtains (secret) ep vs where "findHandler Mux r = Found ep vs" "ep \<in> {GetSecretsList_ep, GetSecretValue_ep}" "s' = s"
  | (read) "s' = s" "\<not> is_secret (rp_Body resp)" "rq_Method r = ''PUT'' \<longrightarrow> rp_Status resp \<noteq> 200" "rp_Status resp \<noteq> 204"
  | (put) vs entry ct p im where "findHandler Mux r = Found PutReport_ep vs" "validReportKey (PathValue vs)" "resp = writeJSON 200 (BReport entry)"
      "PutReport (he_json e) (he_now e) (PathValue vs) ct p im (fst s) (snd s) = (Inr entry, s')"
  | (delete) vs where "findHandler Mux r = Found DeleteReport_ep vs" "validReportKey (PathValue vs)" "resp = \<lparr>rp_Status = 204, rp_Body = BNone\<rparr>"
      "DeleteReport (PathValue vs) (fst s) (snd s) = (None, s')"
proof (cases "findHandler Mux r")
  case (Found ep vs)
  have run: "endpoint_handler e h ep (PathValue vs) r s = (resp, s')" using assms Found by (simp add: serve_mux_def)
  obtain m pat where f: "(m, pat, ep) \<in> set Mux" "m = rq_Method r \<or> (rq_Method r = ''HEAD'' \<and> m = ''GET'')"
    using findHandler_Found [OF Found] .
  consider "ep \<in> {GetSecretsList_ep, GetSecretValue_ep}" | "ep = PutReport_ep" | "ep = DeleteReport_ep"
    | "ep \<in> {GetState_ep, GetMetadataAll_ep, GetMetadataKey_ep, GetDataAll_ep, GetDataKey_ep, GetReportAll_ep, GetReportKey_ep}"
    by (cases ep) auto
  then show ?thesis
  proof cases
    case 1
    then have "s' = s" using run by (auto simp: endpoint_handler_def handler_defs write_defs split: sum.splits if_splits)
    then show ?thesis using secret [OF Found] 1 by blast
  next
    case 2
    then have "handlePutReport e (PathValue vs) r s = (resp, s')" using run by (simp add: endpoint_handler_def)
    then show ?thesis
      by (cases rule: handlePutReport_cases [of e "PathValue vs" r s]) (use Found 2 put read in auto)
  next
    case 3
    then have d: "handleDeleteReport (PathValue vs) s = (resp, s')" using run by (simp add: endpoint_handler_def)
    have "rq_Method r \<noteq> ''PUT''" using f 3 by (auto simp: Mux_def)
    then show ?thesis
      using d by (cases rule: handleDeleteReport_cases [of "PathValue vs" s]) (use Found 3 delete read in auto)
  next
    case 4
    then have "rq_Method r \<noteq> ''PUT''" using f by (auto simp: Mux_def)
    moreover have "s' = s" "\<not> is_secret (rp_Body resp)" "rp_Status resp \<noteq> 204"
      using run 4 by (auto simp: endpoint_handler_def handler_defs Let_def write_defs split: option.splits if_splits)
    ultimately show ?thesis using read by blast
  qed
qed (use assms read in \<open>auto simp: serve_mux_def\<close>)

section \<open>Confinement of report requests\<close>

text \<open>Every file outside the report directory keeps its contents.\<close>

definition confined :: "string \<Rightarrow> FS \<Rightarrow> FS \<Rightarrow> bool" where
  "confined d fs fs' \<longleftrightarrow> (\<forall>p. filepath_Dir p \<noteq> state_sub d ''report'' \<longrightarrow> content fs' p = content fs p)"

lemma persist_confined:
  assumes "HasPrefix (sc_dataDir sc) ''/''" "CHR ''/'' \<notin> set k" "fs_ok fs"
  shows "confined (sc_dataDir sc) fs (persistJSON (report_path sc k) x fs)"
proof (cases x)
  case (Inr s)
  let ?dir = "state_sub (sc_dataDir sc) ''report''" and ?n = "k @ ''.json''"
  note dir = persisted_dir [OF assms(1) plain_names(2)] and n = key_file_plain [OF assms(2)]
  note parts = Dir_Base_entry [OF dir(1) n] Dir_Base_entry [OF dir(1) tmp_plain [OF n]]
  obtain err fs' where w: "WriteFileAtomic ?dir ?n s 384 fs = (err, fs')" by (cases "WriteFileAtomic ?dir ?n s 384 fs")
  then have run: "persistJSON (report_path sc k) x fs = fs'"
    using Inr parts(1,2) dir(2) by (simp add: persistJSON_def report_path_eq [OF assms(1,2)])
  have "content fs' p = content fs p" if "filepath_Dir p \<noteq> ?dir" for p
  proof -
    have "p \<noteq> filepath_Join [?dir, ?n]" "p \<noteq> filepath_Join [?dir, ''.tmp-'' @ ?n]" using that parts(1,3) dir(2) by metis+
    then show ?thesis using WriteFileAtomic_effect [OF assms(3) dir(3) n w] unfolding atomic_effect_def by blast
  qed
  then show ?thesis unfolding confined_def run by blast
qed (simp add: confined_def persistJSON_def)

lemma remove_confined:
  assumes "HasPrefix (sc_dataDir sc) ''/''" "CHR ''/'' \<notin> set k" "fs_ok fs"
  shows "confined (sc_dataDir sc) fs (snd (os_Remove (report_path sc k) fs))"
  using os_calls_touch(5) [OF assms(3), of "report_path sc k"] report_file_parts(1) [OF assms(1,2)]
  unfolding report_path_eq [OF assms(1,2)] only_touches_def confined_def by metis

lemma PutReport_persists:
  "PutReport js now key ct p im sc fs = (Inr entry, sc', fs') \<Longrightarrow>
     \<exists>x. sc_dataDir sc' = sc_dataDir sc \<and> fs' = persistJSON (report_path sc' key) x fs"
  by (auto simp: PutReport_def Let_def split: option.splits if_splits)

section \<open>Listeners\<close>

lemma start_listeners_result:
  fixes e cfg v
  defines "x \<equiv> start_listeners e cfg v"
  shows "(\<exists>err. fst x = Inl err) \<and> sw_open (snd x) = sw_open v \<and> sw_sockets (snd x) = removeAll (na_SocketPath cfg) (sw_sockets v) \<or>
    fst x = Inr None \<and> sw_open (snd x) = UnixListener (na_SocketPath cfg) # sw_open v \<and>
      removeAll (na_SocketPath cfg) (sw_sockets (snd x)) = removeAll (na_SocketPath cfg) (sw_sockets v) \<or>
    (\<exists>t. fst x = Inr (Some t)) \<and> sw_open (snd x) = TCPListener (na_HTTPListen cfg) # UnixListener (na_SocketPath cfg) # sw_open v \<and>
      removeAll (na_SocketPath cfg) (sw_sockets (snd x)) = removeAll (na_SocketPath cfg) (sw_sockets v)"
  unfolding x_def start_listeners_def Let_def remove_socket_def close_listener_def
  by (auto split: prod.splits option.splits sum.splits)

section \<open>The cache and the reconciler\<close>

text \<open>A restarted agent has loaded its cache from disk, while the snapshot of the reconciler starts
  empty.  When the control plane has meanwhile removed everything, the first cycle sees no difference
  and the cache keeps serving what it loaded.\<close>

lemma restart_keeps_stale_cache:
  assumes "FetchState client nodeID w = (Inr (Some emptyStateResponse), w)"
  shows "runCycle now client nodeID (RegisterHandler (NodeAPI_ReconcileHandler js ord) (NewReconciler c cfg)) w =
    (RegisterHandler (NodeAPI_ReconcileHandler js ord) (NewReconciler c cfg), w)"
proof -
  have "IsEmpty (ComputeDiff (Some emptyStateResponse) (Some (stateSnapshot_Get NewStateSnapshot)))" by code_simp
  then show ?thesis using assms by (simp add: runCycle_def RegisterHandler_def NewReconciler_def)
qed

section \<open>Properties of the node API\<close>

text \<open>A concrete server and requests with percent-encoded paths.\<close>

definition ex_env :: handler_env where
  "ex_env = \<lparr>he_FetchSecret = (\<lambda>n k. Inl (Plain ''unreachable'')), he_gcm_Open = (\<lambda>k n c. None),
     he_Decode = (\<lambda>b more. Inr \<lparr>rpr_ContentType = ''text/plain'', rpr_Payload = b\<rparr>), he_Valid = (\<lambda>_. True),
     he_now = 7, he_ord = id, he_json = ex_json\<rparr>"

definition ex_db :: user_db where
  "ex_db = \<lparr>ud_LookupGroup = (\<lambda>_. Inl ''unknown group''), ud_GroupIds = (\<lambda>_. Inr [])\<rparr>"

definition ex_server :: NodeAPIServer where
  "ex_server = \<lparr>sv_cfg = \<lparr>na_SocketPath = ''/r/s'', na_HTTPEnabled = False, na_HTTPListen = '''', na_HTTPTokenFile = '''',
     na_DebouncePeriod = Second, na_ShutdownTimeout = Second, na_DataDir = ''/v'', na_SecretAuthEnabled = True\<rparr>,
     sv_nsk = '''', sv_cache = NewStateCache ''/v''\<rparr>"

definition ex_request :: "string \<Rightarrow> string \<Rightarrow> Request" where
  "ex_request meth path = \<lparr>rq_Method = meth, rq_EscapedPath = path, rq_Authorization = '''', rq_IfMatch = '''', rq_Body = ''1'',
     rq_cred = Some \<lparr>pc_PID = 1, pc_UID = 0, pc_GID = 0\<rparr>\<rparr>"

abbreviation ex_api :: "api_state \<times> ReportSyncer" where
  "ex_api \<equiv> ((NewStateCache ''/v'', ex_disk), NewReportSyncer ''n'' Second)"

lemma reportNotify_response: "fst (reportNotifyMiddleware other next r st) = fst (next r (fst st))"
  by (simp add: reportNotifyMiddleware_def Let_def split: prod.splits)

lemma ex_put:
  assumes "findHandler Mux (ex_request ''PUT'' path) = Found PutReport_ep [''os'']"
  shows "rp_Status (fst (serve_mux ex_env h (ex_request ''PUT'' path) (NewStateCache ''/v'', fs))) = 200"
  using assms
  by (simp add: serve_mux_def endpoint_handler_def PathValue_def handlePutReport_def validReportKey_def ex_env_def ex_request_def
    parse_if_match_def PutReport_def NewStateCache_def Let_def writeJSON_def)





text \<open>C26: A request cannot touch a file outside the report directory, whatever its path and body, and
  also when the file system fails.\<close>

theorem requests_confined:
  assumes "serve_mux e h r (sc, fs) = (resp, sc', fs')" and "HasPrefix (sc_dataDir sc) ''/''" and "fs_ok fs"
    and "filepath_Dir p \<noteq> state_sub (sc_dataDir sc) ''report''"
  shows "content fs' p = content fs p"
  using assms(1)
proof (cases rule: serve_mux_cases)
  case (put vs entry ct pl im)
  have k: "CHR ''/'' \<notin> set (PathValue vs)" using put(2) by (simp add: validReportKey_def)
  obtain x where x: "sc_dataDir sc' = sc_dataDir sc" "fs' = persistJSON (report_path sc' (PathValue vs)) x fs"
    using PutReport_persists put(4) by (metis fst_conv snd_conv)
  then have "confined (sc_dataDir sc) fs fs'" using persist_confined [of sc' "PathValue vs" fs x] k assms(2,3) by simp
  then show ?thesis using assms(4) by (simp add: confined_def)
next
  case (delete vs)
  then have "fs' = snd (os_Remove (report_path sc (PathValue vs)) fs)" by (auto simp: DeleteReport_def split: option.splits)
  then show ?thesis
    using remove_confined [OF assms(2) _ assms(3)] delete(2) assms(4) by (auto simp: confined_def validReportKey_def)
qed auto

theorem requests_confined_witness:
  "rp_Status (fst (serve_mux ex_env \<lparr>hd_nodeID = ''n'', hd_nsk = ''''\<rparr> (ex_request ''PUT'' ''/v1/state/report/os'') (NewStateCache ''/v'', ex_disk))) = 200 \<and>
   content (snd (snd (serve_mux ex_env \<lparr>hd_nodeID = ''n'', hd_nsk = ''''\<rparr> (ex_request ''PUT'' ''/v1/state/report/os'') (NewStateCache ''/v'', ex_disk))))
     ''/v/state/metadata.json'' = content ex_disk ''/v/state/metadata.json''"
proof -
  let ?r = "serve_mux ex_env \<lparr>hd_nodeID = ''n'', hd_nsk = ''''\<rparr> (ex_request ''PUT'' ''/v1/state/report/os'') (NewStateCache ''/v'', ex_disk)"
  obtain resp sc' fs' where r: "?r = (resp, sc', fs')" by (cases ?r)
  have st: "findHandler Mux (ex_request ''PUT'' ''/v1/state/report/os'') = Found PutReport_ep [''os'']"
    "HasPrefix (sc_dataDir (NewStateCache ''/v'')) ''/''" "fs_ok ex_disk"
    "filepath_Dir ''/v/state/metadata.json'' \<noteq> state_sub (sc_dataDir (NewStateCache ''/v'')) ''report''" by code_simp+
  have "content (snd (snd ?r)) ''/v/state/metadata.json'' = content ex_disk ''/v/state/metadata.json''"
    using requests_confined [OF r st(2-4)] by (simp only: r snd_conv)
  then show ?thesis using ex_put [OF st(1)] by blast
qed

text \<open>The server releases what it acquired, on every path: however \<open>Start\<close> returns, the listeners
  that are open are those that were open before, and once it has tried to listen its socket file is
  gone.\<close>

theorem Start_releases:
  fixes js e serving s w
  defines "w' \<equiv> snd (snd (NodeAPI_Start js e serving s w))"
  shows "sw_open w' = sw_open w \<and> (sw_sockets w' = sw_sockets w \<or> sw_sockets w' = removeAll (na_SocketPath (sv_cfg s)) (sw_sockets w))"
proof -
  obtain lerr sc fs where ld: "Load js (sv_cache s) (sw_fs w) = (lerr, sc, fs)" by (cases "Load js (sv_cache s) (sw_fs w)") auto
  obtain x v where st: "start_listeners e (sv_cfg s) (w\<lparr>sw_fs := fs\<rparr>) = (x, v)" by (cases "start_listeners e (sv_cfg s) (w\<lparr>sw_fs := fs\<rparr>)")
  consider "NodeAPIConfig_Validate (sv_cfg s) \<noteq> None" | "NodeAPIConfig_Validate (sv_cfg s) = None" "lerr \<noteq> None"
    | le where "NodeAPIConfig_Validate (sv_cfg s) = None" "lerr = None" "x = Inl le"
    | tok where "NodeAPIConfig_Validate (sv_cfg s) = None" "lerr = None" "x = Inr tok" by (cases x) auto
  then show ?thesis
  proof cases
    case 3
    then have "w' = v" using ld st by (simp add: w'_def NodeAPI_Start_def)
    then show ?thesis using start_listeners_result [of e "sv_cfg s" "w\<lparr>sw_fs := fs\<rparr>"] 3 st by auto
  next
    case (4 tok)
    obtain sc2 fs2 where sv: "serving tok (sc, sw_fs v) = (sc2, fs2)" by (cases "serving tok (sc, sw_fs v)")
    show ?thesis
      using ld st 4 sv start_listeners_result [of e "sv_cfg s" "w\<lparr>sw_fs := fs\<rparr>"]
      by (auto simp: w'_def NodeAPI_Start_def Let_def remove_socket_def close_listener_def)
  qed (use ld in \<open>auto simp: w'_def NodeAPI_Start_def\<close>)
qed

end
