(* ===== verification/Integrity.thy ===== *)
theory Integrity
  imports Files
begin

text \<open>
  Integrity verification, \<open>internal/integrity\<close>: the configuration (\<open>config.go\<close>), the checksum of a
  file and its comparison (\<open>checker.go\<close>), the store of known checksums (\<open>store.go\<close>), and the verifier
  of the agent's binary and of hook scripts (\<open>verifier.go\<close>).  SHA-256 with its hexadecimal encoding
  and the JSON codec of the store are parameters; reports to the control plane are recorded, since
  the verifier ignores whether they arrive.
\<close>

section \<open>config.go\<close>

record IntegrityConfig =
  ig_Enabled :: bool
  ig_BinaryPath :: string
  ig_HooksDir :: string
  ig_VerifyInterval :: duration

definition IntegrityConfig_ApplyDefaults :: "IntegrityConfig \<Rightarrow> IntegrityConfig" where
  "IntegrityConfig_ApplyDefaults c =
     (if ig_VerifyInterval c = 0 then c\<lparr>ig_Enabled := True, ig_VerifyInterval := 5 * Minute\<rparr> else c)"

definition IntegrityConfig_Validate :: "IntegrityConfig \<Rightarrow> string option" where
  "IntegrityConfig_Validate c =
     (if \<not> ig_Enabled c then None
      else if ig_VerifyInterval c < 30 * Second then Some ''integrity: config: VerifyInterval must be at least 30s when enabled''
      else None)"

section \<open>checker.go\<close>

record CheckResult =
  cr_Path :: string
  cr_Expected :: string
  cr_Actual :: string
  cr_OK :: bool

definition os_Open :: "string \<Rightarrow> FS \<Rightarrow> fs_error option \<times> FS" where
  "os_Open path fs =
     (case syscall fs of
        (Fault e _, fs) \<Rightarrow> (Some (Errno (''open '' @ path @ '': '' @ e)), fs)
      | (NoFault, fs) \<Rightarrow> (if mget (fs_files fs) path = None then Some (no_such ''open'' path) else None, fs))"

definition HashFile :: "(string \<Rightarrow> string) \<Rightarrow> string \<Rightarrow> FS \<Rightarrow> (string + string) \<times> FS" where
  "HashFile sha path fs =
     (case os_Open path fs of
        (Some err, fs) \<Rightarrow> (Inl (''integrity: open '' @ path @ '': '' @ fs_error_text err), fs)
      | (None, fs) \<Rightarrow>
          (case os_ReadFile path fs of
             (Inl err, fs) \<Rightarrow> (Inl (''integrity: hash '' @ path @ '': '' @ fs_error_text err), fs)
           | (Inr data, fs) \<Rightarrow> (Inr (sha data), fs)))"

definition VerifyFile :: "(string \<Rightarrow> string) \<Rightarrow> string \<Rightarrow> string \<Rightarrow> bool \<Rightarrow> FS \<Rightarrow> (string + CheckResult) \<times> FS" where
  "VerifyFile sha path expectedChecksum requireChecksum fs =
     (if expectedChecksum = '''' \<and> requireChecksum then (Inl ''integrity: expected checksum is required'', fs)
      else case HashFile sha path fs of
        (Inl err, fs) \<Rightarrow> (Inl err, fs)
      | (Inr actual, fs) \<Rightarrow>
          if expectedChecksum = '''' then (Inr \<lparr>cr_Path = path, cr_Expected = '''', cr_Actual = actual, cr_OK = True\<rparr>, fs)
          else (Inr \<lparr>cr_Path = path, cr_Expected = expectedChecksum, cr_Actual = actual, cr_OK = (actual = expectedChecksum)\<rparr>, fs))"

section \<open>store.go\<close>

text \<open>A file with the text \<open>null\<close> makes the map nil, and writing to a nil map panics.\<close>

record Store =
  so_dataDir :: string
  so_checksums :: "(string, string) gomap option"

record store_json =
  sj_marshal :: "(string, string) gomap option \<Rightarrow> string + string"
  sj_unmarshal :: "string \<Rightarrow> string + (string, string) gomap option"

abbreviation checksumFileName :: string where "checksumFileName \<equiv> ''checksums.json''"

definition NewStore :: "store_json \<Rightarrow> string \<Rightarrow> FS \<Rightarrow> (string + Store) \<times> FS" where
  "NewStore js dataDir fs =
     (case os_ReadFile (filepath_Join [dataDir, checksumFileName]) fs of
        (Inl err, fs) \<Rightarrow>
          if os_IsNotExist err then (Inr \<lparr>so_dataDir = dataDir, so_checksums = Some []\<rparr>, fs)
          else (Inl (''integrity: read store: '' @ fs_error_text err), fs)
      | (Inr data, fs) \<Rightarrow>
          (case sj_unmarshal js data of
             Inl err \<Rightarrow> (Inl (''integrity: parse store: '' @ err), fs)
           | Inr m \<Rightarrow> (Inr \<lparr>so_dataDir = dataDir, so_checksums = m\<rparr>, fs)))"

definition Store_Get :: "string \<Rightarrow> Store \<Rightarrow> string" where
  "Store_Get path s =
     (case so_checksums s of None \<Rightarrow> '''' | Some m \<Rightarrow> (case mget m path of None \<Rightarrow> '''' | Some c \<Rightarrow> c))"

definition Store_persist :: "store_json \<Rightarrow> Store \<Rightarrow> FS \<Rightarrow> string option \<times> FS" where
  "Store_persist js s fs =
     (case sj_marshal js (so_checksums s) of
        Inl err \<Rightarrow> (Some (''integrity: marshal store: '' @ err), fs)
      | Inr data \<Rightarrow>
          (case WriteFileAtomic (so_dataDir s) checksumFileName data 384 fs of
             (err, fs) \<Rightarrow> (map_option fs_error_text err, fs)))"

definition Store_Set :: "store_json \<Rightarrow> string \<Rightarrow> string \<Rightarrow> Store \<Rightarrow> FS \<Rightarrow> string option outcome \<times> Store \<times> FS" where
  "Store_Set js path checksum s fs =
     (case so_checksums s of
        None \<Rightarrow> (Panic ''assignment to entry in nil map'', s, fs)
      | Some m \<Rightarrow>
          let s = s\<lparr>so_checksums := Some (mput path checksum m)\<rparr>; (err, fs) = Store_persist js s fs
          in (Ret err, s, fs))"

definition Store_Remove :: "store_json \<Rightarrow> string \<Rightarrow> Store \<Rightarrow> FS \<Rightarrow> string option \<times> Store \<times> FS" where
  "Store_Remove js path s fs =
     (let s = s\<lparr>so_checksums := map_option (mdel path) (so_checksums s)\<rparr>; (err, fs) = Store_persist js s fs
      in (err, s, fs))"

section \<open>verifier.go\<close>

record IntegrityViolationReport =
  iv_Type :: string
  iv_Path :: string
  iv_ExpectedChecksum :: string
  iv_ActualChecksum :: string
  iv_Detail :: string
  iv_Timestamp :: time

record Verifier =
  vf_cfg :: IntegrityConfig
  vf_store :: Store
  vf_binaryChecksum :: string

definition NewVerifier :: "IntegrityConfig \<Rightarrow> Store \<Rightarrow> Verifier" where
  "NewVerifier cfg store = \<lparr>vf_cfg = cfg, vf_store = store, vf_binaryChecksum = ''''\<rparr>"

text \<open>The verifier, the file system and the violations reported so far.\<close>

type_synonym verify_state = "Verifier \<times> FS \<times> IntegrityViolationReport list"

definition VerifyBinary :: "store_json \<Rightarrow> (string \<Rightarrow> string) \<Rightarrow> time \<Rightarrow> verify_state \<Rightarrow> string option outcome \<times> verify_state" where
  "VerifyBinary js sha now st =
     (case st of (v, fs, reports) \<Rightarrow>
      let path = ig_BinaryPath (vf_cfg v) in
      case HashFile sha path fs of
        (Inl err, fs) \<Rightarrow> (Ret (Some err), v, fs, reports)
      | (Inr actual, fs) \<Rightarrow>
          let v = v\<lparr>vf_binaryChecksum := actual\<rparr>;
              expected = Store_Get path (vf_store v)
          in if expected = '''' then
               (case Store_Set js path actual (vf_store v) fs of
                  (res, store, fs) \<Rightarrow> (res, v\<lparr>vf_store := store\<rparr>, fs, reports))
             else if actual = expected then (Ret None, v, fs, reports)
             else
               (Ret None, v, fs, reports @ [\<lparr>iv_Type = ''binary'', iv_Path = path, iv_ExpectedChecksum = expected,
                  iv_ActualChecksum = actual, iv_Detail = ''binary checksum mismatch'', iv_Timestamp = now\<rparr>]))"

definition VerifyHook ::
    "(string \<Rightarrow> string) \<Rightarrow> time \<Rightarrow> string \<Rightarrow> string \<Rightarrow> FS \<times> IntegrityViolationReport list \<Rightarrow>
     (string + bool) \<times> FS \<times> IntegrityViolationReport list" where
  "VerifyHook sha now hookPath expectedChecksum st =
     (case st of (fs, reports) \<Rightarrow>
      case VerifyFile sha hookPath expectedChecksum True fs of
        (Inl err, fs) \<Rightarrow> (Inl err, fs, reports)
      | (Inr result, fs) \<Rightarrow>
          if cr_OK result then (Inr True, fs, reports)
          else
            (Inr False, fs, reports @ [\<lparr>iv_Type = ''hook'', iv_Path = hookPath, iv_ExpectedChecksum = cr_Expected result,
               iv_ActualChecksum = cr_Actual result, iv_Detail = ''hook checksum mismatch'', iv_Timestamp = now\<rparr>]))"

text \<open>The loop of \<open>Run\<close> over the ticks that arrive before the context is done; a panic ends the
  process.\<close>

fun verify_ticks :: "store_json \<Rightarrow> (string \<Rightarrow> string) \<Rightarrow> time list \<Rightarrow> verify_state \<Rightarrow> unit outcome \<times> verify_state" where
  "verify_ticks js sha [] st = (Ret (), st)"
| "verify_ticks js sha (now # ticks) st =
     (case VerifyBinary js sha now st of
        (Panic p, st) \<Rightarrow> (Panic p, st)
      | (Ret err, st) \<Rightarrow> verify_ticks js sha ticks st)"

definition Integrity_Run :: "store_json \<Rightarrow> (string \<Rightarrow> string) \<Rightarrow> time list \<Rightarrow> verify_state \<Rightarrow> unit outcome \<times> verify_state" where
  "Integrity_Run js sha ticks st =
     (if \<not> ig_Enabled (vf_cfg (fst st)) then (Ret (), st) else verify_ticks js sha ticks st)"

section \<open>Files that do not fail\<close>

lemma HashFile_nf:
  "no_faults fs \<Longrightarrow> content fs p = Some d \<Longrightarrow> HashFile sha p fs = (Inr (sha d), fs)"
  by (auto simp: HashFile_def os_Open_def syscall_ok os_ReadFile_nf content_def)

text \<open>Whatever the file system does, a hook that is declared safe was read, and what was read has the
  expected checksum.\<close>

lemma HashFile_reads:
  assumes "HashFile sha p fs = (Inr h, fs')"
  shows "\<exists>d. content fs p = Some d \<and> h = sha d"
  using assms
  by (auto simp: HashFile_def os_Open_def os_ReadFile_def content_def dest!: syscall_content
    split: prod.splits fault.splits option.splits if_splits sum.splits)

lemma VerifyHook_true:
  assumes "VerifyHook sha now p expected st = (Inr True, st')"
  shows "expected \<noteq> '''' \<and> (\<exists>d. content (fst st) p = Some d \<and> sha d = expected)"
proof -
  obtain fs reports where st: "st = (fs, reports)" by force
  then obtain h fs1 where "expected \<noteq> ''''" "HashFile sha p fs = (Inr h, fs1)" "h = expected"
    using assms by (auto simp: VerifyHook_def VerifyFile_def split: prod.splits sum.splits if_splits)
  then show ?thesis using HashFile_reads st by fastforce
qed

section \<open>Tampering with the binary\<close>

text \<open>Between two verifications somebody replaces the binary, or the agent is restarted and opens the
  store anew.\<close>

datatype integrity_op = Check time string | Restart

definition replace_file :: "string \<Rightarrow> string \<Rightarrow> FS \<Rightarrow> FS" where
  "replace_file path data fs = fs\<lparr>fs_files := mput path (data, 493) (fs_files fs)\<rparr>"

fun integrity_step :: "store_json \<Rightarrow> (string \<Rightarrow> string) \<Rightarrow> integrity_op \<Rightarrow> verify_state \<Rightarrow> verify_state" where
  "integrity_step js sha (Check now data) (v, fs, reports) =
     snd (VerifyBinary js sha now (v, replace_file (ig_BinaryPath (vf_cfg v)) data fs, reports))"
| "integrity_step js sha Restart (v, fs, reports) =
     (case NewStore js (so_dataDir (vf_store v)) fs of
        (Inl err, fs) \<Rightarrow> (v, fs, reports)
      | (Inr store, fs) \<Rightarrow> (NewVerifier (vf_cfg v) store, fs, reports))"

definition store_codec :: "store_json \<Rightarrow> bool" where
  "store_codec js \<longleftrightarrow> (\<forall>m. \<exists>s. sj_marshal js (Some m) = Inr s \<and> sj_unmarshal js s = Inr (Some m))"

text \<open>The baseline is in memory and on disk.\<close>

definition baseline :: "store_json \<Rightarrow> string \<Rightarrow> Verifier \<Rightarrow> FS \<Rightarrow> bool" where
  "baseline js h v fs \<longleftrightarrow>
     (\<exists>m s. so_checksums (vf_store v) = Some m \<and> mget m (ig_BinaryPath (vf_cfg v)) = Some h \<and> sj_marshal js (Some m) = Inr s \<and>
        content fs (filepath_Join [so_dataDir (vf_store v), checksumFileName]) = Some s)"

definition store_dir_ok :: "Verifier \<Rightarrow> FS \<Rightarrow> bool" where
  "store_dir_ok v fs \<longleftrightarrow> no_faults fs \<and> fs_ok fs \<and> HasPrefix (so_dataDir (vf_store v)) ''/'' \<and>
     Clean (so_dataDir (vf_store v)) \<in> set (fs_dirs fs) \<and>
     ig_BinaryPath (vf_cfg v) \<noteq> filepath_Join [so_dataDir (vf_store v), checksumFileName]"

definition mismatch :: "(string \<Rightarrow> string) \<Rightarrow> string \<Rightarrow> string \<Rightarrow> time \<Rightarrow> string \<Rightarrow> IntegrityViolationReport" where
  "mismatch sha path h now data = \<lparr>iv_Type = ''binary'', iv_Path = path, iv_ExpectedChecksum = h, iv_ActualChecksum = sha data,
     iv_Detail = ''binary checksum mismatch'', iv_Timestamp = now\<rparr>"

lemma replace_file_facts:
  "no_faults (replace_file p d fs) = no_faults fs" "fs_dirs (replace_file p d fs) = fs_dirs fs"
  "fs_ok fs \<Longrightarrow> fs_ok (replace_file p d fs)" "content (replace_file p d fs) q = (if q = p then Some d else content fs q)"
  by (simp_all add: replace_file_def no_faults_def fs_ok_def gm.wf_put content_def)

lemma store_dir_ok_replace:
  "store_dir_ok v fs \<Longrightarrow> store_dir_ok v (replace_file (ig_BinaryPath (vf_cfg v)) d fs)"
  by (simp add: store_dir_ok_def replace_file_facts)

lemma first_check:
  assumes "store_dir_ok v fs" "store_codec js" "so_checksums (vf_store v) = Some []" "sha d \<noteq> ''''"
  obtains v' fs' where "integrity_step js sha (Check now d) (v, fs, rs) = (v', fs', rs)" "store_dir_ok v' fs'" "baseline js (sha d) v' fs'"
    "vf_cfg v' = vf_cfg v" "so_dataDir (vf_store v') = so_dataDir (vf_store v)"
proof -
  let ?p = "ig_BinaryPath (vf_cfg v)" and ?d = "so_dataDir (vf_store v)"
  let ?fs = "replace_file ?p d fs"
  have ok: "store_dir_ok v ?fs" using store_dir_ok_replace [OF assms(1)] .
  then have nf: "no_faults ?fs" "fs_ok ?fs" "HasPrefix ?d ''/''" "Clean ?d \<in> set (fs_dirs ?fs)" by (simp_all add: store_dir_ok_def)
  have h: "HashFile sha ?p ?fs = (Inr (sha d), ?fs)" using HashFile_nf [OF nf(1)] by (simp add: replace_file_facts)
  obtain s where s: "sj_marshal js (Some [(?p, sha d)]) = Inr s" using assms(2) by (auto simp: store_codec_def)
  have pn: "plain_name checksumFileName" by code_simp
  obtain fs' where w: "WriteFileAtomic ?d checksumFileName s 384 ?fs = (None, fs')" "no_faults fs'" "fs_ok fs'" "fs_dirs fs' = fs_dirs ?fs"
    "content fs' (filepath_Join [?d, checksumFileName]) = Some s"
    by (rule WriteFileAtomic_succeeds [OF nf pn])
  let ?v = "v\<lparr>vf_binaryChecksum := sha d, vf_store := (vf_store v)\<lparr>so_checksums := Some [(?p, sha d)]\<rparr>\<rparr>"
  have "integrity_step js sha (Check now d) (v, fs, rs) = (?v, fs', rs)"
    using h s w(1) assms(3) by (simp add: VerifyBinary_def Let_def Store_Get_def Store_Set_def Store_persist_def)
  then show thesis
    by (rule that) (use ok w s in \<open>simp_all add: store_dir_ok_def baseline_def\<close>)
qed

lemma later_check:
  assumes "store_dir_ok v fs" "baseline js h v fs" "h \<noteq> ''''"
  defines "p \<equiv> ig_BinaryPath (vf_cfg v)"
  obtains v' fs' where "integrity_step js sha (Check now d) (v, fs, rs) = (v', fs', rs @ (if sha d = h then [] else [mismatch sha p h now d]))"
    "store_dir_ok v' fs'" "baseline js h v' fs'" "vf_cfg v' = vf_cfg v" "so_dataDir (vf_store v') = so_dataDir (vf_store v)"
proof -
  let ?fs = "replace_file p d fs"
  have ok: "store_dir_ok v ?fs" using store_dir_ok_replace [OF assms(1)] by (simp add: p_def)
  then have hf: "HashFile sha p ?fs = (Inr (sha d), ?fs)" using HashFile_nf by (simp add: store_dir_ok_def replace_file_facts)
  have g: "Store_Get p (vf_store v) = h" using assms(2) by (auto simp: baseline_def Store_Get_def p_def)
  have "integrity_step js sha (Check now d) (v, fs, rs) =
      (v\<lparr>vf_binaryChecksum := sha d\<rparr>, ?fs, rs @ (if sha d = h then [] else [mismatch sha p h now d]))"
    using hf g assms(3) by (simp add: VerifyBinary_def Let_def mismatch_def p_def)
  then show thesis
    by (rule that) (use ok assms(2) in \<open>auto simp: store_dir_ok_def baseline_def replace_file_facts p_def\<close>)
qed

lemma restart:
  assumes "store_dir_ok v fs" "baseline js h v fs" "store_codec js"
  obtains v' where "integrity_step js sha Restart (v, fs, rs) = (v', fs, rs)"
    "store_dir_ok v' fs" "baseline js h v' fs" "vf_cfg v' = vf_cfg v" "so_dataDir (vf_store v') = so_dataDir (vf_store v)"
proof -
  let ?d = "so_dataDir (vf_store v)"
  obtain m s where m: "mget m (ig_BinaryPath (vf_cfg v)) = Some h" "sj_marshal js (Some m) = Inr s"
    "content fs (filepath_Join [?d, checksumFileName]) = Some s" "sj_unmarshal js s = Inr (Some m)"
  proof -
    obtain m s where m: "so_checksums (vf_store v) = Some m" "mget m (ig_BinaryPath (vf_cfg v)) = Some h" "sj_marshal js (Some m) = Inr s"
      "content fs (filepath_Join [?d, checksumFileName]) = Some s"
      using assms(2) by (auto simp: baseline_def)
    obtain s' where "sj_marshal js (Some m) = Inr s'" "sj_unmarshal js s' = Inr (Some m)" using assms(3) by (auto simp: store_codec_def)
    then show thesis using that [of m s] m by simp
  qed
  have "integrity_step js sha Restart (v, fs, rs) = (NewVerifier (vf_cfg v) \<lparr>so_dataDir = ?d, so_checksums = Some m\<rparr>, fs, rs)"
    using m assms(1) by (simp add: NewStore_def os_ReadFile_nf store_dir_ok_def)
  then show thesis
    by (rule that) (use m assms(1) in \<open>auto simp: store_dir_ok_def baseline_def NewVerifier_def\<close>)
qed

fun violations :: "(string \<Rightarrow> string) \<Rightarrow> string \<Rightarrow> string \<Rightarrow> integrity_op list \<Rightarrow> IntegrityViolationReport list" where
  "violations sha p h [] = []"
| "violations sha p h (Restart # ops) = violations sha p h ops"
| "violations sha p h (Check now d # ops) = (if sha d = h then [] else [mismatch sha p h now d]) @ violations sha p h ops"

lemma checks_report:
  assumes "store_dir_ok v fs" "baseline js h v fs" "h \<noteq> ''''" "store_codec js"
  shows "snd (snd (fold (integrity_step js sha) ops (v, fs, rs))) = rs @ violations sha (ig_BinaryPath (vf_cfg v)) h ops"
  using assms(1,2)
proof (induction ops arbitrary: v fs rs)
  case (Cons op ops)
  show ?case
  proof (cases op)
    case (Check now d)
    obtain v' fs' where "integrity_step js sha (Check now d) (v, fs, rs) =
        (v', fs', rs @ (if sha d = h then [] else [mismatch sha (ig_BinaryPath (vf_cfg v)) h now d]))"
      "store_dir_ok v' fs'" "baseline js h v' fs'" "vf_cfg v' = vf_cfg v"
      using later_check [OF Cons.prems assms(3)] by metis
    then show ?thesis using Cons.IH [of v' fs'] Check by simp
  next
    case Restart
    obtain v' where "integrity_step js sha Restart (v, fs, rs) = (v', fs, rs)" "store_dir_ok v' fs" "baseline js h v' fs" "vf_cfg v' = vf_cfg v"
      using restart [OF Cons.prems assms(4)] by metis
    then show ?thesis using Cons.IH [of v' fs] Restart by simp
  qed
qed simp

section \<open>Properties of the verifier\<close>

text \<open>A concrete codec and checksum for the witness.\<close>

definition ex_pair :: "string \<times> string \<Rightarrow> string" where
  "ex_pair kv = EncodeToString (fst kv) @ '':'' @ EncodeToString (snd kv)"

definition ex_unpair :: "string \<Rightarrow> (string \<times> string) option" where
  "ex_unpair s = (case Split s (CHR '':'') of
       [a, b] \<Rightarrow> (case (DecodeString a, DecodeString b) of (Some k, Some v) \<Rightarrow> Some (k, v) | _ \<Rightarrow> None)
     | _ \<Rightarrow> None)"

definition ex_store_json :: store_json where
  "ex_store_json = \<lparr>sj_marshal = (\<lambda>m. case m of None \<Rightarrow> Inl '''' | Some m \<Rightarrow> Inr (Join (map ex_pair m) ''|'')),
     sj_unmarshal = (\<lambda>s. if s = '''' then Inr (Some []) else
       case those (map ex_unpair (Split s (CHR ''|''))) of None \<Rightarrow> Inl '''' | Some m \<Rightarrow> Inr (Some m))\<rparr>"

lemma ex_b64_plain: "CHR ''|'' \<notin> set (EncodeToString x)" "CHR '':'' \<notin> set (EncodeToString x)"
proof -
  have "list_all (\<lambda>i. b64_char i \<noteq> CHR ''|'' \<and> b64_char i \<noteq> CHR '':'') [0..<64]" by code_simp
  then have "b64_char i \<noteq> CHR ''|''" "b64_char i \<noteq> CHR '':''" if "i < 64" for i using that by (auto simp: list_all_iff)
  then show "CHR ''|'' \<notin> set (EncodeToString x)" "CHR '':'' \<notin> set (EncodeToString x)"
    by (induction x rule: EncodeToString.induct) (auto simp: b64_range dest: sym)
qed

lemma ex_unpair_pair: "ex_unpair (ex_pair kv) = Some kv"
  using ex_b64_plain
  by (cases kv) (simp add: ex_unpair_def ex_pair_def Split_append Split_single DecodeString_EncodeToString)

lemma those_map_ex_unpair: "those (map ex_unpair (map ex_pair m)) = Some m"
  by (induction m) (simp_all add: ex_unpair_pair)

lemma ex_store_codec: "store_codec ex_store_json"
proof -
  have "Split (Join (map ex_pair m) ''|'') (CHR ''|'') = map ex_pair m" "Join (map ex_pair m) ''|'' \<noteq> ''''" if "m \<noteq> []" for m
  proof -
    have "\<forall>x \<in> set (map ex_pair m). CHR ''|'' \<notin> set x" using ex_b64_plain by (auto simp: ex_pair_def)
    then show "Split (Join (map ex_pair m) ''|'') (CHR ''|'') = map ex_pair m" using Split_Join that by simp
    show "Join (map ex_pair m) ''|'' \<noteq> ''''" using that by (cases m; cases "tl m") (auto simp: ex_pair_def)
  qed
  then show ?thesis
    unfolding store_codec_def ex_store_json_def
    by (intro allI) (case_tac "m = []"; simp add: those_map_ex_unpair del: map_map)
qed

definition ex_sha :: "string \<Rightarrow> string" where
  "ex_sha d = CHR ''#'' # d"

definition ex_verifier :: Verifier where
  "ex_verifier = NewVerifier \<lparr>ig_Enabled = True, ig_BinaryPath = ''/b'', ig_HooksDir = '''', ig_VerifyInterval = Minute\<rparr>
     \<lparr>so_dataDir = ''/d'', so_checksums = Some []\<rparr>"

text \<open>C30: Tampering with the binary is reported: the first verification fixes the baseline, and from
  then on, across any number of replacements of the binary and restarts of the agent, exactly the
  verifications that read a binary with another checksum report a violation, with the checksum of
  the first binary as the expected one, on a disk that does not fail.\<close>

theorem tampering_reported:
  assumes "store_dir_ok v fs" and "store_codec js" and "so_checksums (vf_store v) = Some []" and "\<forall>d. sha d \<noteq> ''''"
  shows "snd (snd (fold (integrity_step js sha) (Check t0 binary # ops) (v, fs, []))) =
    violations sha (ig_BinaryPath (vf_cfg v)) (sha binary) ops"
proof -
  obtain v' fs' where s: "integrity_step js sha (Check t0 binary) (v, fs, []) = (v', fs', [])" "store_dir_ok v' fs'"
    "baseline js (sha binary) v' fs'" "vf_cfg v' = vf_cfg v"
    using first_check [OF assms(1-3)] assms(4) by metis
  then show ?thesis using checks_report [OF s(2,3) _ assms(2), of sha ops "[]"] assms(4) by simp
qed

theorem tampering_reported_witness:
  "snd (snd (fold (integrity_step ex_store_json ex_sha) [Check 1 ''good'', Restart, Check 2 ''evil'', Check 3 ''good'']
      (ex_verifier, \<lparr>fs_files = [], fs_dirs = [''/d''], fs_faults = [], fs_seen = []\<rparr>, []))) =
    [mismatch ex_sha ''/b'' ''#good'' 2 ''evil'']"
proof -
  let ?fs = "\<lparr>fs_files = [], fs_dirs = [''/d''], fs_faults = [], fs_seen = []\<rparr>"
  have "store_dir_ok ex_verifier ?fs" "so_checksums (vf_store ex_verifier) = Some []" by code_simp+
  moreover have "\<forall>d. ex_sha d \<noteq> ''''" by (simp add: ex_sha_def)
  ultimately show ?thesis
    using tampering_reported [OF _ ex_store_codec, of ex_verifier ?fs ex_sha 1 "''good''" "[Restart, Check 2 ''evil'', Check 3 ''good'']"]
    by (simp add: ex_verifier_def NewVerifier_def ex_sha_def)
qed

text \<open>The comment of \<open>Run\<close> speaks of a verification at start-up; there is none before the first tick.\<close>

lemma Run_no_startup_check: "Integrity_Run js sha [] st = (Ret (), st)"
  by (simp add: Integrity_Run_def)

end
