(* ===== verification/Actions.thy ===== *)
theory Actions
  imports Integrity EventVerifier GoNet
begin

text \<open>
  Remote actions, \<open>internal/actions\<close>: the configuration (\<open>config.go\<close>), the discovery of hook scripts
  (\<open>discovery.go\<close>), the built-in actions (\<open>builtins.go\<close>), the executor (\<open>executor.go\<close>) and the handler
  of action requests (\<open>handler.go\<close>).

  One action is a function of its surroundings: the clock, the contexts, the environment, the
  process that is run.  The executor as a whole is a step relation, because requests, the
  goroutines of the running actions and the shutdown interleave between its critical sections.
\<close>

section \<open>Wire types\<close>

record TriggeredBy =
  tb_Type :: string
  tb_SessionID :: string
  tb_UserID :: string
  tb_Email :: string

record ActionRequest =
  aq_ExecutionID :: string
  aq_Action :: string
  aq_Parameters :: "(string, string) gomap"
  aq_Timeout :: string
  aq_Checksum :: string
  aq_TriggeredBy :: "TriggeredBy option"

record ExecutionAck =
  ak_ExecutionID :: string
  ak_Status :: string
  ak_Reason :: string

record ExecutionResult =
  xr_ExecutionID :: string
  xr_Status :: string
  xr_ExitCode :: int
  xr_Stdout :: string
  xr_Stderr :: string
  xr_Duration :: string
  xr_FinishedAt :: time
  xr_TriggeredBy :: "TriggeredBy option"

record ActionParam =
  ap_Name :: string
  ap_Type :: string
  ap_Required :: bool
  ap_Description :: string

record ActionInfo =
  ai_Name :: string
  ai_Description :: string
  ai_Parameters :: "ActionParam list"

record HookInfo =
  hk_Name :: string
  hk_Description :: string
  hk_Source :: string
  hk_Checksum :: string
  hk_Parameters :: "ActionParam list"
  hk_Timeout :: string
  hk_Sandbox :: string

section \<open>config.go\<close>

record ActionsConfig =
  ac_Enabled :: bool
  ac_HooksDir :: string
  ac_MaxConcurrent :: int
  ac_MaxActionTimeout :: duration
  ac_MaxOutputBytes :: int

definition ActionsConfig_ApplyDefaults :: "ActionsConfig \<Rightarrow> ActionsConfig" where
  "ActionsConfig_ApplyDefaults c =
     (let c = (if ac_MaxConcurrent c = 0 \<and> ac_MaxActionTimeout c = 0 \<and> ac_MaxOutputBytes c = 0 then c\<lparr>ac_Enabled := True\<rparr> else c);
          c = (if ac_MaxConcurrent c = 0 then c\<lparr>ac_MaxConcurrent := 5\<rparr> else c);
          c = (if ac_MaxActionTimeout c = 0 then c\<lparr>ac_MaxActionTimeout := 10 * Minute\<rparr> else c)
      in if ac_MaxOutputBytes c = 0 then c\<lparr>ac_MaxOutputBytes := 2 ^ 20\<rparr> else c)"

definition ActionsConfig_Validate :: "ActionsConfig \<Rightarrow> string option" where
  "ActionsConfig_Validate c =
     (if \<not> ac_Enabled c then None
      else if ac_MaxConcurrent c < 1 then Some ''actions: config: MaxConcurrent must be at least 1''
      else if ac_MaxActionTimeout c < 10 * Second then Some ''actions: config: MaxActionTimeout must be at least 10s''
      else if ac_MaxOutputBytes c < 1024 then Some ''actions: config: MaxOutputBytes must be at least 1024''
      else None)"

section \<open>discovery.go\<close>

record hookMetadata =
  hm_Description :: string
  hm_Parameters :: "ActionParam list"
  hm_Timeout :: string
  hm_Sandbox :: string

text \<open>One directory entry: its hook, if it is an executable file that can be hashed.\<close>

definition discover_entry ::
    "(string \<Rightarrow> string) \<Rightarrow> (string \<Rightarrow> string + hookMetadata) \<Rightarrow> string \<Rightarrow> string \<Rightarrow> FS \<Rightarrow> HookInfo option \<times> FS" where
  "discover_entry sha unmarshal hooksDir name fs =
     (let fullPath = filepath_Join [hooksDir, name] in
      if HasSuffix name ''.json'' then (None, fs)
      else case mget (fs_files fs) fullPath of
        None \<Rightarrow> (None, fs)
      | Some (_, mode) \<Rightarrow>
          if and mode 73 = 0 then (None, fs)
          else case HashFile sha fullPath fs of
            (Inl err, fs) \<Rightarrow> (None, fs)
          | (Inr checksum, fs) \<Rightarrow>
              let h = \<lparr>hk_Name = name, hk_Description = '''', hk_Source = ''local'', hk_Checksum = checksum, hk_Parameters = [],
                       hk_Timeout = '''', hk_Sandbox = ''''\<rparr>
              in case os_ReadFile (fullPath @ ''.json'') fs of
                (Inl err, fs) \<Rightarrow> (Some h, fs)
              | (Inr data, fs) \<Rightarrow>
                  (case unmarshal data of
                     Inl err \<Rightarrow> (Some h, fs)
                   | Inr m \<Rightarrow>
                       (Some (h\<lparr>hk_Description := hm_Description m, hk_Parameters := hm_Parameters m, hk_Timeout := hm_Timeout m,
                          hk_Sandbox := hm_Sandbox m\<rparr>), fs)))"

fun discover_entries ::
    "(string \<Rightarrow> string) \<Rightarrow> (string \<Rightarrow> string + hookMetadata) \<Rightarrow> string \<Rightarrow> string list \<Rightarrow> FS \<Rightarrow> HookInfo list \<times> FS" where
  "discover_entries sha unmarshal hooksDir [] fs = ([], fs)"
| "discover_entries sha unmarshal hooksDir (name # names) fs =
     (case discover_entry sha unmarshal hooksDir name fs of
        (None, fs) \<Rightarrow> discover_entries sha unmarshal hooksDir names fs
      | (Some h, fs) \<Rightarrow> (case discover_entries sha unmarshal hooksDir names fs of (hs, fs) \<Rightarrow> (h # hs, fs)))"

definition DiscoverHooks ::
    "(string \<Rightarrow> string) \<Rightarrow> (string \<Rightarrow> string + hookMetadata) \<Rightarrow> string \<Rightarrow> FS \<Rightarrow> (fs_error + HookInfo list) \<times> FS" where
  "DiscoverHooks sha unmarshal hooksDir fs =
     (if hooksDir = '''' then (Inr [], fs)
      else case os_ReadDir hooksDir fs of
        (Inl err, fs) \<Rightarrow> if os_IsNotExist err then (Inr [], fs) else (Inl err, fs)
      | (Inr entries, fs) \<Rightarrow>
          (case discover_entries sha unmarshal hooksDir entries fs of (hooks, fs) \<Rightarrow> (Inr (sort_key hk_Name hooks), fs)))"

section \<open>builtins.go\<close>

text \<open>An exit status of a process, or another error.\<close>

datatype run_error = ExitError int | RunError string

record run_out =
  ro_stdout :: string
  ro_stderr :: string
  ro_exitCode :: int
  ro_err :: "run_error option"

definition run_failed :: "int \<Rightarrow> run_error \<Rightarrow> run_out" where
  "run_failed code err = \<lparr>ro_stdout = '''', ro_stderr = '''', ro_exitCode = code, ro_err = Some err\<rparr>"

type_synonym BuiltinFunc = "duration \<Rightarrow> (string, string) gomap \<Rightarrow> run_out outcome"

record gatherInfoResult =
  gi_Hostname :: string
  gi_OS :: string
  gi_Arch :: string
  gi_GoVersion :: string
  gi_MeshIP :: string
  gi_PeerCount :: int
  gi_NodeID :: string

record node_info =
  ni_NodeID :: string
  ni_MeshIP :: string
  ni_PeerCount :: int

definition GatherInfo ::
    "string option \<Rightarrow> string \<Rightarrow> string \<Rightarrow> string \<Rightarrow> (gatherInfoResult \<Rightarrow> string + string) \<Rightarrow> node_info \<Rightarrow> BuiltinFunc" where
  "GatherInfo hostname goos goarch version marshal info timeout params =
     (let result = \<lparr>gi_Hostname = (case hostname of None \<Rightarrow> ''unknown'' | Some h \<Rightarrow> h), gi_OS = goos, gi_Arch = goarch,
            gi_GoVersion = version, gi_MeshIP = ni_MeshIP info, gi_PeerCount = ni_PeerCount info, gi_NodeID = ni_NodeID info\<rparr>
      in case marshal result of
        Inl err \<Rightarrow> Ret (run_failed 1 (RunError (''marshal info: '' @ err)))
      | Inr data \<Rightarrow> Ret \<lparr>ro_stdout = data, ro_stderr = '''', ro_exitCode = 0, ro_err = None\<rparr>)"

text \<open>The ping process: its output, and on an error the exit code, if the process was started.\<close>

datatype ping_result = PingOK string | PingExit string int | PingNotStarted string

definition Ping :: "(string \<Rightarrow> ip option) \<Rightarrow> (string \<Rightarrow> ping_result) \<Rightarrow> BuiltinFunc" where
  "Ping ip6 ping timeout params =
     (case mget params ''target'' of
        None \<Rightarrow> Ret (run_failed 1 (RunError ''missing required parameter: target''))
      | Some target \<Rightarrow>
          if target = '''' then Ret (run_failed 1 (RunError ''missing required parameter: target''))
          else if ParseIP ip6 target = None then
            Ret \<lparr>ro_stdout = '''', ro_stderr = ''invalid target IP: '' @ target, ro_exitCode = 1, ro_err = None\<rparr>
          else Ret (case ping target of
              PingOK out \<Rightarrow> \<lparr>ro_stdout = out, ro_stderr = '''', ro_exitCode = 0, ro_err = None\<rparr>
            | PingExit out code \<Rightarrow> \<lparr>ro_stdout = '''', ro_stderr = out, ro_exitCode = code, ro_err = None\<rparr>
            | PingNotStarted err \<Rightarrow> \<lparr>ro_stdout = '''', ro_stderr = err, ro_exitCode = 1, ro_err = None\<rparr>))"

section \<open>executor.go: output\<close>

record limitedWriter =
  lw_buf :: string
  lw_max :: int

definition newLimitedWriter :: "int \<Rightarrow> limitedWriter" where
  "newLimitedWriter maxBytes = \<lparr>lw_buf = '''', lw_max = maxBytes\<rparr>"

definition limitedWriter_Write :: "string \<Rightarrow> limitedWriter \<Rightarrow> limitedWriter" where
  "limitedWriter_Write p w =
     (let remaining = lw_max w - int (length (lw_buf w)) in
      if 0 < remaining then
        let n = int (length p); n = (if remaining < n then remaining else n)
        in w\<lparr>lw_buf := lw_buf w @ take (nat n) p\<rparr>
      else w)"

definition truncated :: "limitedWriter \<Rightarrow> bool" where
  "truncated w \<longleftrightarrow> lw_max w \<le> int (length (lw_buf w))"

abbreviation truncationSuffix :: string where "truncationSuffix \<equiv> CHR 0x0A # ''...[truncated]''"

definition collectOutput :: "limitedWriter \<Rightarrow> string" where
  "collectOutput w = (if truncated w then lw_buf w @ truncationSuffix else lw_buf w)"

section \<open>executor.go: one action\<close>

text \<open>Parameter names are taken as ASCII: every other byte becomes an underscore.\<close>

definition upper :: "char \<Rightarrow> char" where
  "upper c = (let n = of_char c :: nat in if 97 \<le> n \<and> n \<le> 122 then char_of (n - 32) else c)"

definition sanitizeParamName :: "string \<Rightarrow> string" where
  "sanitizeParamName name =
     map (\<lambda>c. let n = of_char c :: nat in
        if 65 \<le> n \<and> n \<le> 90 \<or> 97 \<le> n \<and> n \<le> 122 \<or> 48 \<le> n \<and> n \<le> 57 \<or> c = CHR ''_'' then upper c else CHR ''_'') name"

definition buildHookEnv :: "(string \<Rightarrow> string) \<Rightarrow> (string list \<Rightarrow> string list) \<Rightarrow> string \<Rightarrow> ActionRequest \<Rightarrow> string list" where
  "buildHookEnv getenv ord nodeID req =
     [''PATH='' @ getenv ''PATH'', ''HOME='' @ getenv ''HOME'', ''PLEXD_NODE_ID='' @ nodeID,
      ''PLEXD_EXECUTION_ID='' @ aq_ExecutionID req] @
     List.map_filter (\<lambda>name. map_option (\<lambda>value. ''PLEXD_PARAM_'' @ sanitizeParamName name @ ''='' @ value) (mget (aq_Parameters req) name))
       (ord (mkeys (aq_Parameters req)))"

fun contains_dots :: "string \<Rightarrow> bool" where
  "contains_dots (a # b # s) \<longleftrightarrow> a = CHR ''.'' \<and> b = CHR ''.'' \<or> contains_dots (b # s)"
| "contains_dots _ \<longleftrightarrow> False"

definition validateHookName :: "string \<Rightarrow> string option" where
  "validateHookName name =
     (if name = '''' \<or> CHR ''/'' \<in> set name \<or> CHR 0x5C \<in> set name \<or> contains_dots name then Some (''invalid hook name: '' @ name)
      else None)"

text \<open>What one action sees: \<open>time.ParseDuration\<close> and \<open>Duration.String\<close>, the clock at its start and at
  its end, whether its deadline passed and whether it was cancelled, the environment, SHA-256, what
  happens to the file system between the check of a hook and its start, and the process: the chunks
  it writes and how it ends.\<close>

record action_env =
  ae_ParseDuration :: "string \<Rightarrow> duration option"
  ae_String :: "duration \<Rightarrow> string"
  ae_start :: time
  ae_end :: time
  ae_finished :: time
  ae_timedOut :: bool
  ae_cancelled :: bool
  ae_getenv :: "string \<Rightarrow> string"
  ae_ord :: "string list \<Rightarrow> string list"
  ae_sha :: "string \<Rightarrow> string"
  ae_between :: "FS \<Rightarrow> FS"
  ae_process :: "string \<Rightarrow> string list \<Rightarrow> duration \<Rightarrow> FS \<Rightarrow> string list \<times> string list \<times> run_error option"

record builtinEntry =
  be_fn :: BuiltinFunc
  be_description :: string
  be_params :: "ActionParam list"

record Executor =
  xe_cfg :: ActionsConfig
  xe_active :: "(string, unit) gomap"
  xe_builtins :: "(string, builtinEntry) gomap"
  xe_hooks :: "HookInfo list"
  xe_shuttingDown :: bool

definition NewExecutor :: "ActionsConfig \<Rightarrow> Executor" where
  "NewExecutor cfg = \<lparr>xe_cfg = cfg, xe_active = [], xe_builtins = [], xe_hooks = [], xe_shuttingDown = False\<rparr>"

definition RegisterBuiltin :: "string \<Rightarrow> string \<Rightarrow> ActionParam list \<Rightarrow> BuiltinFunc \<Rightarrow> Executor \<Rightarrow> Executor" where
  "RegisterBuiltin name description params fn e =
     e\<lparr>xe_builtins := mput name \<lparr>be_fn = fn, be_description = description, be_params = params\<rparr> (xe_builtins e)\<rparr>"

definition SetHooks :: "HookInfo list \<Rightarrow> Executor \<Rightarrow> Executor" where
  "SetHooks hooks e = e\<lparr>xe_hooks := hooks\<rparr>"

definition Capabilities :: "(string list \<Rightarrow> string list) \<Rightarrow> Executor \<Rightarrow> ActionInfo list \<times> HookInfo list" where
  "Capabilities ord e =
     (List.map_filter (\<lambda>name. map_option (\<lambda>entry. \<lparr>ai_Name = name, ai_Description = be_description entry, ai_Parameters = be_params entry\<rparr>)
        (mget (xe_builtins e) name)) (ord (mkeys (xe_builtins e))), xe_hooks e)"

definition Executor_ActiveCount :: "Executor \<Rightarrow> nat" where
  "Executor_ActiveCount e = length (xe_active e)"

text \<open>The file system, the violations reported by the verifier, and the files that were executed.\<close>

type_synonym hook_world = "FS \<times> IntegrityViolationReport list \<times> string list"

definition runHook :: "action_env \<Rightarrow> duration \<Rightarrow> string \<Rightarrow> ActionRequest \<Rightarrow> Executor \<Rightarrow> hook_world \<Rightarrow> run_out \<times> hook_world" where
  "runHook v timeout nodeID req e w =
     (case w of (fs, reports, execs) \<Rightarrow>
      case validateHookName (aq_Action req) of
        Some err \<Rightarrow> (run_failed 1 (RunError err), w)
      | None \<Rightarrow>
          let hookPath = filepath_Join [ac_HooksDir (xe_cfg e), aq_Action req]
          in case os_Open hookPath fs of
            (Some (NotExist err), fs) \<Rightarrow> (run_failed 1 (RunError (''hook not found: '' @ aq_Action req)), fs, reports, execs)
          | (_, fs) \<Rightarrow>
              (case VerifyHook (ae_sha v) (ae_start v) hookPath (aq_Checksum req) (fs, reports) of
                 (Inl err, fs, reports) \<Rightarrow> (run_failed 1 (RunError (''integrity verification error: '' @ err)), fs, reports, execs)
               | (Inr False, fs, reports) \<Rightarrow>
                   (run_failed 1 (RunError (''integrity check failed for hook: '' @ aq_Action req)), fs, reports, execs)
               | (Inr True, fs, reports) \<Rightarrow>
                   let fs = ae_between v fs;
                       (outs, errs, runErr) = ae_process v hookPath (buildHookEnv (ae_getenv v) (ae_ord v) nodeID req) timeout fs;
                       stdout = collectOutput (fold limitedWriter_Write outs (newLimitedWriter (ac_MaxOutputBytes (xe_cfg e))));
                       stderr = collectOutput (fold limitedWriter_Write errs (newLimitedWriter (ac_MaxOutputBytes (xe_cfg e))))
                   in (\<lparr>ro_stdout = stdout, ro_stderr = stderr,
                        ro_exitCode = (case runErr of None \<Rightarrow> 0 | Some (ExitError c) \<Rightarrow> c | Some (RunError _) \<Rightarrow> 1), ro_err = runErr\<rparr>,
                       fs, reports, execs @ [hookPath])))"

definition runBuiltin :: "duration \<Rightarrow> string \<Rightarrow> (string, string) gomap \<Rightarrow> Executor \<Rightarrow> run_out outcome" where
  "runBuiltin timeout name params e =
     (case mget (xe_builtins e) name of
        None \<Rightarrow> Ret (run_failed 1 (RunError (''builtin not found: '' @ name)))
      | Some entry \<Rightarrow> be_fn entry timeout params)"

definition determineStatus :: "run_error option \<Rightarrow> int \<Rightarrow> bool \<Rightarrow> bool \<Rightarrow> string" where
  "determineStatus runErr exitCode timedOut cancelled =
     (case runErr of
        Some err \<Rightarrow>
          if timedOut then ''timeout''
          else if cancelled then ''cancelled''
          else (case err of ExitError _ \<Rightarrow> ''failed'' | RunError _ \<Rightarrow> ''error'')
      | None \<Rightarrow> if exitCode \<noteq> 0 then ''failed'' else ''success'')"

definition action_timeout :: "(string \<Rightarrow> duration option) \<Rightarrow> ActionsConfig \<Rightarrow> ActionRequest \<Rightarrow> duration" where
  "action_timeout ParseDuration cfg req =
     (if aq_Timeout req = '''' then ac_MaxActionTimeout cfg
      else case ParseDuration (aq_Timeout req) of None \<Rightarrow> ac_MaxActionTimeout cfg | Some parsed \<Rightarrow> min parsed (ac_MaxActionTimeout cfg))"

text \<open>\<open>runAction\<close> up to the clean-up: the result that is reported, a panic of the action included.\<close>

definition runAction :: "action_env \<Rightarrow> string \<Rightarrow> ActionRequest \<Rightarrow> Executor \<Rightarrow> hook_world \<Rightarrow> ExecutionResult \<times> hook_world" where
  "runAction v nodeID req e w =
     (let timeout = action_timeout (ae_ParseDuration v) (xe_cfg e) req;
          (out, w) =
            (if mhas (xe_builtins e) (aq_Action req) then (runBuiltin timeout (aq_Action req) (aq_Parameters req) e, w)
             else case runHook v timeout nodeID req e w of (out, w) \<Rightarrow> (Ret out, w))
      in case out of
        Panic p \<Rightarrow>
          (\<lparr>xr_ExecutionID = aq_ExecutionID req, xr_Status = ''error'', xr_ExitCode = 0, xr_Stdout = '''', xr_Stderr = ''panic: '' @ p,
            xr_Duration = '''', xr_FinishedAt = ae_finished v, xr_TriggeredBy = aq_TriggeredBy req\<rparr>, w)
      | Ret out \<Rightarrow>
          (\<lparr>xr_ExecutionID = aq_ExecutionID req,
            xr_Status = determineStatus (ro_err out) (ro_exitCode out) (ae_timedOut v) (ae_cancelled v),
            xr_ExitCode = ro_exitCode out, xr_Stdout = ro_stdout out, xr_Stderr = ro_stderr out,
            xr_Duration = ae_String v (ae_end v - ae_start v), xr_FinishedAt = ae_finished v, xr_TriggeredBy = aq_TriggeredBy req\<rparr>, w))"

section \<open>executor.go: admission\<close>

text \<open>The critical section of \<open>Execute\<close>: the reason to reject the request, or its registration.\<close>

definition Execute_admit :: "ActionRequest \<Rightarrow> Executor \<Rightarrow> string option \<times> Executor" where
  "Execute_admit req e =
     (if xe_shuttingDown e then (Some ''shutting_down'', e)
      else if mhas (xe_active e) (aq_ExecutionID req) then (Some ''duplicate_execution_id'', e)
      else if ac_MaxConcurrent (xe_cfg e) \<le> int (length (xe_active e)) then (Some ''max_concurrent_reached'', e)
      else
        let isBuiltin = mhas (xe_builtins e) (aq_Action req);
            isHook = (\<not> isBuiltin \<and> list_ex (\<lambda>h. hk_Name h = aq_Action req) (xe_hooks e))
        in if \<not> isBuiltin \<and> \<not> isHook then (Some ''unknown_action'', e)
           else (None, e\<lparr>xe_active := mput (aq_ExecutionID req) () (xe_active e)\<rparr>))"

definition accepted_ack :: "ActionRequest \<Rightarrow> ExecutionAck" where
  "accepted_ack req = \<lparr>ak_ExecutionID = aq_ExecutionID req, ak_Status = ''accepted'', ak_Reason = ''''\<rparr>"

definition reject :: "ActionRequest \<Rightarrow> string \<Rightarrow> ExecutionAck" where
  "reject req reason = \<lparr>ak_ExecutionID = aq_ExecutionID req, ak_Status = ''rejected'', ak_Reason = reason\<rparr>"

text \<open>The deferred clean-up of \<open>runAction\<close>.\<close>

definition action_cleanup :: "ActionRequest \<Rightarrow> Executor \<Rightarrow> Executor" where
  "action_cleanup req e = e\<lparr>xe_active := mdel (aq_ExecutionID req) (xe_active e)\<rparr>"

section \<open>handler.go\<close>

text \<open>What the handler does with a request: it fails, it acknowledges a rejection, or it calls
  \<open>Execute\<close>.\<close>

datatype handled = HandlerError string | HandlerReject ExecutionAck | HandlerExecute ActionRequest

definition HandleActionRequest :: "(string \<Rightarrow> string + ActionRequest) \<Rightarrow> Executor \<Rightarrow> SignedEnvelope \<Rightarrow> handled" where
  "HandleActionRequest unmarshal executor envelope =
     (case unmarshal (env_Payload envelope) of
        Inl err \<Rightarrow> HandlerError (''actions: action_request: parse payload: '' @ err)
      | Inr req \<Rightarrow>
          if aq_ExecutionID req = '''' then HandlerError ''actions: action_request: missing execution_id''
          else if \<not> ac_Enabled (xe_cfg executor) then HandlerReject (reject req ''actions_disabled'')
          else HandlerExecute req)"

section \<open>executor.go: concurrency\<close>

datatype exec_msg = AckMsg ExecutionAck | ResultMsg ExecutionResult

datatype shutdown_loc = NotCalled | Draining | Drained

text \<open>The executor; the requests between their admission and the start of their goroutine, running,
  and between their report and their clean-up; the executions whose context is cancelled; the
  messages to the control plane; and where \<open>Shutdown\<close> stands.  The wait group counts the goroutines.\<close>

record exec_world =
  xw_e :: Executor
  xw_admitted :: "ActionRequest list"
  xw_running :: "ActionRequest list"
  xw_ending :: "ActionRequest list"
  xw_cancelled :: "string list"
  xw_log :: "exec_msg list"
  xw_shutdown :: shutdown_loc

definition exec_init :: "Executor \<Rightarrow> exec_world" where
  "exec_init e = \<lparr>xw_e = e, xw_admitted = [], xw_running = [], xw_ending = [], xw_cancelled = [], xw_log = [], xw_shutdown = NotCalled\<rparr>"

inductive exec_step :: "exec_world \<Rightarrow> exec_world \<Rightarrow> bool" where
  request_rejected: "Execute_admit req (xw_e w) = (Some reason, e) \<Longrightarrow>
     exec_step w (w\<lparr>xw_e := e, xw_log := xw_log w @ [AckMsg (reject req reason)]\<rparr>)"
| request_admitted: "Execute_admit req (xw_e w) = (None, e) \<Longrightarrow>
     exec_step w (w\<lparr>xw_e := e, xw_admitted := req # xw_admitted w\<rparr>)"
| spawn: "req \<in> set (xw_admitted w) \<Longrightarrow>
     exec_step w (w\<lparr>xw_admitted := remove1 req (xw_admitted w), xw_running := req # xw_running w,
       xw_log := xw_log w @ [AckMsg (accepted_ack req)]\<rparr>)"
| report: "req \<in> set (xw_running w) \<Longrightarrow> result = fst (runAction v nodeID req (xw_e w) hw) \<Longrightarrow>
     exec_step w (w\<lparr>xw_running := remove1 req (xw_running w), xw_ending := req # xw_ending w,
       xw_log := xw_log w @ [ResultMsg result]\<rparr>)"
| cleanup: "req \<in> set (xw_ending w) \<Longrightarrow>
     exec_step w (w\<lparr>xw_e := action_cleanup req (xw_e w), xw_ending := remove1 req (xw_ending w)\<rparr>)"
| shutdown: "xw_shutdown w = NotCalled \<Longrightarrow>
     exec_step w (w\<lparr>xw_e := (xw_e w)\<lparr>xe_shuttingDown := True\<rparr>, xw_cancelled := xw_cancelled w @ mkeys (xe_active (xw_e w)),
       xw_shutdown := Draining\<rparr>)"
| drained: "xw_shutdown w = Draining \<Longrightarrow> xw_running w = [] \<Longrightarrow> xw_ending w = [] \<Longrightarrow> exec_step w (w\<lparr>xw_shutdown := Drained\<rparr>)"

inductive exec_reach :: "exec_world \<Rightarrow> exec_world \<Rightarrow> bool" where
  exec_here: "exec_reach w w"
| exec_more: "exec_reach w w' \<Longrightarrow> exec_step w' w'' \<Longrightarrow> exec_reach w w''"

section \<open>Every accepted execution is accounted for\<close>

abbreviation ids :: "ActionRequest list \<Rightarrow> string list" where "ids \<equiv> map aq_ExecutionID"

fun accepted_of :: "exec_msg \<Rightarrow> string option" where
  "accepted_of (AckMsg a) = (if ak_Status a = ''accepted'' then Some (ak_ExecutionID a) else None)"
| "accepted_of (ResultMsg r) = None"

fun result_of :: "exec_msg \<Rightarrow> string option" where
  "result_of (AckMsg a) = None"
| "result_of (ResultMsg r) = Some (xr_ExecutionID r)"

definition accepted_ids :: "exec_msg list \<Rightarrow> string list" where
  "accepted_ids = List.map_filter accepted_of"

definition result_ids :: "exec_msg list \<Rightarrow> string list" where
  "result_ids = List.map_filter result_of"

definition exec_inv :: "exec_world \<Rightarrow> bool" where
  "exec_inv w \<longleftrightarrow> mwf (xe_active (xw_e w)) \<and>
     mset (mkeys (xe_active (xw_e w))) = mset (ids (xw_admitted w)) + mset (ids (xw_running w)) + mset (ids (xw_ending w)) \<and>
     int (length (xe_active (xw_e w))) \<le> max 0 (ac_MaxConcurrent (xe_cfg (xw_e w))) \<and>
     mset (accepted_ids (xw_log w)) = mset (result_ids (xw_log w)) + mset (ids (xw_running w)) \<and>
     (xw_shutdown w \<noteq> NotCalled \<longrightarrow> xe_shuttingDown (xw_e w))"

lemma log_ids_append [simp]:
  "accepted_ids (l @ [m]) = accepted_ids l @ (case accepted_of m of None \<Rightarrow> [] | Some i \<Rightarrow> [i])"
  "result_ids (l @ [m]) = result_ids l @ (case result_of m of None \<Rightarrow> [] | Some i \<Rightarrow> [i])"
  by (simp_all add: accepted_ids_def result_ids_def List.map_filter_def split: option.splits)

lemma ids_remove1: "req \<in> set l \<Longrightarrow> mset (ids l) = add_mset (aq_ExecutionID req) (mset (ids (remove1 req l)))"
  by (induction l) auto

lemma runAction_id: "xr_ExecutionID (fst (runAction v nodeID req e hw)) = aq_ExecutionID req"
  by (simp add: runAction_def Let_def split: prod.splits outcome.splits)

lemma Execute_admit_None:
  assumes "Execute_admit req e = (None, e')"
  shows "e' = e\<lparr>xe_active := mput (aq_ExecutionID req) () (xe_active e)\<rparr> \<and> mget (xe_active e) (aq_ExecutionID req) = None \<and>
    int (length (xe_active e)) < ac_MaxConcurrent (xe_cfg e) \<and> \<not> xe_shuttingDown e"
  using assms by (cases "mget (xe_active e) (aq_ExecutionID req)") (auto simp: Execute_admit_def Let_def split: if_splits)

lemma Execute_admit_Some: "Execute_admit req e = (Some reason, e') \<Longrightarrow> e' = e"
  by (auto simp: Execute_admit_def Let_def split: if_splits)

lemma mset_keys_put: "mget m k = None \<Longrightarrow> image_mset fst (mset (mput k v m)) = add_mset k (image_mset fst (mset m))"
  by (induction m) auto

lemma mset_keys_del: "mwf m \<Longrightarrow> image_mset fst (mset (mdel k m)) = image_mset fst (mset m) - {#k#}"
proof (induction m)
  case (Cons x m)
  have "k \<notin># image_mset fst (mset m) \<Longrightarrow> mdel k m = m" by (rule mdel_absent) (auto simp: map_of_eq_None_iff)
  then show ?case using Cons by (cases x) (auto simp: AList.delete_eq)
qed (simp add: AList.delete_eq)

lemma exec_step_inv:
  assumes "exec_step w w'" "exec_inv w"
  shows "exec_inv w'"
  using assms
proof (cases rule: exec_step.cases)
  case (request_rejected req reason e)
  then show ?thesis using assms(2) Execute_admit_Some by (fastforce simp: exec_inv_def reject_def)
next
  case (request_admitted req e)
  note a = Execute_admit_None [OF request_admitted(2)]
  show ?thesis
    using assms(2) request_admitted(1) a
    by (auto simp: exec_inv_def mset_keys_put mlen_put gm.wf_put)
next
  case (spawn req)
  then show ?thesis using assms(2) ids_remove1 [OF spawn(2)] by (simp add: exec_inv_def accepted_ack_def)
next
  case (report req result v nodeID hw)
  then show ?thesis using assms(2) ids_remove1 [OF report(2)] runAction_id by (simp add: exec_inv_def)
next
  case (cleanup req)
  then show ?thesis
    using assms(2) ids_remove1 [OF cleanup(2)] mlen_del_le [of "aq_ExecutionID req" "xe_active (xw_e w)"]
    by (auto simp: exec_inv_def action_cleanup_def mset_keys_del gm.wf_del)
next
  case shutdown
  then show ?thesis using assms(2) by (auto simp: exec_inv_def)
next
  case drained
  then show ?thesis using assms(2) by (auto simp: exec_inv_def)
qed

lemma exec_reach_inv: "exec_reach w w' \<Longrightarrow> exec_inv w \<Longrightarrow> exec_inv w'"
  by (induction rule: exec_reach.induct) (auto intro: exec_step_inv)

lemma exec_step_cfg: "exec_step w w' \<Longrightarrow> xe_cfg (xw_e w') = xe_cfg (xw_e w)"
  by (induction rule: exec_step.induct) (auto simp: action_cleanup_def dest: Execute_admit_Some Execute_admit_None)

lemma exec_reach_cfg: "exec_reach w w' \<Longrightarrow> xe_cfg (xw_e w') = xe_cfg (xw_e w)"
  by (induction rule: exec_reach.induct) (auto simp: exec_step_cfg)

section \<open>Output\<close>

lemma limitedWriter_Write_take:
  assumes "lw_buf w = take (nat (lw_max w)) s" "0 \<le> lw_max w"
  shows "lw_buf (limitedWriter_Write p w) = take (nat (lw_max w)) (s @ p)" "lw_max (limitedWriter_Write p w) = lw_max w"
  using assms by (auto simp: limitedWriter_Write_def Let_def nat_diff_distrib min_def)

lemma fold_limitedWriter_Write:
  assumes "lw_buf w = take (nat (lw_max w)) s" "0 \<le> lw_max w"
  shows "lw_buf (fold limitedWriter_Write chunks w) = take (nat (lw_max w)) (s @ concat chunks)"
    "lw_max (fold limitedWriter_Write chunks w) = lw_max w"
  using assms
proof (induction chunks arbitrary: w s)
  case (Cons c chunks)
  {
    case 1
    then show ?case using Cons.IH(1) [of "limitedWriter_Write c w" "s @ c"] limitedWriter_Write_take [of w s c] by simp
  next
    case 2
    then show ?case using Cons.IH(2) [of "limitedWriter_Write c w" "s @ c"] limitedWriter_Write_take [of w s c] by simp
  }
qed simp_all

section \<open>Hooks\<close>

lemma validateHookName_plain:
  assumes "validateHookName n = None" "n \<noteq> ''.''"
  shows "plain_name n"
proof -
  have "n \<noteq> ''..''" using assms(1) by (auto simp: validateHookName_def)
  then show ?thesis using assms by (auto simp: validateHookName_def plain_name_def split: if_splits)
qed

lemma runHook_executes:
  assumes "runHook v timeout nodeID req e (fs, reports, execs) = (out, fs', reports', execs')" "execs' \<noteq> execs"
  shows "validateHookName (aq_Action req) = None \<and> execs' = execs @ [filepath_Join [ac_HooksDir (xe_cfg e), aq_Action req]] \<and>
    aq_Checksum req \<noteq> '''' \<and>
    (\<exists>d. content fs (filepath_Join [ac_HooksDir (xe_cfg e), aq_Action req]) = Some d \<and> ae_sha v d = aq_Checksum req)"
proof -
  let ?p = "filepath_Join [ac_HooksDir (xe_cfg e), aq_Action req]"
  have name: "validateHookName (aq_Action req) = None" using assms by (auto simp: runHook_def split: option.splits)
  obtain oe fs1 where st: "os_Open ?p fs = (oe, fs1)" by (cases "os_Open ?p fs")
  have same: "content fs1 ?p = content fs ?p"
    using st by (auto simp: os_Open_def content_def dest!: syscall_content split: prod.splits fault.splits)
  obtain r fs2 rs2 where vh: "VerifyHook (ae_sha v) (ae_start v) ?p (aq_Checksum req) (fs1, reports) = (r, fs2, rs2)"
    by (cases "VerifyHook (ae_sha v) (ae_start v) ?p (aq_Checksum req) (fs1, reports)")
  have "r = Inr True \<and> execs' = execs @ [?p]"
    using assms name st vh
    by (auto simp: runHook_def Let_def split: option.splits fs_error.splits sum.splits bool.splits prod.splits)
  then show ?thesis using VerifyHook_true [of "ae_sha v" "ae_start v" ?p "aq_Checksum req" "(fs1, reports)" "(fs2, rs2)"] vh name same by auto
qed

section \<open>Properties of the executor\<close>

text \<open>A concrete executor with one hook.\<close>

definition ex_action :: ActionRequest where
  "ex_action = \<lparr>aq_ExecutionID = ''e1'', aq_Action = ''x'', aq_Parameters = [(''a-b'', ''1'')], aq_Timeout = '''', aq_Checksum = ''#!'',
     aq_TriggeredBy = None\<rparr>"

definition ex_executor :: Executor where
  "ex_executor = SetHooks [\<lparr>hk_Name = ''x'', hk_Description = '''', hk_Source = ''local'', hk_Checksum = ''#!'', hk_Parameters = [],
       hk_Timeout = '''', hk_Sandbox = ''''\<rparr>]
     (NewExecutor \<lparr>ac_Enabled = True, ac_HooksDir = ''/h'', ac_MaxConcurrent = 1, ac_MaxActionTimeout = Minute, ac_MaxOutputBytes = 1024\<rparr>)"

definition ex_action_env :: action_env where
  "ex_action_env = \<lparr>ae_ParseDuration = (\<lambda>_. None), ae_String = (\<lambda>_. ''0s''), ae_start = 0, ae_end = 0, ae_finished = 0, ae_timedOut = False,
     ae_cancelled = False, ae_getenv = (\<lambda>_. ''''), ae_ord = id, ae_sha = id, ae_between = id, ae_process = (\<lambda>_ _ _ _. ([''ok''], [], None))\<rparr>"

definition ex_hook_fs :: FS where
  "ex_hook_fs = \<lparr>fs_files = [(''/h/x'', ''#!'', 493)], fs_dirs = [''/h''], fs_faults = [], fs_seen = []\<rparr>"

abbreviation ex_admitted :: exec_world where
  "ex_admitted \<equiv> (exec_init ex_executor)\<lparr>xw_e := snd (Execute_admit ex_action ex_executor), xw_admitted := [ex_action]\<rparr>"

lemma ex_admitted_reach: "exec_reach (exec_init ex_executor) ex_admitted"
proof -
  have "Execute_admit ex_action ex_executor = (None, snd (Execute_admit ex_action ex_executor))" by (intro prod_eqI) (simp, code_simp, simp)
  then have "exec_step (exec_init ex_executor) ex_admitted"
    using request_admitted [of ex_action "exec_init ex_executor"] by (simp add: exec_init_def)
  then show ?thesis using exec_here exec_more by blast
qed

lemma ex_started: "\<exists>w. exec_reach (exec_init ex_executor) w \<and> xw_running w = [ex_action]"
  using exec_more [OF ex_admitted_reach spawn [of ex_action]] by (intro exI conjI) (auto simp: exec_init_def)

text \<open>\<open>Shutdown\<close> promises to wait for the actions in flight.  It waits for the goroutines, and a request
  that has been admitted starts its goroutine only after the critical section: \<open>Shutdown\<close> can return
  in between, and the action runs afterwards.\<close>

lemma Shutdown_returns_early:
  "\<exists>w. exec_reach (exec_init ex_executor) w \<and> xw_shutdown w = Drained \<and> xw_running w = [ex_action]"
proof -
  let ?w1 = "ex_admitted\<lparr>xw_e := (xw_e ex_admitted)\<lparr>xe_shuttingDown := True\<rparr>,
    xw_cancelled := xw_cancelled ex_admitted @ mkeys (xe_active (xw_e ex_admitted)), xw_shutdown := Draining\<rparr>"
  let ?w2 = "?w1\<lparr>xw_shutdown := Drained\<rparr>"
  have "exec_step ex_admitted ?w1" by (rule shutdown) (simp add: exec_init_def)
  moreover have "exec_step ?w1 ?w2" by (rule drained) (simp_all add: exec_init_def)
  ultimately have "exec_reach (exec_init ex_executor) ?w2" using ex_admitted_reach by (meson exec_more)
  from exec_more [OF this spawn [of ex_action]] show ?thesis by (intro exI conjI) (auto simp: exec_init_def)
qed



text \<open>C32: A hook is executed only after its contents were read and had the checksum of the request,
  which must not be empty, and only from the hooks directory itself: no action name leads out of it.\<close>

theorem hooks_run_only_verified:
  assumes "runHook v timeout nodeID req e (fs, reports, execs) = (out, fs', reports', execs')" and "execs' \<noteq> execs"
    and "HasPrefix (ac_HooksDir (xe_cfg e)) ''/''" and "content fs (filepath_Join [ac_HooksDir (xe_cfg e), ''.'']) = None"
  shows "\<exists>path d. execs' = execs @ [path] \<and> filepath_Dir path = Clean (ac_HooksDir (xe_cfg e)) \<and> filepath_Base path = aq_Action req \<and>
    content fs path = Some d \<and> ae_sha v d = aq_Checksum req \<and> aq_Checksum req \<noteq> ''''"
proof -
  note r = runHook_executes [OF assms(1,2)]
  have "aq_Action req \<noteq> ''.''" using r assms(4) by auto
  then have "plain_name (aq_Action req)" using validateHookName_plain r by blast
  then show ?thesis using Dir_Base_entry [OF assms(3)] r by blast
qed

theorem hooks_run_only_verified_witness:
  "snd (snd (snd (runHook ex_action_env 0 ''n'' ex_action ex_executor (ex_hook_fs, [], [])))) = [''/h/x''] \<and>
   (\<exists>path d. [''/h/x''] = [] @ [path] \<and> filepath_Dir path = Clean ''/h'' \<and> filepath_Base path = ''x'' \<and>
      content ex_hook_fs path = Some d \<and> ae_sha ex_action_env d = ''#!'' \<and> ''#!'' \<noteq> '''')"
proof -
  let ?r = "runHook ex_action_env 0 ''n'' ex_action ex_executor (ex_hook_fs, [], [])"
  obtain out fs' rs' execs' where r: "?r = (out, fs', rs', execs')" by (cases ?r)
  have x: "snd (snd (snd ?r)) = [''/h/x'']" by code_simp
  then have e: "execs' = [''/h/x'']" by (simp only: r snd_conv)
  have h: "HasPrefix (ac_HooksDir (xe_cfg ex_executor)) ''/''" "content ex_hook_fs (filepath_Join [ac_HooksDir (xe_cfg ex_executor), ''.'']) = None"
    "ac_HooksDir (xe_cfg ex_executor) = ''/h''" "aq_Action ex_action = ''x''" "aq_Checksum ex_action = ''#!''" by code_simp+
  have "execs' \<noteq> []" using e by simp
  from hooks_run_only_verified [OF r this h(1,2)] show ?thesis using x unfolding e h(3,4,5) by blast
qed



text \<open>Output of exactly the configured size is complete and yet marked as truncated.\<close>

lemma exact_output_marked_truncated:
  "collectOutput (fold limitedWriter_Write [''abcd''] (newLimitedWriter 4)) = ''abcd'' @ truncationSuffix"
  by code_simp

text \<open>A hook with two dots in its name is discovered and advertised, and can never be run.\<close>

lemma dotted_hook_never_runs: "fst (runHook v timeout nodeID (req\<lparr>aq_Action := ''a..b''\<rparr>) e w) = run_failed 1 (RunError ''invalid hook name: a..b'')"
  by (cases w) (simp add: runHook_def validateHookName_def)

end
