(* ===== verification/Forwarding.thy ===== *)
theory Forwarding
  imports GoLib "HOL-Library.Sublist" "HOL-Library.Word"
begin

text \<open>
  The collectors that buffer records and report them in batches: log forwarding
  (\<open>internal/logfwd\<close>), audit forwarding (\<open>internal/auditfwd\<close>) and metrics (\<open>internal/metrics\<close>), with
  their configurations and sources.  The three packages contain the same buffer and the same loop,
  which are modelled once, over the type of the records; the definitions of each package are its
  instances.  Sources and reporters act on a world \<open>'w\<close>; a slice expression that is out of range
  panics, \<open>2 * BatchSize\<close> wraps at 64 bits, and the loop of \<open>flush\<close> is partial, because a batch
  size of zero would make it run forever.  The error text of a recovered panic is only logged, and
  the stack trace in it is left out.
\<close>

section \<open>config.go\<close>

record FwdConfig =
  fc_Enabled :: bool
  fc_CollectInterval :: duration
  fc_ReportInterval :: duration
  fc_BatchSize :: int

definition fwd_defaults :: "duration \<Rightarrow> duration \<Rightarrow> int \<Rightarrow> FwdConfig \<Rightarrow> FwdConfig" where
  "fwd_defaults collect rep batch c =
     (let c = (if fc_CollectInterval c = 0 \<and> fc_ReportInterval c = 0 \<and> fc_BatchSize c = 0 then c\<lparr>fc_Enabled := True\<rparr> else c);
          c = (if fc_CollectInterval c = 0 then c\<lparr>fc_CollectInterval := collect\<rparr> else c);
          c = (if fc_ReportInterval c = 0 then c\<lparr>fc_ReportInterval := rep\<rparr> else c)
      in if fc_BatchSize c = 0 then c\<lparr>fc_BatchSize := batch\<rparr> else c)"

definition logfwd_ApplyDefaults :: "FwdConfig \<Rightarrow> FwdConfig" where
  "logfwd_ApplyDefaults = fwd_defaults (10 * Second) (30 * Second) 200"

definition auditfwd_ApplyDefaults :: "FwdConfig \<Rightarrow> FwdConfig" where
  "auditfwd_ApplyDefaults = fwd_defaults (5 * Second) (15 * Second) 500"

definition metrics_ApplyDefaults :: "FwdConfig \<Rightarrow> FwdConfig" where
  "metrics_ApplyDefaults = fwd_defaults (15 * Second) (60 * Second) 100"

definition logfwd_Validate :: "FwdConfig \<Rightarrow> string option" where
  "logfwd_Validate c =
     (if \<not> fc_Enabled c then None
      else if fc_CollectInterval c < 5 * Second then Some ''logfwd: config: CollectInterval must be at least 5s''
      else if fc_ReportInterval c < fc_CollectInterval c then Some ''logfwd: config: ReportInterval must be >= CollectInterval''
      else if fc_BatchSize c < 1 then Some ''logfwd: config: BatchSize must be at least 1''
      else None)"

definition auditfwd_Validate :: "FwdConfig \<Rightarrow> string option" where
  "auditfwd_Validate c =
     (if \<not> fc_Enabled c then None
      else if fc_CollectInterval c < Second then Some ''auditfwd: config: CollectInterval must be at least 1s''
      else if fc_ReportInterval c < fc_CollectInterval c then Some ''auditfwd: config: ReportInterval must be >= CollectInterval''
      else if fc_BatchSize c < 1 then Some ''auditfwd: config: BatchSize must be at least 1''
      else None)"

definition metrics_Validate :: "FwdConfig \<Rightarrow> string option" where
  "metrics_Validate c =
     (if \<not> fc_Enabled c then None
      else if fc_CollectInterval c < 5 * Second then Some ''metrics: config: CollectInterval must be at least 5s''
      else if fc_ReportInterval c < 10 * Second then Some ''metrics: config: ReportInterval must be at least 10s''
      else if fc_ReportInterval c < fc_CollectInterval c then Some ''metrics: config: ReportInterval must be >= CollectInterval''
      else if fc_BatchSize c \<le> 0 then Some ''metrics: config: BatchSize must be > 0''
      else None)"

section \<open>Records and sources\<close>

record LogEntry =
  le_Timestamp :: time
  le_Source :: string
  le_Unit :: string
  le_Message :: string
  le_Severity :: string
  le_Hostname :: string

record JournalEntry =
  je_Timestamp :: time
  je_Message :: string
  je_Priority :: int
  je_Unit :: string

definition mapSeverity :: "int \<Rightarrow> string" where
  "mapSeverity priority =
     (if priority < 0 \<or> 7 < priority then ''info''
      else [''emerg'', ''alert'', ''crit'', ''err'', ''warning'', ''notice'', ''info'', ''debug''] ! nat priority)"

definition JournaldSource_Collect :: "string \<Rightarrow> string + JournalEntry list \<Rightarrow> string + LogEntry list" where
  "JournaldSource_Collect hostname read =
     (case read of
        Inl err \<Rightarrow> Inl (''logfwd: journald: '' @ err)
      | Inr entries \<Rightarrow>
          Inr (map (\<lambda>e. \<lparr>le_Timestamp = je_Timestamp e, le_Source = ''journald'', le_Unit = je_Unit e, le_Message = je_Message e,
            le_Severity = mapSeverity (je_Priority e), le_Hostname = hostname\<rparr>) entries))"

record AuditEntry =
  au_Timestamp :: time
  au_Source :: string
  au_EventType :: string
  au_Subject :: string
  au_Object :: string
  au_Action :: string
  au_Result :: string
  au_Hostname :: string
  au_Raw :: string

record AuditdEntry =
  ad_Timestamp :: time
  ad_Type :: string
  ad_UID :: int
  ad_GID :: int
  ad_PID :: int
  ad_Syscall :: string
  ad_Object :: string
  ad_Path :: string
  ad_Success :: bool
  ad_Raw :: string

definition auditdResult :: "bool \<Rightarrow> string" where
  "auditdResult success = (if success then ''success'' else ''failure'')"

definition auditdAction :: "string \<Rightarrow> string \<Rightarrow> string" where
  "auditdAction syscall typ = (if syscall \<noteq> '''' then syscall else typ)"

text \<open>\<open>json.Marshal\<close> of a subject and of a string are parameters.\<close>

definition AuditdSource_Collect ::
    "(int \<times> int \<times> int \<Rightarrow> string) \<Rightarrow> (string \<Rightarrow> string) \<Rightarrow> string \<Rightarrow> string + AuditdEntry list \<Rightarrow> string + AuditEntry list" where
  "AuditdSource_Collect jsonSubject jsonString hostname read =
     (case read of
        Inl err \<Rightarrow> Inl (''auditfwd: auditd: '' @ err)
      | Inr entries \<Rightarrow>
          Inr (map (\<lambda>e. \<lparr>au_Timestamp = ad_Timestamp e, au_Source = ''auditd'', au_EventType = ad_Type e,
            au_Subject = jsonSubject (ad_UID e, ad_GID e, ad_PID e), au_Object = jsonString (ad_Object e),
            au_Action = auditdAction (ad_Syscall e) (ad_Type e), au_Result = auditdResult (ad_Success e),
            au_Hostname = hostname, au_Raw = ad_Raw e\<rparr>) entries))"

record K8sUser =
  ku_Username :: string
  ku_Groups :: "string list"

record K8sObjectRef =
  ko_Resource :: string
  ko_Namespace :: string
  ko_Name :: string

record K8sAuditEntry =
  ka_Timestamp :: time
  ka_Verb :: string
  ka_User :: K8sUser
  ka_ObjectRef :: K8sObjectRef
  ka_RequestURI :: string
  ka_ResponseStatus :: int
  ka_Raw :: string

definition formatObjectRef :: "K8sObjectRef \<Rightarrow> string" where
  "formatObjectRef ref =
     (let obj = ko_Resource ref;
          obj = (if ko_Namespace ref \<noteq> '''' then ko_Namespace ref @ ''/'' @ obj else obj)
      in if ko_Name ref \<noteq> '''' then obj @ ''/'' @ ko_Name ref else obj)"

definition k8sResult :: "int \<Rightarrow> string" where
  "k8sResult statusCode = (if 200 \<le> statusCode \<and> statusCode < 300 then ''success'' else ''failure'')"

definition K8sAuditSource_Collect ::
    "(K8sUser \<Rightarrow> string) \<Rightarrow> (string \<Rightarrow> string) \<Rightarrow> string \<Rightarrow> string + K8sAuditEntry list \<Rightarrow> string + AuditEntry list" where
  "K8sAuditSource_Collect jsonUser jsonString hostname read =
     (case read of
        Inl err \<Rightarrow> Inl (''auditfwd: k8s-audit: '' @ err)
      | Inr entries \<Rightarrow>
          Inr (map (\<lambda>e. \<lparr>au_Timestamp = ka_Timestamp e, au_Source = ''k8s-audit'', au_EventType = ka_Verb e,
            au_Subject = jsonUser (ka_User e), au_Object = jsonString (formatObjectRef (ka_ObjectRef e)), au_Action = ka_Verb e,
            au_Result = k8sResult (ka_ResponseStatus e), au_Hostname = hostname, au_Raw = ka_Raw e\<rparr>) entries))"

record MetricPoint =
  mp_Timestamp :: time
  mp_Group :: string
  mp_PeerID :: string
  mp_Data :: string

text \<open>\<open>Collect\<close> of the latency collector: the points so far and the error.  The error of the context, the
  answer of the pinger and the clock are functions of the number of the peer in the round.\<close>

record LatencyResult =
  lr_PeerID :: string
  lr_RTTNano :: int

fun LatencyCollector_Collect ::
    "(LatencyResult \<Rightarrow> string) \<Rightarrow> (nat \<Rightarrow> string \<Rightarrow> string + int) \<Rightarrow> (nat \<Rightarrow> string option) \<Rightarrow> (nat \<Rightarrow> time) \<Rightarrow> nat \<Rightarrow> string list \<Rightarrow>
     MetricPoint list \<times> string option" where
  "LatencyCollector_Collect json ping ctxErr now n [] = ([], None)"
| "LatencyCollector_Collect json ping ctxErr now n (peerID # peers) =
     (case ctxErr n of
        Some err \<Rightarrow> ([], Some err)
      | None \<Rightarrow>
          (let rtt = (case ping n peerID of Inl err \<Rightarrow> -1 | Inr rtt \<Rightarrow> rtt);
               point = \<lparr>mp_Timestamp = now n, mp_Group = ''latency'', mp_PeerID = peerID,
                 mp_Data = json \<lparr>lr_PeerID = peerID, lr_RTTNano = rtt\<rparr>\<rparr>
           in case LatencyCollector_Collect json ping ctxErr now (n + 1) peers of (points, err) \<Rightarrow> (point # points, err)))"

text \<open>The zero time of a handshake that never happened is \<open>None\<close>; \<open>Sub\<close> saturates.\<close>

definition time_Sub :: "time \<Rightarrow> time \<Rightarrow> duration" where
  "time_Sub t u = max (- (2 ^ 63)) (min (2 ^ 63 - 1) (t - u))"

record TunnelStats =
  ts_PeerID :: string
  ts_LastHandshakeTime :: "time option"
  ts_RxBytes :: "64 word"
  ts_TxBytes :: "64 word"
  ts_HandshakeSucceeded :: bool
  ts_HandshakeStale :: bool

definition tunnel_threshold :: "duration \<Rightarrow> duration" where
  "tunnel_threshold staleThreshold = (if staleThreshold \<le> 0 then 5 * Minute else staleThreshold)"

fun tunnel_points ::
    "(TunnelStats \<Rightarrow> string + string) \<Rightarrow> duration \<Rightarrow> time \<Rightarrow> TunnelStats list \<Rightarrow> string + MetricPoint list" where
  "tunnel_points json threshold now [] = Inr []"
| "tunnel_points json threshold now (s # stats) =
     (let s = (case ts_LastHandshakeTime s of
                 None \<Rightarrow> s
               | Some t \<Rightarrow> if threshold < time_Sub now t then s\<lparr>ts_HandshakeStale := True\<rparr> else s)
      in case json s of
        Inl err \<Rightarrow> Inl (''metrics: tunnel: '' @ err)
      | Inr data \<Rightarrow>
          (case tunnel_points json threshold now stats of
             Inl err \<Rightarrow> Inl err
           | Inr points \<Rightarrow> Inr (\<lparr>mp_Timestamp = now, mp_Group = ''tunnel'', mp_PeerID = ts_PeerID s, mp_Data = data\<rparr> # points)))"

definition TunnelCollector_Collect ::
    "(TunnelStats \<Rightarrow> string + string) \<Rightarrow> duration \<Rightarrow> time \<Rightarrow> string + TunnelStats list \<Rightarrow> string + MetricPoint list" where
  "TunnelCollector_Collect json staleThreshold now read =
     (case read of
        Inl err \<Rightarrow> Inl (''metrics: tunnel: '' @ err)
      | Inr stats \<Rightarrow> tunnel_points json (tunnel_threshold staleThreshold) now stats)"

text \<open>The type of a \<open>float64\<close> is a parameter, since the readings are only encoded; the reader may return nil.\<close>

record 'f SystemStats =
  ss_CPUUsagePercent :: 'f
  ss_MemoryUsedBytes :: "64 word"
  ss_MemoryTotalBytes :: "64 word"
  ss_DiskUsedBytes :: "64 word"
  ss_DiskTotalBytes :: "64 word"
  ss_NetworkRxBytes :: "64 word"
  ss_NetworkTxBytes :: "64 word"

definition SystemCollector_Collect ::
    "('f SystemStats option \<Rightarrow> string + string) \<Rightarrow> time \<Rightarrow> string + 'f SystemStats option \<Rightarrow> string + MetricPoint list" where
  "SystemCollector_Collect json now read =
     (case read of
        Inl err \<Rightarrow> Inl (''metrics: system: '' @ err)
      | Inr stats \<Rightarrow>
          (case json stats of
             Inl err \<Rightarrow> Inl (''metrics: system: '' @ err)
           | Inr data \<Rightarrow> Inr [\<lparr>mp_Timestamp = now, mp_Group = ''system'', mp_PeerID = '''', mp_Data = data\<rparr>]))"

section \<open>The forwarder\<close>

text \<open>A reporter gets the context of \<open>Run\<close>, or the background context of the last flush.\<close>

datatype fwd_ctx = RunCtx | Background

type_synonym ('x, 'w) source = "'w \<Rightarrow> (string + 'x list) outcome \<times> 'w"
type_synonym ('x, 'w) reporter = "fwd_ctx \<Rightarrow> string \<Rightarrow> 'x list \<Rightarrow> 'w \<Rightarrow> string option \<times> 'w"

record ('x, 'w) Forwarder =
  fw_cfg :: FwdConfig
  fw_sources :: "('x, 'w) source list"
  fw_nodeID :: string
  fw_buffer :: "'x list"

definition NewForwarder :: "(FwdConfig \<Rightarrow> FwdConfig) \<Rightarrow> FwdConfig \<Rightarrow> ('x, 'w) source list \<Rightarrow> string \<Rightarrow> ('x, 'w) Forwarder" where
  "NewForwarder ApplyDefaults cfg sources nodeID =
     \<lparr>fw_cfg = ApplyDefaults cfg, fw_sources = sources, fw_nodeID = nodeID, fw_buffer = []\<rparr>"

definition RegisterSource :: "('x, 'w) source \<Rightarrow> ('x, 'w) Forwarder \<Rightarrow> ('x, 'w) Forwarder" where
  "RegisterSource s f = f\<lparr>fw_sources := fw_sources f @ [s]\<rparr>"

text \<open>With a negative limit the start of the slice, \<open>len - limit\<close>, is beyond the end or wraps to a negative
  number, and either panics; otherwise the difference stays in range.\<close>

definition enforceCapacity :: "int \<Rightarrow> 'x list \<Rightarrow> 'x list outcome" where
  "enforceCapacity batchSize buffer =
     (let limit = wrap64 (2 * batchSize) in
      if limit < int (length buffer) then
        if limit < 0 then Panic ''slice bounds out of range'' else Ret (drop (length buffer - nat limit) buffer)
      else Ret buffer)"

text \<open>A panic of a source is recovered and becomes an error.\<close>

definition safeCollect :: "('x, 'w) source \<Rightarrow> 'w \<Rightarrow> (string + 'x list) \<times> 'w" where
  "safeCollect s w =
     (case s w of
        (Panic v, w) \<Rightarrow> (Inl (''source panicked: '' @ v), w)
      | (Ret r, w) \<Rightarrow> (r, w))"

text \<open>The loop of \<open>collect\<close>, with everything the sources delivered.\<close>

fun collect_sources ::
    "int \<Rightarrow> ('x, 'w) source list \<Rightarrow> 'x list \<Rightarrow> 'w \<Rightarrow> 'x list outcome \<times> 'x list \<times> 'w" where
  "collect_sources batchSize [] buffer w = (Ret buffer, [], w)"
| "collect_sources batchSize (s # ss) buffer w =
     (case safeCollect s w of
        (Inl err, w) \<Rightarrow> collect_sources batchSize ss buffer w
      | (Inr entries, w) \<Rightarrow>
          (case enforceCapacity batchSize (buffer @ entries) of
             Panic v \<Rightarrow> (Panic v, entries, w)
           | Ret buffer \<Rightarrow>
               (case collect_sources batchSize ss buffer w of (r, later, w) \<Rightarrow> (r, entries @ later, w))))"

text \<open>One round of the loop of \<open>flush\<close>: the chunk, or a panic, and then the answer of the reporter.\<close>

definition flush_chunk :: "int \<Rightarrow> 'x list \<Rightarrow> 'x list outcome" where
  "flush_chunk batchSize batch =
     (let n = min batchSize (int (length batch))
      in if n < 0 then Panic ''slice bounds out of range'' else Ret (take (nat n) batch))"

partial_function (option) flush_batches ::
    "('x, 'w) reporter \<Rightarrow> fwd_ctx \<Rightarrow> string \<Rightarrow> int \<Rightarrow> 'x list \<Rightarrow> 'w \<Rightarrow> ('x list outcome \<times> 'x list list \<times> 'w) option" where
  "flush_batches rep ctx nodeID batchSize batch w =
     (if batch = [] then Some (Ret [], [], w)
      else case flush_chunk batchSize batch of
        Panic v \<Rightarrow> Some (Panic v, [], w)
      | Ret chunk \<Rightarrow>
          if fst (rep ctx nodeID chunk w) \<noteq> None then Some (Ret batch, [], snd (rep ctx nodeID chunk w))
          else Option.bind (flush_batches rep ctx nodeID batchSize (drop (length chunk) batch) (snd (rep ctx nodeID chunk w)))
            (\<lambda>res. Some (fst res, chunk # fst (snd res), snd (snd res))))"

declare flush_batches.simps [code]

text \<open>\<open>flush\<close>: the new buffer and the batches that were acknowledged.  What is left of the batch goes back
  to the front of the buffer, which is empty, because the loop is the only one that fills it.\<close>

definition fwd_flush :: "('x, 'w) reporter \<Rightarrow> fwd_ctx \<Rightarrow> ('x, 'w) Forwarder \<Rightarrow> 'w \<Rightarrow> ('x list outcome \<times> 'x list list \<times> 'w) option" where
  "fwd_flush rep ctx f w =
     (case flush_batches rep ctx (fw_nodeID f) (fc_BatchSize (fw_cfg f)) (fw_buffer f) w of
        None \<Rightarrow> None
      | Some (Panic v, acked, w) \<Rightarrow> Some (Panic v, acked, w)
      | Some (Ret rest, acked, w) \<Rightarrow>
          if rest = [] then Some (Ret [], acked, w) else Some (enforceCapacity (fc_BatchSize (fw_cfg f)) rest, acked, w))"

text \<open>The history of a run: what the sources delivered and the batches that were acknowledged.\<close>

record 'x fwd_history =
  fh_collected :: "'x list"
  fh_acked :: "'x list list"

datatype fwd_tick = CollectTick | ReportTick

definition fwd_collect_step :: "('x, 'w) Forwarder \<times> 'x fwd_history \<times> 'w \<Rightarrow> string option \<times> ('x, 'w) Forwarder \<times> 'x fwd_history \<times> 'w" where
  "fwd_collect_step st =
     (case st of (f, h, w) \<Rightarrow>
      case collect_sources (fc_BatchSize (fw_cfg f)) (fw_sources f) (fw_buffer f) w of
        (Panic v, col, w) \<Rightarrow> (Some v, f, h\<lparr>fh_collected := fh_collected h @ col\<rparr>, w)
      | (Ret buffer, col, w) \<Rightarrow> (None, f\<lparr>fw_buffer := buffer\<rparr>, h\<lparr>fh_collected := fh_collected h @ col\<rparr>, w))"

definition fwd_flush_step ::
    "('x, 'w) reporter \<Rightarrow> fwd_ctx \<Rightarrow> ('x, 'w) Forwarder \<times> 'x fwd_history \<times> 'w \<Rightarrow> (string option \<times> ('x, 'w) Forwarder \<times> 'x fwd_history \<times> 'w) option" where
  "fwd_flush_step rep ctx st =
     (case st of (f, h, w) \<Rightarrow>
      case fwd_flush rep ctx f w of
        None \<Rightarrow> None
      | Some (Panic v, acked, w) \<Rightarrow> Some (Some v, f, h\<lparr>fh_acked := fh_acked h @ acked\<rparr>, w)
      | Some (Ret buffer, acked, w) \<Rightarrow> Some (None, f\<lparr>fw_buffer := buffer\<rparr>, h\<lparr>fh_acked := fh_acked h @ acked\<rparr>, w))"

text \<open>The loop of \<open>Run\<close> over the ticks that arrive before the context is done: the first component is a
  panic, if there was one.\<close>

fun fwd_ticks ::
    "('x, 'w) reporter \<Rightarrow> fwd_tick list \<Rightarrow> ('x, 'w) Forwarder \<times> 'x fwd_history \<times> 'w \<Rightarrow>
     (string option \<times> ('x, 'w) Forwarder \<times> 'x fwd_history \<times> 'w) option" where
  "fwd_ticks rep [] st = fwd_flush_step rep Background st"
| "fwd_ticks rep (CollectTick # ticks) st =
     (case fwd_collect_step st of
        (Some v, st) \<Rightarrow> Some (Some v, st)
      | (None, st) \<Rightarrow> fwd_ticks rep ticks st)"
| "fwd_ticks rep (ReportTick # ticks) st =
     (case fwd_flush_step rep RunCtx st of
        None \<Rightarrow> None
      | Some (Some v, st) \<Rightarrow> Some (Some v, st)
      | Some (None, st) \<Rightarrow> fwd_ticks rep ticks st)"

text \<open>\<open>Run\<close>: the first collection, the tickers, which panic on an interval that is not positive, and the loop.
  It returns the error of the context, or nil when the forwarder is disabled.\<close>

definition Forwarder_Run ::
    "('x, 'w) reporter \<Rightarrow> string \<Rightarrow> fwd_tick list \<Rightarrow> ('x, 'w) Forwarder \<times> 'x fwd_history \<times> 'w \<Rightarrow>
     (string option outcome \<times> ('x, 'w) Forwarder \<times> 'x fwd_history \<times> 'w) option" where
  "Forwarder_Run rep ctxErr ticks st =
     (if \<not> fc_Enabled (fw_cfg (fst st)) then Some (Ret None, st)
      else case fwd_collect_step st of
        (Some v, st) \<Rightarrow> Some (Panic v, st)
      | (None, st) \<Rightarrow>
          if fc_CollectInterval (fw_cfg (fst st)) \<le> 0 \<or> fc_ReportInterval (fw_cfg (fst st)) \<le> 0
          then Some (Panic ''non-positive interval for NewTicker'', st)
          else case fwd_ticks rep ticks st of
            None \<Rightarrow> None
          | Some (Some v, st) \<Rightarrow> Some (Panic v, st)
          | Some (None, st) \<Rightarrow> Some (Ret (Some ctxErr), st))"

section \<open>The instances\<close>

definition logfwd_Run ::
    "(LogEntry, 'w) reporter \<Rightarrow> FwdConfig \<Rightarrow> (LogEntry, 'w) source list \<Rightarrow> string \<Rightarrow> string \<Rightarrow> fwd_tick list \<Rightarrow> 'w \<Rightarrow>
     (string option outcome \<times> (LogEntry, 'w) Forwarder \<times> LogEntry fwd_history \<times> 'w) option" where
  "logfwd_Run ReportLogs cfg sources nodeID ctxErr ticks w =
     Forwarder_Run ReportLogs ctxErr ticks (NewForwarder logfwd_ApplyDefaults cfg sources nodeID, \<lparr>fh_collected = [], fh_acked = []\<rparr>, w)"

definition auditfwd_Run ::
    "(AuditEntry, 'w) reporter \<Rightarrow> FwdConfig \<Rightarrow> (AuditEntry, 'w) source list \<Rightarrow> string \<Rightarrow> string \<Rightarrow> fwd_tick list \<Rightarrow> 'w \<Rightarrow>
     (string option outcome \<times> (AuditEntry, 'w) Forwarder \<times> AuditEntry fwd_history \<times> 'w) option" where
  "auditfwd_Run ReportAudit cfg sources nodeID ctxErr ticks w =
     Forwarder_Run ReportAudit ctxErr ticks (NewForwarder auditfwd_ApplyDefaults cfg sources nodeID, \<lparr>fh_collected = [], fh_acked = []\<rparr>, w)"

definition metrics_Run ::
    "(MetricPoint, 'w) reporter \<Rightarrow> FwdConfig \<Rightarrow> (MetricPoint, 'w) source list \<Rightarrow> string \<Rightarrow> string \<Rightarrow> fwd_tick list \<Rightarrow> 'w \<Rightarrow>
     (string option outcome \<times> (MetricPoint, 'w) Forwarder \<times> MetricPoint fwd_history \<times> 'w) option" where
  "metrics_Run ReportMetrics cfg collectors nodeID ctxErr ticks w =
     Forwarder_Run ReportMetrics ctxErr ticks (NewForwarder metrics_ApplyDefaults cfg collectors nodeID, \<lparr>fh_collected = [], fh_acked = []\<rparr>, w)"

section \<open>The buffer\<close>

definition valid_batch :: "int \<Rightarrow> bool" where
  "valid_batch b \<longleftrightarrow> 1 \<le> b \<and> b < 2 ^ 62"

lemma valid_batch_wrap: "valid_batch b \<Longrightarrow> wrap64 (2 * b) = 2 * b"
  by (rule wrap64_id) (simp add: valid_batch_def is_int64_def)

lemma enforceCapacity_drop:
  assumes "valid_batch b"
  shows "enforceCapacity b xs = Ret (drop (length xs - nat (2 * b)) xs)"
  using assms by (auto simp: enforceCapacity_def valid_batch_wrap valid_batch_def Let_def)

lemma enforceCapacity_bound:
  assumes "valid_batch b"
  shows "int (length (drop (length xs - nat (2 * b)) xs)) \<le> 2 * b"
  using assms by (auto simp: valid_batch_def)

lemma collect_sources_keeps:
  assumes "valid_batch b" "int (length buf) \<le> 2 * b"
  shows "\<exists>k col w'. collect_sources b ss buf w = (Ret (drop k (buf @ col)), col, w')
    \<and> int (length (drop k (buf @ col))) \<le> 2 * b \<and> (int (length (buf @ col)) \<le> 2 * b \<longrightarrow> k = 0)"
  using assms(2)
proof (induction ss arbitrary: buf w)
  case Nil
  then show ?case by (intro exI [of _ 0] exI [of _ "[]"]) simp
next
  case (Cons s ss)
  obtain r w1 where c: "safeCollect s w = (r, w1)" by (cases "safeCollect s w")
  show ?case
  proof (cases r)
    case (Inl err)
    then show ?thesis using Cons.IH [OF Cons.prems, of w1] c by simp
  next
    case (Inr entries)
    define j where "j = length (buf @ entries) - nat (2 * b)"
    have e: "enforceCapacity b (buf @ entries) = Ret (drop j (buf @ entries))"
      unfolding j_def by (rule enforceCapacity_drop [OF assms(1)])
    have l: "int (length (drop j (buf @ entries))) \<le> 2 * b"
      unfolding j_def by (rule enforceCapacity_bound [OF assms(1)])
    obtain k col w' where IH: "collect_sources b ss (drop j (buf @ entries)) w1 = (Ret (drop k (drop j (buf @ entries) @ col)), col, w')"
      "int (length (drop k (drop j (buf @ entries) @ col))) \<le> 2 * b"
      "int (length (drop j (buf @ entries) @ col)) \<le> 2 * b \<longrightarrow> k = 0"
      using Cons.IH [OF l, of w1] by blast
    have j: "j \<le> length (buf @ entries)" by (simp add: j_def)
    have "drop j ((buf @ entries) @ col) = drop j (buf @ entries) @ col" using j by (simp only: drop_append) simp
    then have d: "drop k (drop j (buf @ entries) @ col) = drop (k + j) (buf @ entries @ col)"
      by (metis append_assoc drop_drop)
    have z: "int (length (buf @ entries @ col)) \<le> 2 * b \<longrightarrow> k + j = 0"
      using IH(3) j by (auto simp: j_def)
    show ?thesis
      using c Inr e IH(1,2) z unfolding d
      by (intro exI [of _ "k + j"] exI [of _ "entries @ col"] exI [of _ w']) simp
  qed
qed

lemma flush_batches_splits:
  assumes "1 \<le> b"
  shows "\<exists>rest acked w'. flush_batches rep ctx nodeID b batch w = Some (Ret rest, acked, w') \<and> concat acked @ rest = batch
    \<and> (\<forall>c\<in>set acked. c \<noteq> [] \<and> int (length c) \<le> b) \<and> ((\<forall>c w. fst (rep ctx nodeID c w) = None) \<longrightarrow> rest = [])"
proof (induction "length batch" arbitrary: batch w rule: less_induct)
  case less
  show ?case
  proof (cases "batch = []")
    case True
    then show ?thesis by (simp add: flush_batches.simps)
  next
    case False
    define n where "n = nat (min b (int (length batch)))"
    have n: "0 < n" "n \<le> length batch" "int n \<le> b" using assms False by (auto simp: n_def)
    have chunk: "flush_chunk b batch = Ret (take n batch)" using assms by (simp add: flush_chunk_def n_def Let_def)
    show ?thesis
    proof (cases "fst (rep ctx nodeID (take n batch) w)")
      case (Some err)
      then show ?thesis using False chunk by (subst flush_batches.simps) auto
    next
      case None
      have "length (drop n batch) < length batch" using n by simp
      from less [OF this, of "snd (rep ctx nodeID (take n batch) w)"] obtain rest acked w' where IH:
        "flush_batches rep ctx nodeID b (drop n batch) (snd (rep ctx nodeID (take n batch) w)) = Some (Ret rest, acked, w')"
        "concat acked @ rest = drop n batch" "\<forall>c\<in>set acked. c \<noteq> [] \<and> int (length c) \<le> b"
        "(\<forall>c w. fst (rep ctx nodeID c w) = None) \<longrightarrow> rest = []" by blast
      have "flush_batches rep ctx nodeID b batch w = Some (Ret rest, take n batch # acked, w')"
        using False chunk None IH(1) n by (subst flush_batches.simps) (simp add: min_absorb2)
      then show ?thesis using IH(2-4) n False by (intro exI [of _ rest] exI [of _ "take n batch # acked"] exI [of _ w']) auto
    qed
  qed
qed

section \<open>The loop\<close>

text \<open>What the buffer, the acknowledged batches and the collected records satisfy between two ticks.\<close>

definition fwd_inv :: "('x, 'w) Forwarder \<Rightarrow> 'x fwd_history \<Rightarrow> bool" where
  "fwd_inv f h \<longleftrightarrow>
     int (length (fw_buffer f)) \<le> 2 * fc_BatchSize (fw_cfg f)
     \<and> (\<forall>c\<in>set (fh_acked h). c \<noteq> [] \<and> int (length c) \<le> fc_BatchSize (fw_cfg f))
     \<and> subseq (concat (fh_acked h) @ fw_buffer f) (fh_collected h)
     \<and> (int (length (fh_collected h)) \<le> 2 * fc_BatchSize (fw_cfg f) \<longrightarrow> concat (fh_acked h) @ fw_buffer f = fh_collected h)"

lemma fwd_collect_step_inv:
  assumes "valid_batch (fc_BatchSize (fw_cfg f))" "fwd_inv f h"
  shows "\<exists>f' h' w'. fwd_collect_step (f, h, w) = (None, f', h', w') \<and> fwd_inv f' h' \<and> fw_cfg f' = fw_cfg f \<and> fw_nodeID f' = fw_nodeID f"
proof -
  let ?b = "fc_BatchSize (fw_cfg f)" and ?buf = "fw_buffer f" and ?A = "concat (fh_acked h)"
  have l: "int (length ?buf) \<le> 2 * ?b" using assms(2) by (simp add: fwd_inv_def)
  obtain k col w' where c: "collect_sources ?b (fw_sources f) ?buf w = (Ret (drop k (?buf @ col)), col, w')"
    and bnd: "int (length (drop k (?buf @ col))) \<le> 2 * ?b" and k: "int (length (?buf @ col)) \<le> 2 * ?b \<longrightarrow> k = 0"
    using collect_sources_keeps [OF assms(1) l, of "fw_sources f" w] by blast
  have "subseq ((?A @ ?buf) @ col) (fh_collected h @ col)"
    using assms(2) by (intro list_emb_append_mono) (simp_all add: fwd_inv_def)
  moreover have "subseq (?A @ drop k (?buf @ col)) (?A @ ?buf @ col)"
    by (intro list_emb_append_mono suffix_imp_subseq suffix_drop) simp
  ultimately have sub: "subseq (?A @ drop k (?buf @ col)) (fh_collected h @ col)"
    using subseq_order.trans by (metis append_assoc)
  have eq: "?A @ drop k (?buf @ col) = fh_collected h @ col" if "int (length (fh_collected h @ col)) \<le> 2 * ?b"
  proof -
    have same: "?A @ ?buf = fh_collected h" using assms(2) that by (simp add: fwd_inv_def)
    then have "length ?buf \<le> length (fh_collected h)" by (metis length_append le_add2)
    then show ?thesis using k that same by simp
  qed
  have "fwd_inv (f\<lparr>fw_buffer := drop k (?buf @ col)\<rparr>) (h\<lparr>fh_collected := fh_collected h @ col\<rparr>)"
    using assms(2) bnd sub eq by (simp add: fwd_inv_def)
  then show ?thesis using c by (simp add: fwd_collect_step_def)
qed

lemma fwd_flush_step_inv:
  assumes "valid_batch (fc_BatchSize (fw_cfg f))" "fwd_inv f h"
  shows "\<exists>f' h' w'. fwd_flush_step rep ctx (f, h, w) = Some (None, f', h', w') \<and> fwd_inv f' h' \<and> fw_cfg f' = fw_cfg f \<and> fw_nodeID f' = fw_nodeID f
    \<and> ((\<forall>c w. fst (rep ctx (fw_nodeID f) c w) = None) \<longrightarrow> fw_buffer f' = [])"
proof -
  let ?b = "fc_BatchSize (fw_cfg f)" and ?buf = "fw_buffer f"
  have b: "1 \<le> ?b" using assms(1) by (simp add: valid_batch_def)
  obtain rest acked w' where fl: "flush_batches rep ctx (fw_nodeID f) ?b ?buf w = Some (Ret rest, acked, w')"
    and split: "concat acked @ rest = ?buf" and chunks: "\<forall>c\<in>set acked. c \<noteq> [] \<and> int (length c) \<le> ?b"
    and all: "(\<forall>c w. fst (rep ctx (fw_nodeID f) c w) = None) \<longrightarrow> rest = []"
    using flush_batches_splits [OF b, of rep ctx "fw_nodeID f" ?buf w] by blast
  have l: "int (length rest) \<le> 2 * ?b" using assms(2) by (simp add: fwd_inv_def flip: split)
  then have "enforceCapacity ?b rest = Ret rest" using enforceCapacity_drop [OF assms(1), of rest] by simp
  then have "fwd_flush rep ctx f w = Some (Ret rest, acked, w')" using fl by (simp add: fwd_flush_def)
  moreover have "fwd_inv (f\<lparr>fw_buffer := rest\<rparr>) (h\<lparr>fh_acked := fh_acked h @ acked\<rparr>)"
    using assms(2) l chunks by (auto simp: fwd_inv_def simp flip: split)
  ultimately show ?thesis using all by (simp add: fwd_flush_step_def)
qed

lemma fwd_ticks_inv:
  assumes "valid_batch (fc_BatchSize (fw_cfg f))" "fwd_inv f h"
  shows "\<exists>f' h' w'. fwd_ticks rep ticks (f, h, w) = Some (None, f', h', w') \<and> fwd_inv f' h' \<and> fw_cfg f' = fw_cfg f
    \<and> ((\<forall>c w. fst (rep Background (fw_nodeID f) c w) = None) \<longrightarrow> fw_buffer f' = [])"
  using assms
proof (induction ticks arbitrary: f h w)
  case Nil
  then show ?case using fwd_flush_step_inv [of f h rep Background w] by auto
next
  case (Cons t ticks)
  show ?case
  proof (cases t)
    case CollectTick
    obtain f1 h1 w1 where s: "fwd_collect_step (f, h, w) = (None, f1, h1, w1)" "fwd_inv f1 h1" "fw_cfg f1 = fw_cfg f" "fw_nodeID f1 = fw_nodeID f"
      using fwd_collect_step_inv [OF Cons.prems] by blast
    then show ?thesis using Cons.IH [of f1 h1 w1] Cons.prems(1) CollectTick by simp
  next
    case ReportTick
    obtain f1 h1 w1 where s: "fwd_flush_step rep RunCtx (f, h, w) = Some (None, f1, h1, w1)" "fwd_inv f1 h1" "fw_cfg f1 = fw_cfg f" "fw_nodeID f1 = fw_nodeID f"
      using fwd_flush_step_inv [OF Cons.prems] by blast
    then show ?thesis using Cons.IH [of f1 h1 w1] Cons.prems(1) ReportTick by simp
  qed
qed

section \<open>Properties\<close>

lemma Validate_accepts:
  assumes "fc_Enabled c" "fc_BatchSize c < 2 ^ 62"
    and "logfwd_Validate c = None \<or> auditfwd_Validate c = None \<or> metrics_Validate c = None"
  shows "valid_batch (fc_BatchSize c) \<and> 0 < fc_CollectInterval c \<and> 0 < fc_ReportInterval c"
  using assms
  by (auto simp: logfwd_Validate_def auditfwd_Validate_def metrics_Validate_def valid_batch_def split: if_splits)

lemma fwd_defaults_idem:
  "c \<noteq> 0 \<Longrightarrow> r \<noteq> 0 \<Longrightarrow> b \<noteq> 0 \<Longrightarrow> fwd_defaults c r b (fwd_defaults c r b x) = fwd_defaults c r b x"
  by (simp add: fwd_defaults_def Let_def)

lemma Forwarder_Run_accounts:
  assumes "fc_Enabled (ApplyDefaults cfg)" "fc_BatchSize (ApplyDefaults cfg) < 2 ^ 62"
    and "logfwd_Validate (ApplyDefaults cfg) = None \<or> auditfwd_Validate (ApplyDefaults cfg) = None \<or> metrics_Validate (ApplyDefaults cfg) = None"
  shows "\<exists>f h w'. Forwarder_Run rep ctxErr ticks (NewForwarder ApplyDefaults cfg sources nodeID, \<lparr>fh_collected = [], fh_acked = []\<rparr>, w)
      = Some (Ret (Some ctxErr), f, h, w')
    \<and> int (length (fw_buffer f)) \<le> 2 * fc_BatchSize (ApplyDefaults cfg)
    \<and> (\<forall>c\<in>set (fh_acked h). c \<noteq> [] \<and> int (length c) \<le> fc_BatchSize (ApplyDefaults cfg))
    \<and> subseq (concat (fh_acked h) @ fw_buffer f) (fh_collected h)
    \<and> (int (length (fh_collected h)) \<le> 2 * fc_BatchSize (ApplyDefaults cfg) \<longrightarrow> concat (fh_acked h) @ fw_buffer f = fh_collected h)
    \<and> ((\<forall>c w. fst (rep Background nodeID c w) = None) \<longrightarrow> fw_buffer f = [])"
proof -
  let ?f = "NewForwarder ApplyDefaults cfg sources nodeID" and ?h = "\<lparr>fh_collected = [], fh_acked = []\<rparr>"
  note ok = Validate_accepts [OF assms]
  have cfg: "fw_cfg ?f = ApplyDefaults cfg" "fw_nodeID ?f = nodeID" by (simp_all add: NewForwarder_def)
  have v: "valid_batch (fc_BatchSize (fw_cfg ?f))" using ok cfg by simp
  have "fwd_inv ?f ?h" using ok by (simp add: fwd_inv_def NewForwarder_def valid_batch_def)
  then obtain f1 h1 w1 where s: "fwd_collect_step (?f, ?h, w) = (None, f1, h1, w1)" "fwd_inv f1 h1" "fw_cfg f1 = ApplyDefaults cfg" "fw_nodeID f1 = nodeID"
    using fwd_collect_step_inv [OF v, of ?h w] cfg by auto
  obtain f2 h2 w2 where t: "fwd_ticks rep ticks (f1, h1, w1) = Some (None, f2, h2, w2)" "fwd_inv f2 h2" "fw_cfg f2 = ApplyDefaults cfg"
    "(\<forall>c w. fst (rep Background nodeID c w) = None) \<longrightarrow> fw_buffer f2 = []"
    using fwd_ticks_inv [OF _ s(2), of rep ticks w1] ok unfolding s(3,4) by blast
  have "Forwarder_Run rep ctxErr ticks (?f, ?h, w) = Some (Ret (Some ctxErr), f2, h2, w2)"
    using assms(1) ok cfg s t by (simp add: Forwarder_Run_def)
  then show ?thesis using t(2-4) unfolding fwd_inv_def by (metis (no_types, lifting))
qed

text \<open>C34: Let a forwarder be built from a configuration that is enabled and that the validation of its
  package accepts, with a batch size below 2^62, whatever its sources do (fail, panic, return any
  number of records) and whatever the reporter answers.  Then for every sequence of ticks \<open>Run\<close>
  returns the error of the context, without a panic and without looping, and: the buffer holds at
  most two batches; every acknowledged batch is non-empty and no larger than the batch size; the
  acknowledged records followed by the buffered ones are a subsequence of the collected ones, so
  nothing is duplicated, reordered or made up; nothing at all is missing as long as no more than two
  batches have been collected; and if the reporter accepts the last flush, the buffer ends empty.
\<close>

theorem forwarder_accounts:
  assumes "fc_Enabled (ApplyDefaults cfg)" "fc_BatchSize (ApplyDefaults cfg) < 2 ^ 62"
    and "logfwd_Validate (ApplyDefaults cfg) = None \<or> auditfwd_Validate (ApplyDefaults cfg) = None \<or> metrics_Validate (ApplyDefaults cfg) = None"
  shows "\<exists>f h w'. Forwarder_Run rep ctxErr ticks (NewForwarder ApplyDefaults cfg sources nodeID, \<lparr>fh_collected = [], fh_acked = []\<rparr>, w)
      = Some (Ret (Some ctxErr), f, h, w')
    \<and> int (length (fw_buffer f)) \<le> 2 * fc_BatchSize (ApplyDefaults cfg)
    \<and> (\<forall>c\<in>set (fh_acked h). c \<noteq> [] \<and> int (length c) \<le> fc_BatchSize (ApplyDefaults cfg))
    \<and> subseq (concat (fh_acked h) @ fw_buffer f) (fh_collected h)
    \<and> (int (length (fh_collected h)) \<le> 2 * fc_BatchSize (ApplyDefaults cfg) \<longrightarrow> concat (fh_acked h) @ fw_buffer f = fh_collected h)
    \<and> ((\<forall>c w. fst (rep Background nodeID c w) = None) \<longrightarrow> fw_buffer f = [])"
  by (rule Forwarder_Run_accounts [where ApplyDefaults = ApplyDefaults and cfg = cfg, OF assms])

text \<open>A reporter that fails at first, and a source that panics in the first round and then delivers.\<close>

definition ex_fwd_source :: "(nat, nat) source" where
  "ex_fwd_source n = (if n = 0 then (Panic ''no journal'', 1) else (Ret (Inr [n, n + 1, n + 2]), n + 3))"

definition ex_fwd_reporter :: "(nat, nat) reporter" where
  "ex_fwd_reporter ctx nodeID chunk n = (if ctx = Background then (None, n) else (Some ''unavailable'', n))"

definition ex_fwd_cfg :: FwdConfig where
  "ex_fwd_cfg = \<lparr>fc_Enabled = True, fc_CollectInterval = 0, fc_ReportInterval = 0, fc_BatchSize = 2\<rparr>"

theorem forwarder_accounts_witness:
  "\<exists>f h w'. Forwarder_Run ex_fwd_reporter ''context canceled'' [CollectTick, ReportTick]
      (NewForwarder logfwd_ApplyDefaults ex_fwd_cfg [ex_fwd_source] ''n1'', \<lparr>fh_collected = [], fh_acked = []\<rparr>, 0)
      = Some (Ret (Some ''context canceled''), f, h, w')
    \<and> subseq (concat (fh_acked h) @ fw_buffer f) (fh_collected h) \<and> fw_buffer f = []"
proof -
  have b: "fc_Enabled (logfwd_ApplyDefaults ex_fwd_cfg)" "fc_BatchSize (logfwd_ApplyDefaults ex_fwd_cfg) < 2 ^ 62"
    "logfwd_Validate (logfwd_ApplyDefaults ex_fwd_cfg) = None"
    by (simp_all add: logfwd_ApplyDefaults_def logfwd_Validate_def fwd_defaults_def ex_fwd_cfg_def Let_def)
  have r: "\<forall>c w. fst (ex_fwd_reporter Background ''n1'' c w) = None" by (simp add: ex_fwd_reporter_def)
  show ?thesis
    using forwarder_accounts [of logfwd_ApplyDefaults ex_fwd_cfg ex_fwd_reporter "''context canceled''" "[CollectTick, ReportTick]" "[ex_fwd_source]" "''n1''" 0] b r
    by blast
qed

text \<open>A batch size that every validation accepts and whose double does not fit an \<open>int\<close> makes the first
  collection panic.\<close>

lemma huge_batch_panics:
  "enforceCapacity (2 ^ 62) buffer = Panic ''slice bounds out of range''"
  by (simp add: enforceCapacity_def wrap64_def)

text \<open>A configuration that only says that forwarding is disabled is enabled by the defaults.\<close>

lemma disabled_is_enabled:
  "fc_Enabled (fwd_defaults c r b \<lparr>fc_Enabled = False, fc_CollectInterval = 0, fc_ReportInterval = 0, fc_BatchSize = 0\<rparr>)"
  by (simp add: fwd_defaults_def)

end
