(* ===== verification/Stun.thy ===== *)
theory Stun
  imports GoNet
begin

text \<open>
  The STUN codec of \<open>internal/nat/stun.go\<close>: the binding request, and the parser of binding
  responses with its attribute loop.  Bytes are 8-bit words, the 16-bit and 32-bit fields are words
  of that width, and a slice expression outside the bounds is a panic.
\<close>

section \<open>Big-endian fields\<close>

definition be16 :: "byte_list \<Rightarrow> 16 word" where
  "be16 b = push_bit 8 (ucast (b ! 0)) OR ucast (b ! 1)"

definition put16 :: "16 word \<Rightarrow> byte_list" where
  "put16 w = [ucast (drop_bit 8 w), ucast w]"

definition be32 :: "byte_list \<Rightarrow> 32 word" where
  "be32 b = push_bit 24 (ucast (b ! 0)) OR push_bit 16 (ucast (b ! 1)) OR push_bit 8 (ucast (b ! 2)) OR ucast (b ! 3)"

definition put32 :: "32 word \<Rightarrow> byte_list" where
  "put32 w = [ucast (drop_bit 24 w), ucast (drop_bit 16 w), ucast (drop_bit 8 w), ucast w]"

section \<open>stun.go\<close>

record MappedAddress =
  ma_IP :: byte_list
  ma_Port :: int

definition MappedAddress_String :: "MappedAddress \<Rightarrow> string" where
  "MappedAddress_String m = Join (map (\<lambda>b. Itoa (uint b)) (ma_IP m)) ''.'' @ '':'' @ Itoa (ma_Port m)"

abbreviation stunMagicCookie :: "32 word" where "stunMagicCookie \<equiv> 0x2112A442"
abbreviation stunBindingRequest :: "16 word" where "stunBindingRequest \<equiv> 0x0001"
abbreviation stunBindingSuccessResponse :: "16 word" where "stunBindingSuccessResponse \<equiv> 0x0101"
abbreviation stunAttrMappedAddress :: "16 word" where "stunAttrMappedAddress \<equiv> 0x0001"
abbreviation stunAttrXORMappedAddress :: "16 word" where "stunAttrXORMappedAddress \<equiv> 0x0020"
abbreviation stunFamilyIPv4 :: "8 word" where "stunFamilyIPv4 \<equiv> 0x01"

definition buildBindingRequest :: "byte_list \<Rightarrow> byte_list" where
  "buildBindingRequest transactionID = put16 stunBindingRequest @ put16 0 @ put32 stunMagicCookie @ transactionID"

definition parseXORMappedAddress :: "byte_list \<Rightarrow> string + MappedAddress" where
  "parseXORMappedAddress val =
     (if length val < 8 then Inl ''nat: stun: XOR-MAPPED-ADDRESS too short''
      else if val ! 1 \<noteq> stunFamilyIPv4 then Inl ''nat: stun: unsupported address family''
      else
        let xorPort = be16 (drop 2 val);
            port = xorPort XOR ucast (drop_bit 16 stunMagicCookie);
            cookieBytes = put32 stunMagicCookie;
            ip = map (\<lambda>i. val ! (4 + i) XOR cookieBytes ! i) [0..<4]
        in Inr \<lparr>ma_IP = ip, ma_Port = uint port\<rparr>)"

definition parseMappedAddress :: "byte_list \<Rightarrow> string + MappedAddress" where
  "parseMappedAddress val =
     (if length val < 8 then Inl ''nat: stun: MAPPED-ADDRESS too short''
      else if val ! 1 \<noteq> stunFamilyIPv4 then Inl ''nat: stun: unsupported address family''
      else Inr \<lparr>ma_IP = take 4 (drop 4 val), ma_Port = uint (be16 (drop 2 val))\<rparr>)"

text \<open>
  The attribute loop.  The upper bound \<open>4+attrLen\<close> of the value slice is computed in 16 bits; the
  step to the next attribute rounds the length up to a multiple of four.
\<close>

abbreviation slice_panic :: "'a outcome" where "slice_panic \<equiv> Panic ''slice bounds out of range''"

definition padded :: "nat \<Rightarrow> nat" where
  "padded n = (if n mod 4 \<noteq> 0 then n + (4 - n mod 4) else n)"

function parse_attrs :: "byte_list \<Rightarrow> MappedAddress option \<Rightarrow> (string + MappedAddress) outcome" where
  "parse_attrs attrs mapped =
     (if length attrs < 4 then
        Ret (case mapped of Some m \<Rightarrow> Inr m | None \<Rightarrow> Inl ''nat: stun: no address attribute found'')
      else
        let attrType = be16 attrs; attrLen = be16 (drop 2 attrs)
        in if unat attrLen > length attrs - 4 then
             Ret (case mapped of Some m \<Rightarrow> Inr m | None \<Rightarrow> Inl ''nat: stun: no address attribute found'')
           else
             let high = unat (4 + attrLen)
             in if high < 4 then slice_panic
                else
                  let attrVal = take (high - 4) (drop 4 attrs);
                      next = (\<lambda>mapped. if 4 + padded (unat attrLen) > length attrs then slice_panic
                                       else parse_attrs (drop (4 + padded (unat attrLen)) attrs) mapped)
                  in if attrType = stunAttrXORMappedAddress then Ret (parseXORMappedAddress attrVal)
                     else if attrType = stunAttrMappedAddress then
                       (case parseMappedAddress attrVal of
                          Inl err \<Rightarrow> Ret (Inl err)
                        | Inr addr \<Rightarrow> next (Some addr))
                     else next mapped)"
  by pat_completeness auto
termination
  by (relation "measure (\<lambda>(attrs, _). length attrs)") (auto simp: padded_def)

declare parse_attrs.simps [simp del]

definition parseBindingResponse :: "byte_list \<Rightarrow> byte_list \<Rightarrow> (string + MappedAddress) outcome" where
  "parseBindingResponse data transactionID =
     (if length data < 20 then Ret (Inl ''nat: stun: response too short'')
      else
        let msgType = be16 data; msgLen = be16 (drop 2 data); cookie = be32 (drop 4 data)
        in if cookie \<noteq> stunMagicCookie then Ret (Inl ''nat: stun: invalid magic cookie'')
           else if take 12 (drop 8 data) \<noteq> transactionID then Ret (Inl ''nat: stun: transaction ID mismatch'')
           else if msgType \<noteq> stunBindingSuccessResponse then Ret (Inl ''nat: stun: unexpected message type'')
           else
             let attrs = drop 20 data
             in if unat msgLen > length attrs
                then Ret (Inl ''nat: stun: response body shorter than declared message length'')
                else parse_attrs (take (unat msgLen) attrs) None)"

section \<open>A server's side of the encoding\<close>

definition encode_attr :: "16 word \<times> byte_list \<Rightarrow> byte_list" where
  "encode_attr a = put16 (fst a) @ put16 (of_nat (length (snd a))) @ snd a @
     replicate (padded (length (snd a)) - length (snd a)) 0"

definition xor_value :: "byte_list \<Rightarrow> 16 word \<Rightarrow> byte_list" where
  "xor_value ip port = [0, stunFamilyIPv4] @ put16 (port XOR ucast (drop_bit 16 stunMagicCookie)) @
     map2 (XOR) ip (put32 stunMagicCookie)"

definition stun_response :: "byte_list \<Rightarrow> byte_list \<Rightarrow> byte_list" where
  "stun_response tid body = put16 stunBindingSuccessResponse @ put16 (of_nat (length body)) @
     put32 stunMagicCookie @ tid @ body"

section \<open>Field lemmas\<close>

lemma be16_put16 [simp]: "be16 (put16 w @ rest) = w"
  unfolding be16_def put16_def
  by (rule bit_word_eqI) (auto simp: bit_simps)

lemma be32_put32 [simp]: "be32 (put32 w @ rest) = w"
  unfolding be32_def put32_def
  by (rule bit_word_eqI, rename_tac n, case_tac "n < 16") (auto simp: bit_simps)

lemma put16_length [simp]: "length (put16 w) = 2" and put32_length [simp]: "length (put32 x) = 4"
  by (simp_all add: put16_def put32_def)

lemma drop_put16 [simp]: "drop 2 (put16 w @ rest) = rest"
  by (simp add: put16_def)

lemma padded_ge: "n \<le> padded n"
  unfolding padded_def by presburger

lemma padded_form:
  obtains q r where "n = 4 * q + r" "r < 4" "padded n = (if r = 0 then 4 * q else 4 * (q + 1))"
proof -
  obtain q r where n: "n = 4 * q + r" "r < 4" by (metis mod_less_divisor mult_div_mod_eq zero_less_numeral)
  moreover from n have "n mod 4 = r" by simp
  ultimately have "padded n = (if r = 0 then 4 * q else 4 * (q + 1))" by (simp add: padded_def)
  with n that show ?thesis by blast
qed

lemma padded_mod: "padded n mod 4 = 0"
  by (rule padded_form [of n]) (simp split: if_splits)

lemma padded_aligned:
  assumes "n \<le> m" and "m mod 4 = 0"
  shows "padded n \<le> m"
proof -
  obtain k where k: "m = 4 * k" using assms(2) by auto
  obtain q r where n: "n = 4 * q + r" "padded n = (if r = 0 then 4 * q else 4 * (q + 1))"
    by (rule padded_form [of n])
  have "r = 0 \<or> 4 * (q + 1) \<le> m" using assms(1) k n(1) by arith
  then show ?thesis using n assms(1) by (cases "r = 0") simp_all
qed

lemma unat_len16: "n < 65536 \<Longrightarrow> unat (of_nat n :: 16 word) = n"
  by (simp add: unat_of_nat)

lemma unat_len16_add4:
  assumes "n + 4 < 65536"
  shows "unat (4 + of_nat n :: 16 word) = 4 + n"
proof -
  have "(4 + of_nat n :: 16 word) = of_nat (4 + n)" by simp
  then show ?thesis using assms unat_len16 [of "4 + n"] by simp
qed

text \<open>One attribute in front of the rest.\<close>

lemma encode_attr_split:
  fixes t v rest
  defines "a \<equiv> encode_attr (t, v) @ rest"
  assumes "length v + 4 < 65536"
  shows "be16 a = t" "be16 (drop 2 a) = of_nat (length v)" "4 + padded (length v) \<le> length a"
    "take (length v) (drop 4 a) = v" "drop (4 + padded (length v)) a = rest"
proof -
  let ?pad = "replicate (padded (length v) - length v) (0 :: 8 word)"
  have a: "a = put16 t @ put16 (of_nat (length v)) @ v @ ?pad @ rest"
    by (simp add: a_def encode_attr_def)
  show "be16 a = t" "be16 (drop 2 a) = of_nat (length v)" unfolding a by simp_all
  have d4: "drop 4 a = v @ ?pad @ rest" unfolding a by (simp add: put16_def)
  then show "take (length v) (drop 4 a) = v" by simp
  have "drop (4 + padded (length v)) a = drop (padded (length v)) (drop 4 a)" by (simp add: add.commute)
  also have "\<dots> = rest" using d4 padded_ge [of "length v"] by simp
  finally show "drop (4 + padded (length v)) a = rest" .
  show "4 + padded (length v) \<le> length a" unfolding a using padded_ge [of "length v"] by simp
qed

lemma parse_attrs_attr:
  assumes "length v + 4 < 65536"
  shows "parse_attrs (encode_attr (t, v) @ rest) m =
     (if t = stunAttrXORMappedAddress then Ret (parseXORMappedAddress v)
      else if t = stunAttrMappedAddress then
        (case parseMappedAddress v of Inl err \<Rightarrow> Ret (Inl err) | Inr addr \<Rightarrow> parse_attrs rest (Some addr))
      else parse_attrs rest m)"
proof -
  note s = encode_attr_split [OF assms, of t rest]
  have n: "unat (of_nat (length v) :: 16 word) = length v" "unat (4 + of_nat (length v) :: 16 word) = 4 + length v"
    using assms by (simp_all add: unat_len16 unat_len16_add4)
  have len: "length v \<le> length (encode_attr (t, v) @ rest) - 4" "\<not> length (encode_attr (t, v) @ rest) < 4"
    using s(3) padded_ge [of "length v"] by linarith+
  show ?thesis
    by (subst parse_attrs.simps) (use s len in \<open>simp add: n Let_def linorder_not_less\<close>)
qed

lemma XOR_twice: "(a XOR b) XOR b = a" for a b :: "'a :: len word"
  by (rule bit_word_eqI) (auto simp: bit_simps)

lemma parseXORMappedAddress_xor_value:
  assumes "length ip = 4"
  shows "parseXORMappedAddress (xor_value ip port) = Inr \<lparr>ma_IP = ip, ma_Port = uint port\<rparr>"
proof -
  let ?c = "put32 stunMagicCookie" and ?p = "port XOR ucast (drop_bit 16 stunMagicCookie)"
  have v: "xor_value ip port = 0 # stunFamilyIPv4 # put16 ?p @ map2 (XOR) ip ?c" by (simp add: xor_value_def)
  have "map (\<lambda>i. xor_value ip port ! (4 + i) XOR ?c ! i) [0..<4] = map (\<lambda>i. (ip ! i XOR ?c ! i) XOR ?c ! i) [0..<4]"
    unfolding v using assms by (intro map_cong) (auto simp: put16_def)
  also have "\<dots> = ip" using assms by (simp only: XOR_twice) (metis map_nth)
  finally have ip: "map (\<lambda>i. xor_value ip port ! (4 + i) XOR ?c ! i) [0..<4] = ip" .
  have "be16 (drop 2 (xor_value ip port)) XOR ucast (drop_bit 16 stunMagicCookie) = port"
    unfolding v by (simp add: XOR_twice)
  moreover have "length (xor_value ip port) = 8" "xor_value ip port ! 1 = stunFamilyIPv4" unfolding v using assms by simp_all
  ultimately show ?thesis unfolding parseXORMappedAddress_def Let_def ip by simp
qed

lemma parse_attrs_skip:
  assumes "\<forall>(t, v) \<in> set as. t \<noteq> stunAttrXORMappedAddress \<and> length v + 4 < 65536 \<and>
      (t = stunAttrMappedAddress \<longrightarrow> (\<exists>m. parseMappedAddress v = Inr m))"
  shows "\<exists>m'. parse_attrs (concat (map encode_attr as) @ rest) m = parse_attrs rest m'"
  using assms
proof (induction as arbitrary: m)
  case (Cons a as)
  obtain t v where a: "a = (t, v)" by (cases a)
  have v: "length v + 4 < 65536" "t \<noteq> stunAttrXORMappedAddress" using Cons.prems a by auto
  obtain m1 where "parse_attrs (encode_attr (t, v) @ concat (map encode_attr as) @ rest) m =
      parse_attrs (concat (map encode_attr as) @ rest) m1"
    using Cons.prems a v by (cases "t = stunAttrMappedAddress") (auto simp: parse_attrs_attr)
  then show ?case using Cons a by fastforce
qed auto

lemma parseBindingResponse_response:
  assumes "length tid = 12" and "length body < 65536"
  shows "parseBindingResponse (stun_response tid body @ trailing) tid = parse_attrs body None"
proof -
  let ?d = "stun_response tid body @ trailing"
  have d: "?d = put16 stunBindingSuccessResponse @ put16 (of_nat (length body)) @ put32 stunMagicCookie @ tid @ body @ trailing"
    by (simp add: stun_response_def)
  have d4: "drop 4 ?d = put32 stunMagicCookie @ tid @ body @ trailing" unfolding d by (simp add: put16_def)
  have "drop 8 ?d = drop 4 (drop 4 ?d)" by (simp only: drop_drop) simp
  then have d8: "drop 8 ?d = tid @ body @ trailing" unfolding d4 by simp
  have "drop 20 ?d = drop 12 (drop 8 ?d)" by (simp only: drop_drop) simp
  then have d20: "drop 20 ?d = body @ trailing" unfolding d8 using assms(1) by simp
  have b: "be16 ?d = stunBindingSuccessResponse" "be16 (drop 2 ?d) = of_nat (length body)"
    "length ?d = 20 + length body + length trailing" unfolding d using assms(1) by simp_all
  show ?thesis
    unfolding parseBindingResponse_def Let_def d4 d8 d20 b using assms by (simp add: unat_len16)
qed

lemma parse_attrs_no_panic:
  "length attrs mod 4 = 0 \<Longrightarrow> length attrs < 65536 \<Longrightarrow> \<exists>r. parse_attrs attrs m = Ret r"
proof (induction attrs m rule: parse_attrs.induct)
  case (1 attrs mapped)
  let ?n = "unat (be16 (drop 2 attrs))"
  show ?case
  proof (cases "length attrs < 4 \<or> ?n > length attrs - 4")
    case True
    then show ?thesis by (subst parse_attrs.simps) (auto simp: Let_def)
  next
    case False
    have n: "?n \<le> length attrs - 4" "length attrs \<ge> 4" using False by auto
    have "(length attrs - 4) mod 4 = 0" using "1.prems"(1) le_mod_geq [OF n(2)] by simp
    then have p: "4 + padded ?n \<le> length attrs" using padded_aligned [OF n(1)] n(2) by simp
    have "(4 + be16 (drop 2 attrs) :: 16 word) = 4 + of_nat ?n" by simp
    then have h: "\<not> unat (4 + be16 (drop 2 attrs) :: 16 word) < 4"
      using unat_len16_add4 [of ?n] n "1.prems"(2) by simp
    have "(length attrs - (4 + padded ?n)) mod 4 = 0"
      using "1.prems"(1) p padded_mod [of ?n] by (simp add: mod_eq_0_iff_dvd dvd_diff_nat)
    then have IH: "\<exists>r. parse_attrs (drop (4 + padded ?n) attrs) m' = Ret r" for m'
      using "1.IH" False h p "1.prems"(2) by (cases m') (auto simp: Let_def)
    show ?thesis using False h p IH by (subst parse_attrs.simps) (auto simp: Let_def split: sum.splits)
  qed
qed

lemma encode_attr_length: "length (encode_attr (t, v)) = 4 + padded (length v)"
  using padded_ge [of "length v"] by (simp add: encode_attr_def)

lemma attr_length_le:
  "(t, v) \<in> set as \<Longrightarrow> length v + 4 \<le> length (concat (map encode_attr as))"
proof (induction as)
  case (Cons a as)
  then show ?case using padded_ge [of "length v"] by (cases a) (auto simp: encode_attr_length)
qed simp

section \<open>Properties of the codec\<close>

text \<open>C15: What a server encodes the client decodes: from a success response that carries the
  client's transaction id and an XOR-MAPPED-ADDRESS, behind any other attributes with their
  padding, the parser returns exactly the address and port that were put in.\<close>

theorem stun_round_trip:
  fixes as :: "(16 word \<times> byte_list) list" and port :: "16 word"
  assumes "length tid = 12" and "length ip = 4"
    and "length (concat (map encode_attr as) @ encode_attr (stunAttrXORMappedAddress, xor_value ip port) @ rest) < 65536"
    and "\<forall>(t, v) \<in> set as. t \<noteq> stunAttrXORMappedAddress \<and>
      (t = stunAttrMappedAddress \<longrightarrow> (\<exists>m. parseMappedAddress v = Inr m))"
  shows "parseBindingResponse
    (stun_response tid (concat (map encode_attr as) @ encode_attr (stunAttrXORMappedAddress, xor_value ip port) @ rest) @
     trailing) tid = Ret (Inr \<lparr>ma_IP = ip, ma_Port = uint port\<rparr>)"
proof -
  let ?x = "encode_attr (stunAttrXORMappedAddress, xor_value ip port) @ rest"
  have "length (concat (map encode_attr as)) < 65536" using assms(3) by simp
  then have "\<forall>(t, v) \<in> set as. length v + 4 < 65536" using attr_length_le by fastforce
  then obtain m where "parse_attrs (concat (map encode_attr as) @ ?x) None = parse_attrs ?x m"
    using parse_attrs_skip [of as ?x None] assms(4) by fast
  also have "\<dots> = Ret (parseXORMappedAddress (xor_value ip port))"
    using assms(2) by (simp add: parse_attrs_attr xor_value_def)
  finally show ?thesis
    using parseBindingResponse_response [OF assms(1,3)] parseXORMappedAddress_xor_value [OF assms(2)] by simp
qed

definition ex_tid :: byte_list where "ex_tid = [1, 2, 3, 4, 5, 6, 7, 8, 9, 10, 11, 12]"

theorem stun_round_trip_witness:
  "parseBindingResponse (stun_response ex_tid (encode_attr (0x8022, [112, 108, 120]) @
      encode_attr (stunAttrXORMappedAddress, xor_value [203, 0, 113, 7] 51820))) ex_tid =
   Ret (Inr \<lparr>ma_IP = [203, 0, 113, 7], ma_Port = 51820\<rparr>)"
  using stun_round_trip [of ex_tid "[203, 0, 113, 7]" "[(0x8022, [112, 108, 120])]" 51820 "[]" "[]"]
  by (simp add: ex_tid_def encode_attr_length xor_value_def padded_def)

text \<open>The parser never fails on a response whose declared length is a multiple of four, as the
  protocol requires, whatever its attributes: it returns an address or an error.  A response whose
  last attribute has an odd length and no padding makes it slice out of bounds, which panics.\<close>

theorem parseBindingResponse_panics:
  "(4 dvd unat (be16 (drop 2 data)) \<longrightarrow> (\<exists>r. parseBindingResponse data tid = Ret r)) \<and>
   (length tid' = 12 \<and> t \<noteq> stunAttrXORMappedAddress \<and> t \<noteq> stunAttrMappedAddress \<and> length v mod 4 \<noteq> 0 \<and> length v < 65000 \<longrightarrow>
      parseBindingResponse (stun_response tid' (put16 t @ put16 (of_nat (length v)) @ v)) tid' = slice_panic)"
proof (intro conjI impI)
  assume a: "4 dvd unat (be16 (drop 2 data))"
  have "unat (be16 (drop 2 data)) < 65536" using unsigned_less [of "be16 (drop 2 data)"] by simp
  then show "\<exists>r. parseBindingResponse data tid = Ret r"
    using a parse_attrs_no_panic [of "take (unat (be16 (drop 2 data))) (drop 20 data)" None]
    by (auto simp: parseBindingResponse_def Let_def)
next
  assume a: "length tid' = 12 \<and> t \<noteq> stunAttrXORMappedAddress \<and> t \<noteq> stunAttrMappedAddress \<and>
    length v mod 4 \<noteq> 0 \<and> length v < 65000"
  let ?b = "put16 t @ put16 (of_nat (length v)) @ v"
  have n: "unat (of_nat (length v) :: 16 word) = length v" "unat (4 + of_nat (length v) :: 16 word) = 4 + length v"
    using a by (simp_all add: unat_len16 unat_len16_add4)
  have "length v < padded (length v)" using a by (simp add: padded_def)
  then have "parse_attrs ?b None = slice_panic"
    by (subst parse_attrs.simps) (use a in \<open>simp add: Let_def n\<close>)
  then show "parseBindingResponse (stun_response tid' ?b) tid' = slice_panic"
    using parseBindingResponse_response [of tid' ?b "[]"] a by simp
qed

theorem parseBindingResponse_panics_witness:
  "parseBindingResponse (stun_response ex_tid (put16 0x8022 @ put16 3 @ [112, 108, 120])) ex_tid = slice_panic \<and>
   (\<exists>r. parseBindingResponse (replicate 20 0) ex_tid = Ret r)"
proof -
  have "be16 (drop 2 (replicate 20 0)) = 0" by code_simp
  then show ?thesis
    using parseBindingResponse_panics [where data = "replicate 20 0" and tid = ex_tid and tid' = ex_tid
        and t = "0x8022" and v = "[112, 108, 120]"]
    by (simp add: ex_tid_def)
qed

end
