(* ===== verification/NatTraversal.thy ===== *)
theory NatTraversal
  imports Stun WireGuard
begin

text \<open>
  NAT traversal, \<open>internal/nat\<close>, and the endpoint exchange of \<open>internal/peerexchange\<close>: discovery of the
  public endpoint over the configured STUN servers, the report to the control plane, the refresh
  loop, and the exchanger that runs it against the WireGuard manager.

  Sockets, the random source and the control plane are functions on a state \<open>'n\<close> that the caller
  supplies.  A nil slice of servers is \<open>None\<close>.
\<close>

section \<open>config.go\<close>

record NATConfig =
  nc_Enabled :: bool
  nc_STUNServers :: "string list option"
  nc_RefreshInterval :: duration
  nc_Timeout :: duration

definition nc_servers :: "NATConfig \<Rightarrow> string list" where
  "nc_servers c = (case nc_STUNServers c of None \<Rightarrow> [] | Some l \<Rightarrow> l)"

definition DefaultSTUNServers :: "string list" where
  "DefaultSTUNServers = [''stun.l.google.com:19302'', ''stun.cloudflare.com:3478'']"

definition NATConfig_ApplyDefaults :: "NATConfig \<Rightarrow> NATConfig" where
  "NATConfig_ApplyDefaults c0 =
     (let c = (if nc_STUNServers c0 = None \<and> nc_RefreshInterval c0 = 0 \<and> nc_Timeout c0 = 0
               then c0\<lparr>nc_Enabled := True\<rparr> else c0);
          c = (if nc_STUNServers c = None then c\<lparr>nc_STUNServers := Some DefaultSTUNServers\<rparr> else c);
          c = (if nc_RefreshInterval c = 0 then c\<lparr>nc_RefreshInterval := 60 * Second\<rparr> else c);
          c = (if nc_Timeout c = 0 then c\<lparr>nc_Timeout := 5 * Second\<rparr> else c)
      in c)"

definition NATConfig_Validate :: "NATConfig \<Rightarrow> string option" where
  "NATConfig_Validate c =
     (if \<not> nc_Enabled c then None
      else if length (nc_servers c) = 0 then Some ''nat: config: STUNServers must not be empty when enabled''
      else if nc_RefreshInterval c < 10 * Second then Some ''nat: config: RefreshInterval must be at least 10s''
      else if nc_Timeout c \<le> 0 then Some ''nat: config: Timeout must be positive''
      else None)"

section \<open>udp\_stun.go\<close>

record 'n udp_net =
  un_ctx_Err :: "'n \<Rightarrow> string option"
  un_ResolveUDPAddr :: "string \<Rightarrow> 'n \<Rightarrow> string + string"
  un_DialUDP :: "int \<Rightarrow> string \<Rightarrow> 'n \<Rightarrow> string option \<times> 'n"
  un_Now :: "'n \<Rightarrow> time"
  un_ctx_Deadline :: "'n \<Rightarrow> time option"
  un_SetDeadline :: "time \<Rightarrow> 'n \<Rightarrow> string option \<times> 'n"
  un_rand_Read :: "'n \<Rightarrow> (string + byte_list) \<times> 'n"
  un_Write :: "byte_list \<Rightarrow> 'n \<Rightarrow> string option \<times> 'n"
  un_Read :: "nat \<Rightarrow> 'n \<Rightarrow> (string + byte_list) \<times> 'n"
  un_Close :: "'n \<Rightarrow> 'n"

definition stun_exchange :: "'n udp_net \<Rightarrow> duration \<Rightarrow> 'n \<Rightarrow> (string + MappedAddress) outcome \<times> 'n" where
  "stun_exchange u timeout n =
     (let deadline = un_Now u n + timeout;
          deadline = (case un_ctx_Deadline u n of Some c \<Rightarrow> if c < deadline then c else deadline | None \<Rightarrow> deadline)
      in case un_SetDeadline u deadline n of
           (Some err, n) \<Rightarrow> (Ret (Inl (''nat: udp stun: set deadline: '' @ err)), n)
         | (None, n) \<Rightarrow>
      (case un_rand_Read u n of
         (Inl err, n) \<Rightarrow> (Ret (Inl (''nat: udp stun: random tx id: '' @ err)), n)
       | (Inr txID, n) \<Rightarrow>
      (case un_Write u (buildBindingRequest txID) n of
         (Some err, n) \<Rightarrow> (Ret (Inl (''nat: udp stun: write: '' @ err)), n)
       | (None, n) \<Rightarrow>
      (case un_Read u 1024 n of
         (Inl err, n) \<Rightarrow> (Ret (Inl (''nat: udp stun: read: '' @ err)), n)
       | (Inr buf, n) \<Rightarrow>
      (case parseBindingResponse buf txID of
         Panic v \<Rightarrow> (Panic v, n)
       | Ret (Inl err) \<Rightarrow> (Ret (Inl (''nat: udp stun: parse: '' @ err)), n)
       | Ret (Inr addr) \<Rightarrow> (Ret (Inr addr), n))))))"

definition UDPSTUNClient_Bind ::
    "'n udp_net \<Rightarrow> duration \<Rightarrow> string \<Rightarrow> int \<Rightarrow> 'n \<Rightarrow> (string + MappedAddress) outcome \<times> 'n" where
  "UDPSTUNClient_Bind u timeout serverAddr localPort n =
     (case un_ctx_Err u n of
        Some err \<Rightarrow> (Ret (Inl (''nat: udp stun: '' @ err)), n)
      | None \<Rightarrow>
      (case un_ResolveUDPAddr u serverAddr n of
         Inl err \<Rightarrow> (Ret (Inl (''nat: udp stun: resolve: '' @ err)), n)
       | Inr remoteAddr \<Rightarrow>
      (case un_DialUDP u localPort remoteAddr n of
         (Some err, n) \<Rightarrow> (Ret (Inl (''nat: udp stun: dial: '' @ err)), n)
       | (None, n) \<Rightarrow> let (r, n) = stun_exchange u timeout n in (r, un_Close u n))))"

section \<open>discoverer.go\<close>

datatype NATType = NATNone | NATFullCone | NATSymmetric | NATUnknown

fun NATType_string :: "NATType \<Rightarrow> string" where
  "NATType_string NATNone = ''none''"
| "NATType_string NATFullCone = ''full_cone''"
| "NATType_string NATSymmetric = ''symmetric''"
| "NATType_string NATUnknown = ''unknown''"

record NATInfo =
  ni_PublicEndpoint :: string
  ni_Type :: string

record DiscoveryResult =
  dr_Endpoint :: string
  dr_NATType :: NATType

record EndpointReport =
  er_PublicEndpoint :: string
  er_NATType :: string

record PeerEndpoint =
  pe_PeerID :: string
  pe_Endpoint :: string

record 'n nat_env =
  ne_Bind :: "string \<Rightarrow> int \<Rightarrow> 'n \<Rightarrow> (string + MappedAddress) outcome \<times> 'n"
  ne_ReportEndpoint :: "string \<Rightarrow> EndpointReport \<Rightarrow> 'n \<Rightarrow> (string + PeerEndpoint list option) \<times> 'n"
  ne_UpdatePeer :: "Peer \<Rightarrow> 'n \<Rightarrow> string option \<times> 'n"

record Discoverer =
  di_cfg :: NATConfig
  di_localPort :: int
  di_lastResult :: "NATInfo option"

definition NewDiscoverer :: "NATConfig \<Rightarrow> int \<Rightarrow> Discoverer" where
  "NewDiscoverer cfg localPort = \<lparr>di_cfg = cfg, di_localPort = localPort, di_lastResult = None\<rparr>"

definition updateLastResult :: "string \<Rightarrow> NATType \<Rightarrow> Discoverer \<Rightarrow> Discoverer" where
  "updateLastResult endpoint natType d =
     d\<lparr>di_lastResult := Some \<lparr>ni_PublicEndpoint = endpoint, ni_Type = NATType_string natType\<rparr>\<rparr>"

text \<open>The first server that answers, with its address and the servers after it.\<close>

fun first_binding ::
    "'n nat_env \<Rightarrow> int \<Rightarrow> string list \<Rightarrow> 'n \<Rightarrow> (MappedAddress \<times> string list) option outcome \<times> 'n" where
  "first_binding e port [] n = (Ret None, n)"
| "first_binding e port (server # rest) n =
     (case ne_Bind e server port n of
        (Panic v, n) \<Rightarrow> (Panic v, n)
      | (Ret (Inl err), n) \<Rightarrow> first_binding e port rest n
      | (Ret (Inr addr), n) \<Rightarrow> (Ret (Some (addr, rest)), n))"

definition Discover :: "'n nat_env \<Rightarrow> Discoverer \<Rightarrow> 'n \<Rightarrow> (string + DiscoveryResult) outcome \<times> Discoverer \<times> 'n" where
  "Discover e d n =
     (case first_binding e (di_localPort d) (nc_servers (di_cfg d)) n of
        (Panic v, n) \<Rightarrow> (Panic v, d, n)
      | (Ret None, n) \<Rightarrow> (Ret (Inl ''nat: discover: all STUN servers failed''), d, n)
      | (Ret (Some (firstAddr, remaining)), n) \<Rightarrow>
          let endpoint = MappedAddress_String firstAddr in
          if ma_Port firstAddr = di_localPort d then
            (Ret (Inr \<lparr>dr_Endpoint = endpoint, dr_NATType = NATNone\<rparr>), updateLastResult endpoint NATNone d, n)
          else
            (case first_binding e (di_localPort d) remaining n of
               (Panic v, n) \<Rightarrow> (Panic v, d, n)
             | (Ret second, n) \<Rightarrow>
                 let natType = (case second of
                       None \<Rightarrow> NATUnknown
                     | Some (secondAddr, _) \<Rightarrow>
                         if ma_IP firstAddr = ma_IP secondAddr \<and> ma_Port firstAddr = ma_Port secondAddr
                         then NATFullCone else NATSymmetric)
                 in (Ret (Inr \<lparr>dr_Endpoint = endpoint, dr_NATType = natType\<rparr>), updateLastResult endpoint natType d, n)))"

section \<open>reporter.go\<close>

fun apply_endpoints :: "'n nat_env \<Rightarrow> PeerEndpoint list \<Rightarrow> 'n \<Rightarrow> 'n" where
  "apply_endpoints e [] n = n"
| "apply_endpoints e (pe # pes) n =
     (if pe_Endpoint pe = '''' then apply_endpoints e pes n
      else apply_endpoints e pes (snd (ne_UpdatePeer e
        \<lparr>p_ID = pe_PeerID pe, p_PublicKey = '''', p_MeshIP = '''', p_Endpoint = pe_Endpoint pe,
         p_AllowedIPs = [], p_PSK = ''''\<rparr> n)))"

definition reportAndApply :: "'n nat_env \<Rightarrow> string \<Rightarrow> DiscoveryResult \<Rightarrow> 'n \<Rightarrow> string option \<times> 'n" where
  "reportAndApply e nodeID result n =
     (case ne_ReportEndpoint e nodeID
        \<lparr>er_PublicEndpoint = dr_Endpoint result, er_NATType = NATType_string (dr_NATType result)\<rparr> n of
        (Inl err, n) \<Rightarrow> (Some (''nat: report endpoint: '' @ err), n)
      | (Inr None, n) \<Rightarrow> (None, n)
      | (Inr (Some pes), n) \<Rightarrow> (None, apply_endpoints e pes n))"

text \<open>
  The refresh loop, over the sequence of ready cases its select takes.  It returns when the context
  is done; otherwise it is still waiting when the sequence ends, which is \<open>None\<close>.
\<close>

datatype nat_event = CtxDone | RefreshTick

fun refresh_loop ::
    "'n nat_env \<Rightarrow> string \<Rightarrow> nat_event list \<Rightarrow> string \<Rightarrow> Discoverer \<Rightarrow> 'n \<Rightarrow>
     string option outcome option \<times> string \<times> Discoverer \<times> 'n" where
  "refresh_loop e nodeID [] prev d n = (None, prev, d, n)"
| "refresh_loop e nodeID (CtxDone # es) prev d n = (Some (Ret (Some ''context canceled'')), prev, d, n)"
| "refresh_loop e nodeID (RefreshTick # es) prev d n =
     (case Discover e d n of
        (Panic v, d, n) \<Rightarrow> (Some (Panic v), prev, d, n)
      | (Ret (Inl err), d, n) \<Rightarrow> refresh_loop e nodeID es prev d n
      | (Ret (Inr result), d, n) \<Rightarrow>
          refresh_loop e nodeID es (dr_Endpoint result) d (snd (reportAndApply e nodeID result n)))"

definition Discoverer_Run ::
    "'n nat_env \<Rightarrow> string \<Rightarrow> nat_event list \<Rightarrow> Discoverer \<Rightarrow> 'n \<Rightarrow>
     string option outcome option \<times> Discoverer \<times> 'n" where
  "Discoverer_Run e nodeID events d n =
     (case Discover e d n of
        (Panic v, d, n) \<Rightarrow> (Some (Panic v), d, n)
      | (Ret (Inl err), d, n) \<Rightarrow> (Some (Ret (Some (''nat: initial discovery: '' @ err))), d, n)
      | (Ret (Inr result), d, n) \<Rightarrow>
          let n = snd (reportAndApply e nodeID result n);
              (r, prev, d, n) = refresh_loop e nodeID events (dr_Endpoint result) d n
          in (r, d, n))"

section \<open>exchanger.go\<close>

text \<open>
  The exchanger hands the discoverer a reporter that calls the control plane client and the
  WireGuard manager.  The state behind both is the pair of the network and the manager's state.
\<close>

record 'c exchange_env =
  xe_Bind :: "string \<Rightarrow> int \<Rightarrow> 'c \<Rightarrow> (string + MappedAddress) outcome \<times> 'c"
  xe_ReportEndpoint :: "string \<Rightarrow> EndpointReport \<Rightarrow> 'c \<Rightarrow> (string + PeerEndpoint list option) \<times> 'c"

definition exchange_nat_env :: "'c exchange_env \<Rightarrow> 'd WGController \<Rightarrow> ('c \<times> WGManager \<times> 'd) nat_env" where
  "exchange_nat_env x ctrl =
     \<lparr>ne_Bind = (\<lambda>server port (c, wg). let (r, c) = xe_Bind x server port c in (r, c, wg)),
      ne_ReportEndpoint = (\<lambda>nodeID req (c, wg). let (r, c) = xe_ReportEndpoint x nodeID req c in (r, c, wg)),
      ne_UpdatePeer = (\<lambda>peer (c, wg). let (r, wg) = WG_UpdatePeer ctrl peer wg in (r, c, wg))\<rparr>"

record Exchanger =
  ex_discoverer :: Discoverer
  ex_cfg :: NATConfig

definition NewExchanger :: "Discoverer \<Rightarrow> NATConfig \<Rightarrow> Exchanger" where
  "NewExchanger d cfg = \<lparr>ex_discoverer = d, ex_cfg = NATConfig_ApplyDefaults cfg\<rparr>"

definition Exchanger_Run ::
    "'c exchange_env \<Rightarrow> 'd WGController \<Rightarrow> string \<Rightarrow> nat_event list \<Rightarrow> Exchanger \<Rightarrow> 'c \<times> WGManager \<times> 'd \<Rightarrow>
     string option outcome option \<times> Exchanger \<times> 'c \<times> WGManager \<times> 'd" where
  "Exchanger_Run x ctrl nodeID events ex n =
     (if \<not> nc_Enabled (ex_cfg ex) then (Some (Ret None), ex, n)
      else let (r, d, n) = Discoverer_Run (exchange_nat_env x ctrl) nodeID events (ex_discoverer ex) n
           in (r, ex\<lparr>ex_discoverer := d\<rparr>, n))"

definition Exchanger_LastResult :: "Exchanger \<Rightarrow> NATInfo option" where
  "Exchanger_LastResult ex = di_lastResult (ex_discoverer ex)"

section \<open>What discovery computes\<close>

text \<open>The addresses that the answering servers give, in the order of the servers.\<close>

definition answered :: "(string \<Rightarrow> string + MappedAddress) \<Rightarrow> string list \<Rightarrow> MappedAddress list" where
  "answered ans servers = List.map_filter (\<lambda>s. case ans s of Inl _ \<Rightarrow> None | Inr a \<Rightarrow> Some a) servers"

lemma answered_simps [simp]:
  "answered ans [] = []"
  "answered ans (s # l) = (case ans s of Inl _ \<Rightarrow> answered ans l | Inr a \<Rightarrow> a # answered ans l)"
  by (auto simp: answered_def List.map_filter_simps split: sum.splits)

definition answers_as :: "'n nat_env \<Rightarrow> int \<Rightarrow> (string \<Rightarrow> string + MappedAddress) \<Rightarrow> bool" where
  "answers_as e port ans \<longleftrightarrow> (\<forall>s n. fst (ne_Bind e s port n) = Ret (ans s))"

lemma first_binding_answered:
  assumes "answers_as e port ans"
  shows "\<exists>n'. case answered ans servers of
      [] \<Rightarrow> first_binding e port servers n = (Ret None, n')
    | a # as \<Rightarrow> \<exists>rest. first_binding e port servers n = (Ret (Some (a, rest)), n') \<and> answered ans rest = as"
proof (induction servers arbitrary: n)
  case (Cons s l)
  obtain n1 where b: "ne_Bind e s port n = (Ret (ans s), n1)"
    using assms unfolding answers_as_def by (metis prod.collapse)
  show ?case
  proof (cases "ans s")
    case (Inl err)
    then have "first_binding e port (s # l) n = first_binding e port l n1" using b by simp
    then show ?thesis using Cons [of n1] Inl by (cases "answered ans l") (auto simp del: first_binding.simps)
  next
    case (Inr a)
    then show ?thesis using b by simp
  qed
qed simp

definition classify :: "MappedAddress \<Rightarrow> int \<Rightarrow> MappedAddress list \<Rightarrow> NATType" where
  "classify a port as =
     (if ma_Port a = port then NATNone
      else case as of [] \<Rightarrow> NATUnknown | b # _ \<Rightarrow> if a = b then NATFullCone else NATSymmetric)"

lemma WG_UpdatePeer_without_key:
  assumes "kernel_laws k keys" and "p_PublicKey peer = ''''"
  shows "snd (WG_UpdatePeer (NewNetlinkController k) peer s) = s"
proof -
  obtain m d where s: "s = (m, d)" by (cases s)
  have "Netlink_AddPeer k i cfg d = (Some err, d)" if "pc_PublicKey cfg = ''''" "Netlink_peer k cfg d = Inl err" for i cfg err
    using that by (simp add: Netlink_AddPeer_def)
  moreover have "\<exists>err. Netlink_peer k cfg d = Inl err" if "pc_PublicKey cfg = ''''" for cfg
    using Netlink_peer_key(2) [OF assms(1)] that by (metis list.size(3) sumE zero_neq_numeral)
  ultimately have add: "\<exists>err. Netlink_AddPeer k i cfg d = (Some err, d)" if "pc_PublicKey cfg = ''''" for i cfg
    using that by metis
  have "DecodeString '''' = Some ''''" by code_simp
  then have key: "PeerConfigFromAPI peer = Inr cfg \<Longrightarrow> pc_PublicKey cfg = ''''" for cfg
    using assms(2) by (auto simp: PeerConfigFromAPI_def split: option.splits if_splits)
  show ?thesis
  proof (cases "PeerConfigFromAPI peer")
    case (Inr cfg)
    then obtain err where "Netlink_AddPeer k (wgc_InterfaceName (wm_cfg m)) cfg d = (Some err, d)"
      using add key by blast
    then show ?thesis using s Inr by (simp add: WG_UpdatePeer_def NewNetlinkController_def)
  qed (simp add: WG_UpdatePeer_def s)
qed

text \<open>Every operation of the discoverer keeps what the three environment operations keep.\<close>

definition env_keeps :: "('n \<Rightarrow> 'a) \<Rightarrow> 'n nat_env \<Rightarrow> bool" where
  "env_keeps f e \<longleftrightarrow> (\<forall>s port n. f (snd (ne_Bind e s port n)) = f n) \<and>
     (\<forall>i r n. f (snd (ne_ReportEndpoint e i r n)) = f n) \<and>
     (\<forall>i ep n. f (snd (ne_UpdatePeer e \<lparr>p_ID = i, p_PublicKey = '''', p_MeshIP = '''', p_Endpoint = ep,
        p_AllowedIPs = [], p_PSK = ''''\<rparr> n)) = f n)"

lemma env_keeps_Bind: "env_keeps f e \<Longrightarrow> ne_Bind e s port n = (r, n') \<Longrightarrow> f n' = f n"
  and env_keeps_Report: "env_keeps f e \<Longrightarrow> ne_ReportEndpoint e i q n = (r', n') \<Longrightarrow> f n' = f n"
  unfolding env_keeps_def by (metis snd_conv)+

lemma first_binding_keeps:
  "env_keeps f e \<Longrightarrow> first_binding e port servers n = (r, n') \<Longrightarrow> f n' = f n"
  by (induction servers arbitrary: n)
     (auto dest: env_keeps_Bind split: prod.splits outcome.splits sum.splits)

lemma Discover_keeps:
  assumes "env_keeps f e" and "Discover e d n = (r, d', n')"
  shows "f n' = f n"
  using assms(2) unfolding Discover_def Let_def
  by (auto dest!: first_binding_keeps [OF assms(1)] split: prod.splits outcome.splits option.splits if_splits)

lemma apply_endpoints_keeps: "env_keeps f e \<Longrightarrow> f (apply_endpoints e pes n) = f n"
  by (induction pes arbitrary: n) (auto simp: env_keeps_def)

lemma reportAndApply_keeps: "env_keeps f e \<Longrightarrow> f (snd (reportAndApply e nodeID result n)) = f n"
  unfolding reportAndApply_def
  by (auto simp: apply_endpoints_keeps dest: env_keeps_Report split: prod.splits sum.splits option.splits)

lemma refresh_loop_keeps:
  assumes "env_keeps f e" and "refresh_loop e nodeID es prev d n = (r, prev', d', n')"
  shows "f n' = f n"
  using assms
  by (induction e nodeID es prev d n arbitrary: r prev' d' n' rule: refresh_loop.induct)
     (auto simp: reportAndApply_keeps dest: Discover_keeps split: prod.splits outcome.splits sum.splits)

lemma Discoverer_Run_keeps:
  assumes "env_keeps f e" and "Discoverer_Run e nodeID es d n = (r, d', n')"
  shows "f n' = f n"
  using assms(2) unfolding Discoverer_Run_def Let_def
  by (auto simp: reportAndApply_keeps [OF assms(1)] dest!: Discover_keeps [OF assms(1)] refresh_loop_keeps [OF assms(1)]
      split: prod.splits outcome.splits sum.splits)

lemma exchange_env_keeps:
  "kernel_laws k keys \<Longrightarrow> env_keeps snd (exchange_nat_env x (NewNetlinkController k))"
  unfolding env_keeps_def exchange_nat_env_def
  by (auto simp: split_beta WG_UpdatePeer_without_key)

section \<open>Properties of NAT traversal\<close>

text \<open>Discovery reports the mapped address of the first STUN server that answers and classifies the
  NAT from at most two answers: none when the mapped port is the local port, full cone when the
  second answer agrees with the first, symmetric when it differs, unknown without a second answer.
  It fails exactly when no server answers, and then keeps the last result.\<close>

theorem Discover_classifies:
  assumes "answers_as e (di_localPort d) ans"
  shows "case answered ans (nc_servers (di_cfg d)) of
      [] \<Rightarrow> \<exists>n'. Discover e d n = (Ret (Inl ''nat: discover: all STUN servers failed''), d, n')
    | a # as \<Rightarrow> \<exists>n'. Discover e d n =
        (Ret (Inr \<lparr>dr_Endpoint = MappedAddress_String a, dr_NATType = classify a (di_localPort d) as\<rparr>),
         d\<lparr>di_lastResult := Some \<lparr>ni_PublicEndpoint = MappedAddress_String a,
             ni_Type = NATType_string (classify a (di_localPort d) as)\<rparr>\<rparr>, n')"
proof (cases "answered ans (nc_servers (di_cfg d))")
  case Nil
  then obtain n1 where "first_binding e (di_localPort d) (nc_servers (di_cfg d)) n = (Ret None, n1)"
    using first_binding_answered [OF assms, of "nc_servers (di_cfg d)" n] by auto
  then show ?thesis using Nil by (simp add: Discover_def)
next
  case (Cons a as)
  then obtain n1 rest where
    f: "first_binding e (di_localPort d) (nc_servers (di_cfg d)) n = (Ret (Some (a, rest)), n1)" and r: "answered ans rest = as"
    using first_binding_answered [OF assms, of "nc_servers (di_cfg d)" n] by auto
  show ?thesis
  proof (cases as)
    case Nil
    then obtain n2 where "first_binding e (di_localPort d) rest n1 = (Ret None, n2)"
      using first_binding_answered [OF assms, of rest n1] r by auto
    then show ?thesis using Cons f Nil by (simp add: Discover_def Let_def classify_def updateLastResult_def)
  next
    case (Cons b bs)
    then obtain n2 l where "first_binding e (di_localPort d) rest n1 = (Ret (Some (b, l)), n2)"
      using first_binding_answered [OF assms, of rest n1] r by auto
    then show ?thesis using \<open>answered ans (nc_servers (di_cfg d)) = a # as\<close> f Cons
      by (simp add: Discover_def Let_def classify_def updateLastResult_def)
  qed
qed

definition ex_ans :: "string \<Rightarrow> string + MappedAddress" where
  "ex_ans s = (if s = ''a'' then Inr \<lparr>ma_IP = [203, 0, 113, 7], ma_Port = 4000\<rparr>
     else if s = ''b'' then Inr \<lparr>ma_IP = [203, 0, 113, 7], ma_Port = 4001\<rparr> else Inl ''timeout'')"

definition ex_disc :: Discoverer where
  "ex_disc = NewDiscoverer \<lparr>nc_Enabled = True, nc_STUNServers = Some [''down'', ''a'', ''b''],
     nc_RefreshInterval = 60 * Second, nc_Timeout = 5 * Second\<rparr> 51820"

definition ex_nat_env :: "unit nat_env" where
  "ex_nat_env = \<lparr>ne_Bind = (\<lambda>s port n. (Ret (ex_ans s), n)),
     ne_ReportEndpoint = (\<lambda>i r n. (Inr None, n)), ne_UpdatePeer = (\<lambda>p n. (None, n))\<rparr>"

theorem Discover_classifies_witness:
  "\<exists>d'. Discover ex_nat_env ex_disc () =
     (Ret (Inr \<lparr>dr_Endpoint = MappedAddress_String \<lparr>ma_IP = [203, 0, 113, 7], ma_Port = 4000\<rparr>,
        dr_NATType = NATSymmetric\<rparr>), d', ())"
proof -
  have "answers_as ex_nat_env (di_localPort ex_disc) ex_ans" by (simp add: answers_as_def ex_nat_env_def)
  moreover have "answered ex_ans (nc_servers (di_cfg ex_disc)) =
      [\<lparr>ma_IP = [203, 0, 113, 7], ma_Port = 4000\<rparr>, \<lparr>ma_IP = [203, 0, 113, 7], ma_Port = 4001\<rparr>]" by code_simp
  moreover have "classify \<lparr>ma_IP = [203, 0, 113, 7], ma_Port = 4000\<rparr> (di_localPort ex_disc)
      [\<lparr>ma_IP = [203, 0, 113, 7], ma_Port = 4001\<rparr>] = NATSymmetric"
    by (simp add: classify_def ex_disc_def NewDiscoverer_def)
  ultimately show ?thesis using Discover_classifies [of ex_nat_env ex_disc ex_ans "()"] by auto
qed

text \<open>The endpoint exchange never changes a WireGuard peer.  The update that it builds from a
  reported peer endpoint has no public key, the controller refuses a key that is not 32 bytes long,
  and the error is only logged: whatever the control plane answers and however long the exchange
  runs, the device and the manager's index stay as they were.\<close>

theorem Exchanger_never_updates_peers:
  assumes "kernel_laws k keys"
    and "Exchanger_Run x (NewNetlinkController k) nodeID events ex (c, m, d) = (r, ex', c', m', d')"
  shows "m' = m \<and> d' = d"
  using assms(2) Discoverer_Run_keeps [OF exchange_env_keeps [OF assms(1), of x]]
  unfolding Exchanger_Run_def Let_def
  by (fastforce split: if_splits prod.splits)

text \<open>A kernel with one device whose peers are kept by key, and a control plane that reports a peer.\<close>

definition ex_kernel :: "wg_peer list kernel" where
  "ex_kernel = \<lparr>k_LinkAdd = (\<lambda>_ d. (None, d)), k_LinkByName = (\<lambda>_ _. LinkFound), k_LinkDel = (\<lambda>_ d. (None, d)),
     k_ParseAddr = (\<lambda>_. None), k_AddrAdd = (\<lambda>_ _ d. (None, d)), k_LinkSetUp = (\<lambda>_ d. (None, d)),
     k_LinkSetMTU = (\<lambda>_ _ d. (None, d)), k_wgctrl_New = (\<lambda>_. None),
     k_NewKey = (\<lambda>b. if length b = 32 then Inr b else Inl ''wgtypes: incorrect key size''),
     k_ResolveUDPAddr = Inr, k_ParseCIDR = Inr,
     k_ConfigureDevice = (\<lambda>_ u d. (None, case u of SetDevice _ _ \<Rightarrow> d
       | UpsertPeer p \<Rightarrow> p # filter (\<lambda>q. wp_PublicKey q \<noteq> wp_PublicKey p) d
       | DropPeer b \<Rightarrow> filter (\<lambda>q. wp_PublicKey q \<noteq> b) d))\<rparr>"

lemma ex_kernel_laws: "kernel_laws ex_kernel (\<lambda>_ d. wp_PublicKey ` set d)"
  by (auto simp: kernel_laws_def ex_kernel_def)

definition ex_exchange :: "unit exchange_env" where
  "ex_exchange = \<lparr>xe_Bind = (\<lambda>s port n. (Ret (ex_ans s), n)),
     xe_ReportEndpoint = (\<lambda>_ _ n. (Inr (Some [\<lparr>pe_PeerID = ''n2'', pe_Endpoint = ''198.51.100.4:51820''\<rparr>]), n))\<rparr>"

theorem Exchanger_never_updates_peers_witness:
  "\<exists>r ex' c'. Exchanger_Run ex_exchange (NewNetlinkController ex_kernel) ''n1'' [RefreshTick, CtxDone]
     (NewExchanger ex_disc (di_cfg ex_disc)) ((), ex_manager [], []) = (r, ex', c', ex_manager [], [])"
proof -
  obtain r ex' c' m' d' where run: "Exchanger_Run ex_exchange (NewNetlinkController ex_kernel) ''n1'' [RefreshTick, CtxDone]
     (NewExchanger ex_disc (di_cfg ex_disc)) ((), ex_manager [], []) = (r, ex', c', m', d')"
    by (metis prod.exhaust)
  then show ?thesis using Exchanger_never_updates_peers [OF ex_kernel_laws run] by blast
qed

end
