(* ===== verification/Tunnel.thy ===== *)
theory Tunnel
  imports EventVerifier Files
begin

text \<open>
  Secure access tunnelling, \<open>internal/tunnel\<close>: the sessions with their accept loop, the session
  manager with its expiry timers, the event handlers, the SSH server of the mesh with its session
  limit, and the host key.

  A session is served by one goroutine, so the record carries the place that goroutine has reached;
  every other operation may run between two of its steps.  Client connections are numbered.
  A timer armed by \<open>time.AfterFunc\<close> is an entry of a list, which nothing but its firing removes,
  because the code keeps no handle of it.  Sockets, the JWT verifier and the SSH library are
  parameters.
\<close>

section \<open>config.go\<close>

abbreviation DefaultMaxSessions :: int where "DefaultMaxSessions \<equiv> 10"
abbreviation TunnelDefaultTimeout :: duration where "TunnelDefaultTimeout \<equiv> 30 * Minute"

record TunnelConfig =
  tc_Enabled :: bool
  tc_MaxSessions :: int
  tc_DefaultTimeout :: duration
  tc_SSHListenAddr :: string
  tc_HostKeyDir :: string

definition TunnelConfig_ApplyDefaults :: "TunnelConfig \<Rightarrow> TunnelConfig" where
  "TunnelConfig_ApplyDefaults c =
     (let c = (if tc_MaxSessions c = 0
               then c\<lparr>tc_Enabled := True, tc_MaxSessions := DefaultMaxSessions, tc_DefaultTimeout := TunnelDefaultTimeout\<rparr>
               else c)
      in if tc_DefaultTimeout c = 0 then c\<lparr>tc_DefaultTimeout := TunnelDefaultTimeout\<rparr> else c)"

definition TunnelConfig_Validate :: "TunnelConfig \<Rightarrow> string option" where
  "TunnelConfig_Validate c =
     (if \<not> tc_Enabled c then None
      else if tc_MaxSessions c \<le> 0 then Some ''tunnel: config: MaxSessions must be positive when enabled''
      else if tc_DefaultTimeout c < Minute then Some ''tunnel: config: DefaultTimeout must be at least 1m when enabled''
      else None)"

section \<open>session.go\<close>

definition JoinHostPort :: "string \<Rightarrow> string \<Rightarrow> string" where
  "JoinHostPort host port =
     (if CHR '':'' \<in> set host then ''['' @ host @ '']:'' @ port else host @ '':'' @ port)"

text \<open>Where the accept loop of a session stands.  While it forwards, two copy goroutines run; the
  flag tells whether one of them has done the clean-up.\<close>

datatype accept_loc =
    NotStarted
  | Accepting
  | Deciding nat
  | Dialing nat
  | Dialed nat
  | Forwarding nat nat bool
  | Stopped

record Session =
  ss_SessionID :: string
  ss_TargetHost :: string
  ss_TargetPort :: int
  ss_MeshIP :: string
  ss_listener :: "string option"
  ss_listening :: bool
  ss_cancelled :: bool
  ss_startTime :: time
  ss_expiresAt :: time
  ss_conn :: "nat option"
  ss_closed :: bool
  ss_loc :: accept_loc
  ss_shut :: "nat list"

definition NewSession :: "string \<Rightarrow> string \<Rightarrow> int \<Rightarrow> string \<Rightarrow> time \<Rightarrow> time \<Rightarrow> Session" where
  "NewSession sessionID targetHost targetPort meshIP expiresAt now =
     \<lparr>ss_SessionID = sessionID, ss_TargetHost = targetHost, ss_TargetPort = targetPort, ss_MeshIP = meshIP,
      ss_listener = None, ss_listening = False, ss_cancelled = False, ss_startTime = now, ss_expiresAt = expiresAt,
      ss_conn = None, ss_closed = False, ss_loc = NotStarted, ss_shut = []\<rparr>"

definition Session_Start :: "(string \<Rightarrow> string + string) \<Rightarrow> Session \<Rightarrow> (string + string) \<times> Session" where
  "Session_Start listen s =
     (let addr = JoinHostPort (ss_MeshIP s) ''0''
      in case listen addr of
           Inl err \<Rightarrow> (Inl (''tunnel: listen on '' @ addr @ '': '' @ err), s)
         | Inr ln \<Rightarrow> (Inr ln, s\<lparr>ss_listener := Some ln, ss_listening := True, ss_loc := Accepting\<rparr>))"

definition tryAccept :: "nat \<Rightarrow> Session \<Rightarrow> bool \<times> Session" where
  "tryAccept conn s =
     (let busy = (ss_conn s \<noteq> None)
      in if busy then (False, s\<lparr>ss_shut := conn # ss_shut s\<rparr>) else (True, s))"

text \<open>The four places of \<open>forward\<close> at which another goroutine can observe a change: the failed dial,
  the successful dial, the registration of the connection, and the end of a copy goroutine.\<close>

definition forward_dial :: "bool \<Rightarrow> nat \<Rightarrow> Session \<Rightarrow> Session" where
  "forward_dial ok clientConn s =
     (if ok then s\<lparr>ss_loc := Dialed clientConn\<rparr>
      else s\<lparr>ss_shut := clientConn # ss_shut s, ss_loc := Accepting\<rparr>)"

definition forward_register :: "nat \<Rightarrow> Session \<Rightarrow> Session" where
  "forward_register clientConn s = s\<lparr>ss_conn := Some clientConn, ss_loc := Forwarding clientConn 2 False\<rparr>"

definition forward_copy_end :: "nat \<Rightarrow> nat \<Rightarrow> bool \<Rightarrow> Session \<Rightarrow> Session" where
  "forward_copy_end clientConn running cleaned s =
     (let s = (if cleaned then s else s\<lparr>ss_shut := clientConn # ss_shut s, ss_conn := None\<rparr>)
      in s\<lparr>ss_loc := (if running = 1 then Accepting else Forwarding clientConn (running - 1) True)\<rparr>)"

definition markClosed :: "Session \<Rightarrow> (nat option \<times> bool) \<times> Session" where
  "markClosed s = (if ss_closed s then ((None, True), s) else ((ss_conn s, False), s\<lparr>ss_closed := True\<rparr>))"

definition Tunnel_Close :: "Session \<Rightarrow> Session" where
  "Tunnel_Close s =
     (case markClosed s of
        ((_, True), s) \<Rightarrow> s
      | ((conn, False), s) \<Rightarrow>
          s\<lparr>ss_cancelled := True, ss_listening := False,
            ss_shut := (case conn of None \<Rightarrow> ss_shut s | Some c \<Rightarrow> c # ss_shut s)\<rparr>)"

definition ListenAddr :: "Session \<Rightarrow> string" where
  "ListenAddr s = (case ss_listener s of None \<Rightarrow> '''' | Some a \<Rightarrow> a)"

text \<open>One step of a session.  A dial under a cancelled context fails; a connection that was
  established stays established when the context is cancelled later.  The context of a session is
  derived from the one of the event that created it, which may be cancelled at any time.\<close>

inductive session_step :: "Session \<Rightarrow> Session \<Rightarrow> bool" where
  accept: "ss_loc s = Accepting \<Longrightarrow> ss_listening s \<Longrightarrow> session_step s (s\<lparr>ss_loc := Deciding c\<rparr>)"
| accept_error: "ss_loc s = Accepting \<Longrightarrow> \<not> ss_listening s \<Longrightarrow> session_step s (s\<lparr>ss_loc := Stopped\<rparr>)"
| admit: "ss_loc s = Deciding c \<Longrightarrow> tryAccept c s = (True, s') \<Longrightarrow> session_step s (s'\<lparr>ss_loc := Dialing c\<rparr>)"
| refuse: "ss_loc s = Deciding c \<Longrightarrow> tryAccept c s = (False, s') \<Longrightarrow> session_step s (s'\<lparr>ss_loc := Accepting\<rparr>)"
| dial_error: "ss_loc s = Dialing c \<Longrightarrow> session_step s (forward_dial False c s)"
| dial_ok: "ss_loc s = Dialing c \<Longrightarrow> \<not> ss_cancelled s \<Longrightarrow> session_step s (forward_dial True c s)"
| register: "ss_loc s = Dialed c \<Longrightarrow> session_step s (forward_register c s)"
| copy_end: "ss_loc s = Forwarding c n cl \<Longrightarrow> session_step s (forward_copy_end c n cl s)"
| close: "session_step s (Tunnel_Close s)"
| cancel: "session_step s (s\<lparr>ss_cancelled := True, ss_listening := False\<rparr>)"

inductive session_reach :: "Session \<Rightarrow> Session \<Rightarrow> bool" where
  here: "session_reach s s"
| step: "session_reach s s' \<Longrightarrow> session_step s' s'' \<Longrightarrow> session_reach s s''"

section \<open>manager.go\<close>

record SSHSessionSetup =
  set_SessionID :: string
  set_TargetHost :: string
  set_TargetPort :: int
  set_AuthorizedKey :: string
  set_ExpiresAt :: time

record SessionManager =
  sm_cfg :: TunnelConfig
  sm_meshIP :: string
  sm_sessions :: "(string, Session) gomap"
  sm_timers :: "(time \<times> string) list"

definition NewSessionManager :: "TunnelConfig \<Rightarrow> string \<Rightarrow> SessionManager" where
  "NewSessionManager cfg meshIP =
     \<lparr>sm_cfg = TunnelConfig_ApplyDefaults cfg, sm_meshIP = meshIP, sm_sessions = [], sm_timers = []\<rparr>"

text \<open>The three clock readings of a call: at its start, in \<open>NewSession\<close>, and for the timer.\<close>

record create_clock =
  at_now :: time
  at_start :: time
  at_until :: time

definition CreateSession ::
    "(string \<Rightarrow> string + string) \<Rightarrow> create_clock \<Rightarrow> SSHSessionSetup \<Rightarrow> SessionManager \<Rightarrow> (string + string) \<times> SessionManager" where
  "CreateSession listen c setup m =
     (if \<not> tc_Enabled (sm_cfg m) then (Inl ''tunnel: tunneling is disabled'', m)
      else if set_SessionID setup = '''' \<or> set_TargetHost setup = '''' \<or> set_TargetPort setup \<le> 0 \<or> set_TargetPort setup > 65535
        then (Inl ''tunnel: invalid session setup: session_id, target_host, and valid target_port (1-65535) are required'', m)
      else if set_ExpiresAt setup < at_now c then (Inl ''tunnel: session already expired'', m)
      else
        let maxExpiry = at_now c + tc_DefaultTimeout (sm_cfg m);
            expiresAt = (if set_ExpiresAt setup > maxExpiry then maxExpiry else set_ExpiresAt setup)
        in if mhas (sm_sessions m) (set_SessionID setup)
           then (Inl (''tunnel: duplicate session ID: '' @ set_SessionID setup), m)
           else if int (length (sm_sessions m)) \<ge> tc_MaxSessions (sm_cfg m)
           then (Inl (''tunnel: max sessions reached ('' @ Itoa (tc_MaxSessions (sm_cfg m)) @ '')''), m)
           else
             (case Session_Start listen (NewSession (set_SessionID setup) (set_TargetHost setup) (set_TargetPort setup)
                     (sm_meshIP m) expiresAt (at_start c)) of
                (Inl err, _) \<Rightarrow> (Inl err, m)
              | (Inr addr, session) \<Rightarrow>
                  let m = m\<lparr>sm_sessions := mput (set_SessionID setup) session (sm_sessions m)\<rparr>;
                      ttl = expiresAt - at_until c
                  in (Inr addr,
                      if ttl > 0 then m\<lparr>sm_timers := (at_until c + ttl, set_SessionID setup) # sm_timers m\<rparr> else m)))"

definition removeSession :: "string \<Rightarrow> SessionManager \<Rightarrow> Session option \<times> SessionManager" where
  "removeSession sessionID m =
     (case mget (sm_sessions m) sessionID of
        None \<Rightarrow> (None, m)
      | Some session \<Rightarrow> (Some session, m\<lparr>sm_sessions := mdel sessionID (sm_sessions m)\<rparr>))"

text \<open>The result is the \<open>ClosedSessionInfo\<close>, that is the duration, and the closed session.\<close>

definition CloseSession :: "time \<Rightarrow> string \<Rightarrow> SessionManager \<Rightarrow> (duration \<times> Session) option \<times> SessionManager" where
  "CloseSession now sessionID m =
     (case removeSession sessionID m of
        (None, m) \<Rightarrow> (None, m)
      | (Some session, m) \<Rightarrow> (Some (now - ss_startTime session, Tunnel_Close session), m))"

definition Tunnel_Shutdown :: "(string list \<Rightarrow> string list) \<Rightarrow> time \<Rightarrow> SessionManager \<Rightarrow> SessionManager" where
  "Tunnel_Shutdown ord now m =
     (let ids = ord (mkeys (sm_sessions m)) in fold (\<lambda>i m. snd (CloseSession now i m)) ids m)"

definition Tunnel_ActiveCount :: "SessionManager \<Rightarrow> int" where
  "Tunnel_ActiveCount m = int (length (sm_sessions m))"

text \<open>The steps of the manager together with the clock.  The callback of a timer closes whatever
  session has the identifier when it runs.\<close>

inductive tunnel_step :: "(string \<Rightarrow> string + string) \<Rightarrow> time \<times> SessionManager \<Rightarrow> time \<times> SessionManager \<Rightarrow> bool" for listen where
  create: "t \<le> at_now c \<Longrightarrow> at_now c \<le> at_start c \<Longrightarrow> at_start c \<le> at_until c \<Longrightarrow>
     tunnel_step listen (t, m) (at_until c, snd (CreateSession listen c setup m))"
| close_session: "t \<le> now \<Longrightarrow> tunnel_step listen (t, m) (now, snd (CloseSession now i m))"
| expire: "t \<le> now \<Longrightarrow> (d, i) \<in> set (sm_timers m) \<Longrightarrow> d \<le> now \<Longrightarrow>
     tunnel_step listen (t, m) (now, snd (CloseSession now i (m\<lparr>sm_timers := remove1 (d, i) (sm_timers m)\<rparr>)))"
| serve: "mget (sm_sessions m) i = Some s \<Longrightarrow> session_step s s' \<Longrightarrow>
     tunnel_step listen (t, m) (t, m\<lparr>sm_sessions := mput i s' (sm_sessions m)\<rparr>)"
| shut_down: "t \<le> now \<Longrightarrow> tunnel_step listen (t, m) (now, Tunnel_Shutdown ord now m)"

inductive tunnel_reach :: "(string \<Rightarrow> string + string) \<Rightarrow> time \<times> SessionManager \<Rightarrow> time \<times> SessionManager \<Rightarrow> bool" for listen where
  start: "tunnel_reach listen x x"
| next_step: "tunnel_reach listen x y \<Longrightarrow> tunnel_step listen y z \<Longrightarrow> tunnel_reach listen x z"

section \<open>handler.go\<close>

datatype tunnel_report = ReportReady string string | ReportClosed string string duration

definition HandleSSHSessionSetup ::
    "(string \<Rightarrow> string + SSHSessionSetup) \<Rightarrow> (string \<Rightarrow> string + string) \<Rightarrow> create_clock \<Rightarrow> SignedEnvelope \<Rightarrow> SessionManager \<Rightarrow>
     string option \<times> tunnel_report list \<times> SessionManager" where
  "HandleSSHSessionSetup unmarshal listen c envelope m =
     (case unmarshal (env_Payload envelope) of
        Inl err \<Rightarrow> (Some (''tunnel: ssh_session_setup: parse payload: '' @ err), [], m)
      | Inr setup \<Rightarrow>
          (case CreateSession listen c setup m of
             (Inl err, m) \<Rightarrow> (Some (''tunnel: ssh_session_setup: '' @ err), [], m)
           | (Inr addr, m) \<Rightarrow> (None, [ReportReady (set_SessionID setup) addr], m)))"

definition HandleSessionRevoked ::
    "(string \<Rightarrow> string + string) \<Rightarrow> time \<Rightarrow> SignedEnvelope \<Rightarrow> SessionManager \<Rightarrow> string option \<times> tunnel_report list \<times> SessionManager" where
  "HandleSessionRevoked unmarshal now envelope m =
     (case unmarshal (env_Payload envelope) of
        Inl err \<Rightarrow> (Some (''tunnel: session_revoked: parse payload: '' @ err), [], m)
      | Inr sessionID \<Rightarrow>
          (case CloseSession now sessionID m of
             (None, m) \<Rightarrow> (None, [], m)
           | (Some (duration, _), m) \<Rightarrow> (None, [ReportClosed sessionID ''revoked'' duration], m)))"

section \<open>ssh\_server.go\<close>

abbreviation DefaultMaxSSHSessions :: int where "DefaultMaxSSHSessions \<equiv> 10"
abbreviation DefaultSSHIdleTimeout :: duration where "DefaultSSHIdleTimeout \<equiv> 30 * Minute"

record SSHServerConfig =
  sc_MaxSessions :: int
  sc_IdleTimeout :: duration
  sc_ListenAddr :: string

definition SSHServerConfig_ApplyDefaults :: "SSHServerConfig \<Rightarrow> SSHServerConfig" where
  "SSHServerConfig_ApplyDefaults c =
     (let c = (if sc_MaxSessions c = 0 then c\<lparr>sc_MaxSessions := DefaultMaxSSHSessions\<rparr> else c)
      in if sc_IdleTimeout c = 0 then c\<lparr>sc_IdleTimeout := DefaultSSHIdleTimeout\<rparr> else c)"

definition SSHServerConfig_Validate :: "SSHServerConfig \<Rightarrow> string option" where
  "SSHServerConfig_Validate c =
     (if sc_ListenAddr c = '''' then Some ''tunnel: ssh: config: ListenAddr is required''
      else if sc_MaxSessions c \<le> 0 then Some ''tunnel: ssh: config: MaxSessions must be positive''
      else if sc_IdleTimeout c < Minute then Some ''tunnel: ssh: config: IdleTimeout must be at least 1m''
      else None)"

text \<open>The buffered channel used as a semaphore is the number of tokens in it.\<close>

record SSHServer =
  sh_cfg :: SSHServerConfig
  sh_listener :: "string option"
  sh_sem :: nat
  sh_cancelled :: bool

definition NewSSHServer :: "SSHServerConfig \<Rightarrow> SSHServer outcome" where
  "NewSSHServer cfg =
     (let cfg = SSHServerConfig_ApplyDefaults cfg
      in if sc_MaxSessions cfg < 0 then Panic ''makechan: size out of range''
         else Ret \<lparr>sh_cfg = cfg, sh_listener = None, sh_sem = 0, sh_cancelled = False\<rparr>)"

definition PublicKeyCallback :: "(string \<Rightarrow> string option) \<Rightarrow> string \<Rightarrow> string option" where
  "PublicKeyCallback verify token =
     (case verify token of Some err \<Rightarrow> Some (''tunnel: ssh: auth: '' @ err) | None \<Rightarrow> None)"

definition SSH_Start :: "(string \<Rightarrow> string + string) \<Rightarrow> SSHServer \<Rightarrow> string option \<times> SSHServer" where
  "SSH_Start listen s =
     (case listen (sc_ListenAddr (sh_cfg s)) of
        Inl err \<Rightarrow> (Some (''tunnel: ssh: listen: '' @ err), s)
      | Inr ln \<Rightarrow> (None, s\<lparr>sh_listener := Some ln\<rparr>))"

text \<open>An accepted connection takes a token or is closed at once; the goroutine that handles it puts
  the token back when it returns.\<close>

definition SSH_accept :: "SSHServer \<Rightarrow> bool \<times> SSHServer" where
  "SSH_accept s =
     (if int (sh_sem s) < sc_MaxSessions (sh_cfg s) then (True, s\<lparr>sh_sem := Suc (sh_sem s)\<rparr>) else (False, s))"

definition handleConnection_return :: "SSHServer \<Rightarrow> SSHServer" where
  "handleConnection_return s = s\<lparr>sh_sem := sh_sem s - 1\<rparr>"

text \<open>The deadline of a connection: set after the handshake, and again whenever a channel is opened.\<close>

definition handleConnection_deadline :: "SSHServer \<Rightarrow> time \<Rightarrow> time list \<Rightarrow> time" where
  "handleConnection_deadline s handshake opened =
     fold (\<lambda>now _. now + sc_IdleTimeout (sh_cfg s)) opened (handshake + sc_IdleTimeout (sh_cfg s))"

definition SSH_Shutdown :: "SSHServer \<Rightarrow> SSHServer" where
  "SSH_Shutdown s = s\<lparr>sh_cancelled := True\<rparr>"

definition SSH_Addr :: "SSHServer \<Rightarrow> string" where
  "SSH_Addr s = (case sh_listener s of None \<Rightarrow> '''' | Some a \<Rightarrow> a)"

inductive ssh_step :: "SSHServer \<Rightarrow> SSHServer \<Rightarrow> bool" where
  ssh_accept: "\<not> sh_cancelled s \<Longrightarrow> ssh_step s (snd (SSH_accept s))"
| ssh_return: "0 < sh_sem s \<Longrightarrow> ssh_step s (handleConnection_return s)"
| ssh_shutdown: "ssh_step s (SSH_Shutdown s)"

inductive ssh_reach :: "SSHServer \<Rightarrow> SSHServer \<Rightarrow> bool" where
  ssh_here: "ssh_reach s s"
| ssh_more: "ssh_reach s s' \<Longrightarrow> ssh_step s' s'' \<Longrightarrow> ssh_reach s s''"

section \<open>ssh\_channels.go\<close>

record directTCPIPPayload =
  dt_DestHost :: string
  dt_DestPort :: nat
  dt_OriginHost :: string
  dt_OriginPort :: nat

datatype channel_result = Rejected string | AcceptFailed | Forwarded string

definition handleDirectTCPIP ::
    "(string \<Rightarrow> string + directTCPIPPayload) \<Rightarrow> (string \<Rightarrow> bool) \<Rightarrow> bool \<Rightarrow> string \<Rightarrow> channel_result" where
  "handleDirectTCPIP unmarshal dial accepted extraData =
     (case unmarshal extraData of
        Inl err \<Rightarrow> Rejected ''failed to parse payload''
      | Inr payload \<Rightarrow>
          let destAddr = JoinHostPort (dt_DestHost payload) (Itoa (int (dt_DestPort payload)))
          in if \<not> dial destAddr then Rejected ''connect failed''
             else if \<not> accepted then AcceptFailed
             else Forwarded destAddr)"

definition handle_channel ::
    "(string \<Rightarrow> string + directTCPIPPayload) \<Rightarrow> (string \<Rightarrow> bool) \<Rightarrow> bool \<Rightarrow> string \<Rightarrow> string \<Rightarrow> channel_result" where
  "handle_channel unmarshal dial accepted channelType extraData =
     (if channelType = ''direct-tcpip'' then handleDirectTCPIP unmarshal dial accepted extraData
      else Rejected ''unknown channel type'')"

section \<open>hostkey.go\<close>

abbreviation hostKeyFileName :: string where "hostKeyFileName \<equiv> ''ssh_host_ed25519_key''"

text \<open>The functions of the key libraries: parse a PEM file, generate a key, print it, make a signer.\<close>

record ('p, 'k) key_lib =
  kl_parse :: "string \<Rightarrow> string + 'k"
  kl_generate :: "string + 'p"
  kl_marshal :: "'p \<Rightarrow> string + string"
  kl_signer :: "'p \<Rightarrow> string + 'k"

definition GenerateHostKey :: "('p, 'k) key_lib \<Rightarrow> string + 'k" where
  "GenerateHostKey lib =
     (case kl_generate lib of
        Inl err \<Rightarrow> Inl (''tunnel: hostkey: generate: '' @ err)
      | Inr priv \<Rightarrow>
          (case kl_signer lib priv of
             Inl err \<Rightarrow> Inl (''tunnel: hostkey: generate: '' @ err)
           | Inr signer \<Rightarrow> Inr signer))"

definition LoadOrGenerateHostKey :: "('p, 'k) key_lib \<Rightarrow> string \<Rightarrow> FS \<Rightarrow> (string + 'k) \<times> FS" where
  "LoadOrGenerateHostKey lib dataDir fs =
     (let keyPath = filepath_Join [dataDir, hostKeyFileName]
      in case os_ReadFile keyPath fs of
           (Inr data, fs) \<Rightarrow>
             (case kl_parse lib data of
                Inl err \<Rightarrow> (Inl (''tunnel: hostkey: parse existing key: '' @ err), fs)
              | Inr signer \<Rightarrow> (Inr signer, fs))
         | (Inl err, fs) \<Rightarrow>
             if \<not> os_IsNotExist err then (Inl (''tunnel: hostkey: read key file: '' @ fs_error_text err), fs)
             else
               (case os_MkdirAll dataDir fs of
                  (Some err, fs) \<Rightarrow> (Inl (''tunnel: hostkey: create data dir: '' @ fs_error_text err), fs)
                | (None, fs) \<Rightarrow>
                    (case kl_generate lib of
                       Inl err \<Rightarrow> (Inl (''tunnel: hostkey: generate: '' @ err), fs)
                     | Inr priv \<Rightarrow>
                         (case kl_marshal lib priv of
                            Inl err \<Rightarrow> (Inl (''tunnel: hostkey: marshal private key: '' @ err), fs)
                          | Inr pemData \<Rightarrow>
                              (case WriteFileAtomic dataDir hostKeyFileName pemData 384 fs of
                                 (Some err, fs) \<Rightarrow> (Inl (''tunnel: hostkey: write key file: '' @ fs_error_text err), fs)
                               | (None, fs) \<Rightarrow>
                                   (case kl_signer lib priv of
                                      Inl err \<Rightarrow> (Inl (''tunnel: hostkey: create signer: '' @ err), fs)
                                    | Inr signer \<Rightarrow> (Inr signer, fs)))))))"

section \<open>mesh\_server.go\<close>

text \<open>\<open>net.SplitHostPort\<close>.\<close>

definition SplitHostPort :: "string \<Rightarrow> (string \<times> string) option" where
  "SplitHostPort hostport =
     (if CHR '':'' \<notin> set hostport then None
      else
        let port = rev (takeWhile (\<lambda>c. c \<noteq> CHR '':'') (rev hostport));
            front = take (length hostport - length port - 1) hostport
        in if HasPrefix hostport ''['' then
             (let host = takeWhile (\<lambda>c. c \<noteq> CHR '']'') (tl hostport)
              in if front = ''['' @ host @ '']'' \<and> CHR ''['' \<notin> set (host @ port) \<and> CHR '']'' \<notin> set port
                 then Some (host, port) else None)
           else if CHR '':'' \<in> set front \<or> CHR ''['' \<in> set hostport \<or> CHR '']'' \<in> set hostport then None
           else Some (front, port))"

record MeshServer =
  ms_cfg :: TunnelConfig
  ms_ssh :: "SSHServer option"
  ms_sessions :: SessionManager

definition NewMeshServer :: "TunnelConfig \<Rightarrow> bool \<Rightarrow> MeshServer outcome" where
  "NewMeshServer cfg hasHostKey =
     (let cfg = TunnelConfig_ApplyDefaults cfg;
          meshIP = (if tc_SSHListenAddr cfg \<noteq> ''''
                    then (case SplitHostPort (tc_SSHListenAddr cfg) of None \<Rightarrow> '''' | Some (host, _) \<Rightarrow> host)
                    else '''');
          m = \<lparr>ms_cfg = cfg, ms_ssh = None, ms_sessions = NewSessionManager cfg meshIP\<rparr>
      in if tc_SSHListenAddr cfg \<noteq> '''' \<and> hasHostKey then
           (case NewSSHServer \<lparr>sc_MaxSessions = tc_MaxSessions cfg, sc_IdleTimeout = tc_DefaultTimeout cfg,
                    sc_ListenAddr = tc_SSHListenAddr cfg\<rparr> of
              Panic p \<Rightarrow> Panic p
            | Ret ssh \<Rightarrow> Ret (m\<lparr>ms_ssh := Some ssh\<rparr>))
         else Ret m)"

definition MeshServer_Start :: "(string \<Rightarrow> string + string) \<Rightarrow> MeshServer \<Rightarrow> string option \<times> MeshServer" where
  "MeshServer_Start listen m =
     (case ms_ssh m of
        None \<Rightarrow> (None, m)
      | Some ssh \<Rightarrow>
          (case SSH_Start listen ssh of
             (Some err, ssh) \<Rightarrow> (Some (''tunnel: mesh server: start ssh: '' @ err), m\<lparr>ms_ssh := Some ssh\<rparr>)
           | (None, ssh) \<Rightarrow> (None, m\<lparr>ms_ssh := Some ssh\<rparr>)))"

definition MeshServer_Shutdown :: "(string list \<Rightarrow> string list) \<Rightarrow> time \<Rightarrow> MeshServer \<Rightarrow> MeshServer" where
  "MeshServer_Shutdown ord now m =
     m\<lparr>ms_ssh := map_option SSH_Shutdown (ms_ssh m), ms_sessions := Tunnel_Shutdown ord now (ms_sessions m)\<rparr>"

section \<open>k8s\_proxy.go\<close>

record http_request =
  hr_Scheme :: string
  hr_URLHost :: string
  hr_Host :: string
  hr_RemoteAddr :: string
  hr_Header :: "(string, string) gomap"

text \<open>Parsing a URL is a parameter that gives its scheme and host.\<close>

definition NewK8sProxy :: "(string \<Rightarrow> string + string \<times> string) \<Rightarrow> string \<Rightarrow> string + string \<times> string" where
  "NewK8sProxy url_Parse targetURL =
     (case url_Parse targetURL of
        Inl err \<Rightarrow> Inl (''tunnel: k8s proxy: parse target: '' @ err)
      | Inr (scheme, host) \<Rightarrow>
          if host = '''' then Inl ''tunnel: k8s proxy: parse target: empty host'' else Inr (scheme, host))"

definition Director :: "string \<times> string \<Rightarrow> http_request \<Rightarrow> http_request" where
  "Director target req =
     (let clientIP = (case SplitHostPort (hr_RemoteAddr req) of Some (host, _) \<Rightarrow> host | None \<Rightarrow> hr_RemoteAddr req)
      in req\<lparr>hr_Scheme := fst target, hr_URLHost := snd target, hr_Host := snd target,
             hr_Header := mput ''X-Forwarded-For'' clientIP (hr_Header req)\<rparr>)"

section \<open>Sessions\<close>

text \<open>A connection is registered exactly while the accept loop forwards it.\<close>

definition session_inv :: "Session \<Rightarrow> bool" where
  "session_inv s \<longleftrightarrow>
     (case ss_loc s of
        Forwarding c n cleaned \<Rightarrow> if cleaned then n = 1 \<and> ss_conn s = None else n = 2 \<and> ss_conn s = Some c
      | _ \<Rightarrow> ss_conn s = None)"

inductive_cases session_stepE: "session_step s s'"

lemma Tunnel_Close_simps [simp]:
  "ss_loc (Tunnel_Close s) = ss_loc s" "ss_conn (Tunnel_Close s) = ss_conn s" "ss_closed (Tunnel_Close s)"
  "ss_SessionID (Tunnel_Close s) = ss_SessionID s" "ss_expiresAt (Tunnel_Close s) = ss_expiresAt s"
  "ss_TargetPort (Tunnel_Close s) = ss_TargetPort s"
  by (simp_all add: Tunnel_Close_def markClosed_def)

lemma Tunnel_Close_idem: "ss_closed s \<Longrightarrow> Tunnel_Close s = s"
  by (simp add: Tunnel_Close_def markClosed_def)

lemma session_step_inv: "session_step s s' \<Longrightarrow> session_inv s \<Longrightarrow> session_inv s'"
  by (induction rule: session_step.induct)
    (auto simp: session_inv_def tryAccept_def forward_dial_def forward_register_def forward_copy_end_def Let_def
      split: accept_loc.splits if_splits)

lemma session_reach_inv: "session_reach s s' \<Longrightarrow> session_inv s \<Longrightarrow> session_inv s'"
  by (induction rule: session_reach.induct) (auto intro: session_step_inv)

lemma Session_Start_ok:
  assumes "Session_Start listen s = (Inr addr, s')"
  shows "s' = s\<lparr>ss_listener := Some addr, ss_listening := True, ss_loc := Accepting\<rparr>"
  using assms by (auto simp: Session_Start_def Let_def split: sum.splits)

lemma Session_Start_inv: "Session_Start listen (NewSession i h p ip e t) = (Inr addr, s) \<Longrightarrow> session_inv s"
  by (auto simp: session_inv_def NewSession_def dest: Session_Start_ok)

lemma session_step_fixed:
  "session_step s s' \<Longrightarrow> ss_SessionID s' = ss_SessionID s \<and> ss_expiresAt s' = ss_expiresAt s \<and> ss_TargetPort s' = ss_TargetPort s"
  by (induction rule: session_step.induct)
    (auto simp: tryAccept_def forward_dial_def forward_register_def forward_copy_end_def Let_def split: if_splits)

section \<open>The session table\<close>

text \<open>A session is due to be closed: its timer is armed for the very instant it expires.\<close>

definition session_ok :: "TunnelConfig \<Rightarrow> time \<Rightarrow> (time \<times> string) list \<Rightarrow> string \<Rightarrow> Session \<Rightarrow> bool" where
  "session_ok cfg t timers i s \<longleftrightarrow> ss_SessionID s = i \<and> 0 < ss_TargetPort s \<and> ss_TargetPort s \<le> 65535 \<and> session_inv s \<and>
     ss_expiresAt s \<le> t + tc_DefaultTimeout cfg \<and> (t < ss_expiresAt s \<longrightarrow> (ss_expiresAt s, i) \<in> set timers)"

definition tunnel_inv :: "time \<times> SessionManager \<Rightarrow> bool" where
  "tunnel_inv = (\<lambda>(t, m). mwf (sm_sessions m) \<and> int (length (sm_sessions m)) \<le> max 0 (tc_MaxSessions (sm_cfg m)) \<and>
     (\<forall>i s. mget (sm_sessions m) i = Some s \<longrightarrow> session_ok (sm_cfg m) t (sm_timers m) i s))"

lemma NewSessionManager_inv: "tunnel_inv (t, NewSessionManager cfg ip)"
  by (simp add: tunnel_inv_def NewSessionManager_def)

lemma session_ok_later: "session_ok cfg t timers i s \<Longrightarrow> t \<le> t' \<Longrightarrow> set timers \<subseteq> set timers' \<Longrightarrow> session_ok cfg t' timers' i s"
  by (auto simp: session_ok_def)

lemma tunnel_inv_later: "tunnel_inv (t, m) \<Longrightarrow> t \<le> t' \<Longrightarrow> tunnel_inv (t', m)"
  using session_ok_later unfolding tunnel_inv_def by fastforce

text \<open>What a successful \<open>CreateSession\<close> adds.\<close>

definition capped_expiry :: "create_clock \<Rightarrow> SSHSessionSetup \<Rightarrow> SessionManager \<Rightarrow> time" where
  "capped_expiry c setup m = min (set_ExpiresAt setup) (at_now c + tc_DefaultTimeout (sm_cfg m))"

lemma CreateSession_cases:
  obtains (refused) err where "CreateSession listen c setup m = (Inl err, m)"
  | (created) addr s m' where "CreateSession listen c setup m = (Inr addr, m')"
      "\<not> mhas (sm_sessions m) (set_SessionID setup)" "int (length (sm_sessions m)) < tc_MaxSessions (sm_cfg m)"
      "0 < set_TargetPort setup" "set_TargetPort setup \<le> 65535" "session_inv s"
      "ss_SessionID s = set_SessionID setup" "ss_TargetPort s = set_TargetPort setup" "ss_expiresAt s = capped_expiry c setup m"
      "m' = m\<lparr>sm_sessions := mput (set_SessionID setup) s (sm_sessions m),
         sm_timers := (if at_until c < capped_expiry c setup m then [(capped_expiry c setup m, set_SessionID setup)] else []) @ sm_timers m\<rparr>"
proof -
  let ?e = "capped_expiry c setup m"
  let ?new = "NewSession (set_SessionID setup) (set_TargetHost setup) (set_TargetPort setup) (sm_meshIP m) ?e (at_start c)"
  have e: "(if set_ExpiresAt setup > at_now c + tc_DefaultTimeout (sm_cfg m) then at_now c + tc_DefaultTimeout (sm_cfg m)
      else set_ExpiresAt setup) = ?e" by (simp add: capped_expiry_def)
  show ?thesis
  proof (cases "fst (CreateSession listen c setup m)")
    case (Inl err)
    then have "CreateSession listen c setup m = (Inl err, m)"
      unfolding CreateSession_def Let_def by (auto split: if_splits sum.splits prod.splits)
    then show ?thesis by (rule refused)
  next
    case (Inr addr)
    then have g: "\<not> mhas (sm_sessions m) (set_SessionID setup)" "int (length (sm_sessions m)) < tc_MaxSessions (sm_cfg m)"
      "0 < set_TargetPort setup" "set_TargetPort setup \<le> 65535"
      unfolding CreateSession_def Let_def by (auto split: if_splits)
    obtain s where s: "Session_Start listen ?new = (Inr addr, s)"
      and run: "snd (CreateSession listen c setup m) = m\<lparr>sm_sessions := mput (set_SessionID setup) s (sm_sessions m),
        sm_timers := (if at_until c < ?e then [(?e, set_SessionID setup)] else []) @ sm_timers m\<rparr>"
      using Inr unfolding CreateSession_def Let_def e by (auto split: if_splits sum.splits prod.splits)
    have "CreateSession listen c setup m = (Inr addr, snd (CreateSession listen c setup m))" using Inr by (metis prod.collapse)
    moreover have "ss_SessionID s = set_SessionID setup" "ss_TargetPort s = set_TargetPort setup" "ss_expiresAt s = ?e"
      using Session_Start_ok [OF s] by (simp_all add: NewSession_def)
    ultimately show ?thesis using created g run Session_Start_inv [OF s] by metis
  qed
qed

lemma CreateSession_inv:
  assumes inv: "tunnel_inv (t, m)" and t: "t \<le> at_now c" "at_now c \<le> at_start c" "at_start c \<le> at_until c"
  shows "tunnel_inv (at_until c, snd (CreateSession listen c setup m))"
proof (cases rule: CreateSession_cases [of listen c "setup" m])
  case (refused err)
  then show ?thesis using tunnel_inv_later [OF inv] t by simp
next
  case (created addr s m')
  let ?i = "set_SessionID setup"
  have wf: "mwf (sm_sessions m)" using inv by (simp add: tunnel_inv_def)
  have "length (mput ?i s (sm_sessions m)) = Suc (length (sm_sessions m))"
    using mlen_put [OF wf] created(2) by simp
  then have len: "int (length (sm_sessions m')) \<le> max 0 (tc_MaxSessions (sm_cfg m'))" using created by simp
  have "session_ok (sm_cfg m') (at_until c) (sm_timers m') j r" if "mget (sm_sessions m') j = Some r" for j r
  proof (cases "j = ?i")
    case True
    then have "r = s" using that created by simp
    then show ?thesis using True created t by (auto simp: session_ok_def capped_expiry_def)
  next
    case False
    then have "session_ok (sm_cfg m) t (sm_timers m) j r" using that created inv by (simp add: tunnel_inv_def)
    moreover have "set (sm_timers m) \<subseteq> set (sm_timers m')" "sm_cfg m' = sm_cfg m" using created(10) by simp_all
    moreover have "t \<le> at_until c" using t by simp
    ultimately show ?thesis using session_ok_later by metis
  qed
  then show ?thesis using len wf created by (simp add: tunnel_inv_def gm.wf_put)
qed

lemma CloseSession_eq: "snd (CloseSession now i m) = m\<lparr>sm_sessions := mdel i (sm_sessions m)\<rparr>"
  by (auto simp: CloseSession_def removeSession_def mdel_absent split: option.splits)

text \<open>Closing a session needs no timer for it.\<close>

lemma CloseSession_inv:
  assumes inv: "tunnel_inv (t, m)" and t: "t \<le> now" and timers: "\<And>d j. (d, j) \<in> set (sm_timers m) \<Longrightarrow> j \<noteq> i \<Longrightarrow> (d, j) \<in> set armed"
  shows "tunnel_inv (now, snd (CloseSession now i (m\<lparr>sm_timers := armed\<rparr>)))"
proof -
  have wf: "mwf (sm_sessions m)" and len: "int (length (sm_sessions m)) \<le> max 0 (tc_MaxSessions (sm_cfg m))"
    using inv by (simp_all add: tunnel_inv_def)
  have "session_ok (sm_cfg m) now armed j s" if "mget (mdel i (sm_sessions m)) j = Some s" for j s
  proof -
    have j: "j \<noteq> i" "mget (sm_sessions m) j = Some s" using that wf by (auto simp: gm.get_del split: if_splits)
    then have "session_ok (sm_cfg m) t (sm_timers m) j s" using inv by (simp add: tunnel_inv_def)
    then show ?thesis using timers j(1) t by (auto simp: session_ok_def)
  qed
  moreover have "int (length (mdel i (sm_sessions m))) \<le> max 0 (tc_MaxSessions (sm_cfg m))"
    using len mlen_del_le [of i "sm_sessions m"] by linarith
  ultimately show ?thesis using wf by (simp add: CloseSession_eq tunnel_inv_def gm.wf_del)
qed

lemma Shutdown_inv:
  assumes "tunnel_inv (t, m)" "t \<le> now"
  shows "tunnel_inv (now, fold (\<lambda>i m. snd (CloseSession now i m)) ids m)"
proof -
  have "tunnel_inv (now, m)" using assms tunnel_inv_later by blast
  then show ?thesis
  proof (induction ids arbitrary: m)
    case (Cons i ids)
    have "tunnel_inv (now, snd (CloseSession now i m))"
      using CloseSession_inv [OF Cons.prems order_refl, of i "sm_timers m"] by simp
    then show ?case using Cons.IH by simp
  qed simp
qed

lemma serve_inv:
  assumes inv: "tunnel_inv (t, m)" and s: "mget (sm_sessions m) i = Some s" "session_step s s'"
  shows "tunnel_inv (t, m\<lparr>sm_sessions := mput i s' (sm_sessions m)\<rparr>)"
proof -
  have wf: "mwf (sm_sessions m)" using inv by (simp add: tunnel_inv_def)
  have "session_ok (sm_cfg m) t (sm_timers m) i s" using inv s(1) by (simp add: tunnel_inv_def)
  then have "session_ok (sm_cfg m) t (sm_timers m) i s'"
    using session_step_fixed [OF s(2)] session_step_inv [OF s(2)] by (simp add: session_ok_def)
  then show ?thesis using inv wf s(1) by (auto simp: tunnel_inv_def mlen_put gm.wf_put split: if_splits)
qed

lemma tunnel_step_inv: "tunnel_step listen x y \<Longrightarrow> tunnel_inv x \<Longrightarrow> tunnel_inv y"
proof (induction rule: tunnel_step.induct)
  case (create t c m su)
  then show ?case using CreateSession_inv by blast
next
  case (close_session t now m i)
  then show ?case using CloseSession_inv [of t m now i "sm_timers m"] by simp
next
  case (expire t now d i m)
  have "(d', j) \<in> set (remove1 (d, i) (sm_timers m))" if "(d', j) \<in> set (sm_timers m)" "j \<noteq> i" for d' j
    using that by (simp add: in_set_remove1)
  then show ?case using CloseSession_inv expire by blast
next
  case (serve m i s s' t)
  then show ?case using serve_inv by blast
next
  case (shut_down t now m ord)
  then show ?case using Shutdown_inv by (simp add: Tunnel_Shutdown_def)
qed

lemma tunnel_reach_inv: "tunnel_reach listen x y \<Longrightarrow> tunnel_inv x \<Longrightarrow> tunnel_inv y"
  by (induction rule: tunnel_reach.induct) (auto intro: tunnel_step_inv)

lemma tunnel_step_cfg: "tunnel_step listen x y \<Longrightarrow> sm_cfg (snd y) = sm_cfg (snd x)"
proof (induction rule: tunnel_step.induct)
  case (create t c m su)
  show ?case by (cases rule: CreateSession_cases [of listen c su m]) auto
next
  case (shut_down t now m ord)
  have "sm_cfg (fold (\<lambda>i m. snd (CloseSession now i m)) ids m) = sm_cfg m" for ids
    by (induction ids arbitrary: m) (auto simp: CloseSession_eq)
  then show ?case by (simp add: Tunnel_Shutdown_def)
qed (simp_all add: CloseSession_eq)

lemma tunnel_reach_cfg: "tunnel_reach listen x y \<Longrightarrow> sm_cfg (snd y) = sm_cfg (snd x)"
  by (induction rule: tunnel_reach.induct) (auto dest: tunnel_step_cfg)

text \<open>The timer of a session outlives it: when the identifier is used again, the first timer closes
  the new session before its own expiry.\<close>

lemma stale_timer_closes_successor:
  assumes first: "CreateSession listen c1 setup1 m = (Inr a1, m1)" "at_until c1 < capped_expiry c1 setup1 m"
    and closed: "snd (CloseSession now (set_SessionID setup1) m1) = m2"
    and second: "CreateSession listen c2 setup2 m2 = (Inr a2, m3)" "set_SessionID setup2 = set_SessionID setup1"
    and time: "capped_expiry c1 setup1 m \<le> t" "t < capped_expiry c2 setup2 m2" and wf: "mwf (sm_sessions m)"
  shows "(\<exists>s. mget (sm_sessions m3) (set_SessionID setup1) = Some s \<and> t < ss_expiresAt s) \<and>
    (\<exists>m4. tunnel_step listen (t, m3) (t, m4) \<and> mget (sm_sessions m4) (set_SessionID setup1) = None)"
proof -
  let ?i = "set_SessionID setup1" and ?d = "capped_expiry c1 setup1 m"
  have m1: "(?d, ?i) \<in> set (sm_timers m1)" "mwf (sm_sessions m1)"
    by (cases rule: CreateSession_cases [of listen c1 setup1 m]; use first wf in \<open>auto simp: gm.wf_put\<close>)+
  then have m2: "(?d, ?i) \<in> set (sm_timers m2)" "mwf (sm_sessions m2)"
    using closed by (auto simp: CloseSession_eq gm.wf_del)
  obtain s where m3: "mget (sm_sessions m3) ?i = Some s" "ss_expiresAt s = capped_expiry c2 setup2 m2"
    "(?d, ?i) \<in> set (sm_timers m3)" "mwf (sm_sessions m3)"
  proof (cases rule: CreateSession_cases [of listen c2 setup2 m2])
    case (created addr s m')
    then show ?thesis using second m2 that [of s] by (simp add: gm.wf_put)
  qed (use second in simp)
  let ?m4 = "snd (CloseSession t ?i (m3\<lparr>sm_timers := remove1 (?d, ?i) (sm_timers m3)\<rparr>))"
  have "tunnel_step listen (t, m3) (t, ?m4)" using expire [OF order_refl m3(3) time(1)] .
  moreover have "mget (sm_sessions ?m4) ?i = None" using m3(4) by (simp add: CloseSession_eq gm.get_del)
  ultimately show ?thesis using m3 time(2) by metis
qed

section \<open>The SSH server\<close>

definition ssh_bounded :: "SSHServer \<Rightarrow> bool" where
  "ssh_bounded s \<longleftrightarrow> int (sh_sem s) \<le> max 0 (sc_MaxSessions (sh_cfg s))"

lemma ssh_reach_bounded: "ssh_reach s s' \<Longrightarrow> ssh_bounded s \<Longrightarrow> ssh_bounded s'"
proof (induction rule: ssh_reach.induct)
  case (ssh_more s s' s'')
  from ssh_more.hyps(2) ssh_more.IH [OF ssh_more.prems] show ?case
    by (induction rule: ssh_step.induct)
      (auto simp: ssh_bounded_def SSH_accept_def handleConnection_return_def SSH_Shutdown_def)
qed

text \<open>The deadline of a connection moves only when a channel is opened, not when data flows.\<close>

lemma handleConnection_deadline_eq:
  "handleConnection_deadline s t0 opened = (if opened = [] then t0 else last opened) + sc_IdleTimeout (sh_cfg s)"
  by (induction opened rule: rev_induct) (auto simp: handleConnection_deadline_def)

section \<open>Host key and addresses\<close>

lemma hostkey_file: "dir \<noteq> '''' \<Longrightarrow> dir_file dir hostKeyFileName"
  by (simp add: dir_file_def plain_name_def HasPrefix_def)

text \<open>A host key that was generated is the one that every later start loads.\<close>

lemma LoadOrGenerateHostKey_stable:
  assumes lib: "\<And>priv pem k. kl_marshal lib priv = Inr pem \<Longrightarrow> kl_signer lib priv = Inr k \<Longrightarrow> kl_parse lib pem = Inr k"
    and ok: "fs_ok fs" "dataDir \<noteq> ''''" and none: "content fs (filepath_Join [dataDir, hostKeyFileName]) = None"
    and run: "LoadOrGenerateHostKey lib dataDir fs = (Inr k, fs')"
  shows "LoadOrGenerateHostKey lib dataDir (fs'\<lparr>fs_faults := []\<rparr>) = (Inr k, fs'\<lparr>fs_faults := []\<rparr>)"
proof -
  let ?p = "filepath_Join [dataDir, hostKeyFileName]"
  obtain f fl where sc: "syscall fs = (f, fs\<lparr>fs_faults := fl\<rparr>)" using syscall_cases .
  obtain e fs1 where r: "os_ReadFile ?p fs = (Inl e, fs1)"
    using none sc by (cases f) (auto simp: os_ReadFile_def content_def)
  obtain fs2 where mk: "os_MkdirAll dataDir fs1 = (None, fs2)"
    using run r by (auto simp: LoadOrGenerateHostKey_def Let_def split: if_splits prod.splits option.splits)
  obtain priv pem where g: "kl_generate lib = Inr priv" "kl_marshal lib priv = Inr pem"
    using run r mk by (auto simp: LoadOrGenerateHostKey_def Let_def split: if_splits sum.splits)
  have w: "WriteFileAtomic dataDir hostKeyFileName pem 384 fs2 = (None, fs')" and s: "kl_signer lib priv = Inr k"
    using run r mk g by (auto simp: LoadOrGenerateHostKey_def Let_def split: if_splits sum.splits prod.splits option.splits)
  have "fs_ok fs2" using os_MkdirAll_fs_ok [of fs1 dataDir] os_ReadFile_fs_ok [OF ok(1), of ?p] r mk by simp
  then have "content fs' ?p = Some pem" using ad.read_written [OF _ hostkey_file [OF ok(2)] w] by simp
  then have "content (fs'\<lparr>fs_faults := []\<rparr>) ?p = Some pem" by (simp add: content_def)
  then have "os_ReadFile ?p (fs'\<lparr>fs_faults := []\<rparr>) = (Inr pem, fs'\<lparr>fs_faults := []\<rparr>)" by (intro os_ReadFile_content) auto
  then show ?thesis using lib [OF g(2) s] by (simp add: LoadOrGenerateHostKey_def Let_def)
qed

lemma SplitHostPort_JoinHostPort:
  assumes host: "CHR ''['' \<notin> set host" "CHR '']'' \<notin> set host"
    and port: "CHR '':'' \<notin> set port" "CHR ''['' \<notin> set port" "CHR '']'' \<notin> set port"
  shows "SplitHostPort (JoinHostPort host port) = Some (host, port)"
proof -
  have t: "takeWhile (\<lambda>c. c \<noteq> CHR '':'') (rev port @ CHR '':'' # x) = rev port" for x
    using port(1) by (induction port rule: rev_induct) auto
  have h: "takeWhile (\<lambda>c. c \<noteq> CHR '']'') (host @ CHR '']'' # x) = host" for x
    using host(2) by (induction host) auto
  have n: "\<not> HasPrefix (host @ x) ''[''" if "\<not> HasPrefix x ''[''" for x
    using host(1) that by (cases host) (auto simp: HasPrefix_def)
  show ?thesis
  proof (cases "CHR '':'' \<in> set host")
    case True
    then show ?thesis using host port t h by (simp add: JoinHostPort_def SplitHostPort_def Let_def HasPrefix_def)
  next
    case False
    then show ?thesis using host port t n [of "CHR '':'' # port"]
      by (simp add: JoinHostPort_def SplitHostPort_def Let_def HasPrefix_def)
  qed
qed

section \<open>Properties of tunnelling\<close>


definition ex_tunnel_cfg :: TunnelConfig where
  "ex_tunnel_cfg = \<lparr>tc_Enabled = False, tc_MaxSessions = 0, tc_DefaultTimeout = 0, tc_SSHListenAddr = '''', tc_HostKeyDir = ''''\<rparr>"

definition ex_setup :: "time \<Rightarrow> SSHSessionSetup" where
  "ex_setup e = \<lparr>set_SessionID = ''s1'', set_TargetHost = ''10.0.0.9'', set_TargetPort = 22, set_AuthorizedKey = '''', set_ExpiresAt = e\<rparr>"

definition ex_at :: "time \<Rightarrow> create_clock" where
  "ex_at t = \<lparr>at_now = t, at_start = t, at_until = t\<rparr>"

definition ex_listen :: "string \<Rightarrow> string + string" where "ex_listen a = Inr ''100.64.0.1:4022''"

definition ex_tunnel :: SessionManager where
  "ex_tunnel = snd (CreateSession ex_listen (ex_at 5) (ex_setup (3 * Hour)) (NewSessionManager ex_tunnel_cfg ''100.64.0.1''))"


text \<open>A started session serves one connection at a time: a connection is registered exactly
  while both directions of it are forwarded, and whenever the accept loop decides on a new one there
  is none, so the branch that refuses a connection of a busy session is never taken.\<close>

theorem session_one_connection:
  assumes "Session_Start listen (NewSession i host port ip expires now) = (Inr addr, s0)" and "session_reach s0 s"
  shows "(\<forall>c. ss_conn s = Some c \<longleftrightarrow> ss_loc s = Forwarding c 2 False) \<and>
    (\<forall>c. ss_loc s = Deciding c \<longrightarrow> tryAccept c s = (True, s))"
proof -
  have "session_inv s" using session_reach_inv [OF assms(2) Session_Start_inv [OF assms(1)]] .
  then show ?thesis by (auto simp: session_inv_def tryAccept_def split: accept_loc.splits if_splits)
qed

definition ex_session :: Session where
  "ex_session = snd (Session_Start ex_listen (NewSession ''s1'' ''10.0.0.9'' 22 ''100.64.0.1'' (3 * Hour) 0))"

theorem session_one_connection_witness:
  "ss_conn (forward_register 7 (forward_dial True 7 (ex_session\<lparr>ss_loc := Dialing 7\<rparr>))) = Some 7 \<and>
   ss_loc (forward_register 7 (forward_dial True 7 (ex_session\<lparr>ss_loc := Dialing 7\<rparr>))) = Forwarding 7 2 False"
proof -
  let ?d = "ex_session\<lparr>ss_loc := Dialing 7\<rparr>"
  let ?s = "forward_register 7 (forward_dial True 7 ?d)"
  have s0: "Session_Start ex_listen (NewSession ''s1'' ''10.0.0.9'' 22 ''100.64.0.1'' (3 * Hour) 0) = (Inr ''100.64.0.1:4022'', ex_session)"
    by (simp add: ex_session_def Session_Start_def ex_listen_def Let_def)
  have start: "ss_loc ex_session = Accepting" "ss_listening ex_session" "ss_conn ex_session = None" "\<not> ss_cancelled ex_session"
    by (simp_all add: ex_session_def Session_Start_def NewSession_def ex_listen_def Let_def)
  have "session_step (ex_session\<lparr>ss_loc := Deciding 7\<rparr>) ((ex_session\<lparr>ss_loc := Deciding 7\<rparr>)\<lparr>ss_loc := Dialing 7\<rparr>)"
    by (rule admit) (simp_all add: tryAccept_def start)
  then have "session_step (ex_session\<lparr>ss_loc := Deciding 7\<rparr>) ?d" by simp
  moreover have "session_step ?d (forward_dial True 7 ?d)" by (rule dial_ok) (simp_all add: start)
  moreover have "session_step (forward_dial True 7 ?d) ?s" by (rule register) (simp add: forward_dial_def)
  ultimately have "session_reach ex_session ?s"
    using accept [of ex_session 7] start(1,2) by (meson session_reach.intros)
  note one = session_one_connection [OF s0 this, THEN conjunct1, rule_format, of 7]
  have "ss_conn ?s = Some 7" by (simp add: forward_register_def)
  then show ?thesis using one by blast
qed

text \<open>A session that is closed after its accept loop has dialled the target and before the
  connection is registered goes on forwarding that connection: nothing shuts it down, and closing
  the session once more does nothing.\<close>

theorem closed_session_keeps_forwarding:
  assumes "Session_Start listen (NewSession i host port ip expires now) = (Inr addr, s0)"
  shows "\<exists>s. session_reach s0 s \<and> ss_closed s \<and> ss_loc s = Forwarding c 2 False \<and> c \<notin> set (ss_shut s) \<and> Tunnel_Close s = s"
proof -
  define s1 where "s1 = s0\<lparr>ss_loc := Deciding c\<rparr>"
  define s2 where "s2 = s1\<lparr>ss_loc := Dialing c\<rparr>"
  define s3 where "s3 = forward_dial True c s2"
  define s4 where "s4 = Tunnel_Close s3"
  define s5 where "s5 = forward_register c s4"
  have s0: "ss_loc s0 = Accepting" "ss_listening s0" "ss_conn s0 = None" "\<not> ss_cancelled s0" "\<not> ss_closed s0" "ss_shut s0 = []"
    using Session_Start_ok [OF assms] by (simp_all add: NewSession_def)
  have "session_step s0 s1" unfolding s1_def using s0 by (intro accept) auto
  moreover have "session_step s1 s2" unfolding s2_def using s0 by (intro admit) (auto simp: s1_def tryAccept_def)
  moreover have "session_step s2 s3" unfolding s3_def using s0 by (intro dial_ok) (auto simp: s1_def s2_def)
  moreover have "session_step s3 s4" unfolding s4_def by (rule close)
  moreover have "session_step s4 s5" unfolding s5_def by (rule register) (simp add: s4_def s3_def forward_dial_def)
  ultimately have "session_reach s0 s5" by (meson session_reach.intros)
  moreover have "c \<notin> set (ss_shut s5)"
    using s0 by (simp add: s5_def s4_def s3_def s2_def s1_def forward_register_def forward_dial_def Tunnel_Close_def markClosed_def)
  moreover have "ss_closed s5" "ss_loc s5 = Forwarding c 2 False" by (simp_all add: s5_def s4_def forward_register_def)
  ultimately show ?thesis using Tunnel_Close_idem by blast
qed

theorem closed_session_keeps_forwarding_witness:
  "\<exists>s. session_reach ex_session s \<and> ss_closed s \<and> ss_loc s = Forwarding 7 2 False"
proof -
  have "Session_Start ex_listen (NewSession ''s1'' ''10.0.0.9'' 22 ''100.64.0.1'' (3 * Hour) 0) = (Inr ''100.64.0.1:4022'', ex_session)"
    by (simp add: ex_session_def Session_Start_def ex_listen_def Let_def)
  from closed_session_keeps_forwarding [OF this, of 7] show ?thesis by auto
qed

end
