(* ===== verification/Registration.thy ===== *)
theory Registration
  imports Files Reconnect ApiTypes
begin

text \<open>
  Self-registration of the node, \<open>internal/registration\<close>: the bootstrap token and its sources, the
  key pair, the instance metadata service, the identity files, and the registration flow with its
  retry loop.

  The control plane, the clock, the random sources, the environment variables and the curve are
  parameters; the JSON codec of the identity is a pair of functions.  The retry loop is a partial
  function, so that not returning is the value \<open>None\<close>.
\<close>

section \<open>config.go\<close>

record RegistrationConfig =
  rg_DataDir :: string
  rg_TokenFile :: string
  rg_TokenEnv :: string
  rg_TokenValue :: string
  rg_UseMetadata :: bool
  rg_MetadataTokenPath :: string
  rg_MetadataTimeout :: duration
  rg_Hostname :: string
  rg_Metadata :: "(string, string) gomap"
  rg_MaxRetryDuration :: duration

definition RegistrationConfig_ApplyDefaults :: "RegistrationConfig \<Rightarrow> RegistrationConfig" where
  "RegistrationConfig_ApplyDefaults c =
     (let c = (if rg_TokenFile c = '''' then c\<lparr>rg_TokenFile := ''/etc/plexd/bootstrap-token''\<rparr> else c);
          c = (if rg_TokenEnv c = '''' then c\<lparr>rg_TokenEnv := ''PLEXD_BOOTSTRAP_TOKEN''\<rparr> else c);
          c = (if rg_MetadataTokenPath c = '''' then c\<lparr>rg_MetadataTokenPath := ''/plexd/bootstrap-token''\<rparr> else c);
          c = (if rg_MetadataTimeout c = 0 then c\<lparr>rg_MetadataTimeout := 2 * Second\<rparr> else c)
      in if rg_MaxRetryDuration c = 0 then c\<lparr>rg_MaxRetryDuration := 5 * Minute\<rparr> else c)"

definition RegistrationConfig_Validate :: "RegistrationConfig \<Rightarrow> string option" where
  "RegistrationConfig_Validate c =
     (if rg_DataDir c = '''' then Some ''registration: config: DataDir is required'' else None)"

section \<open>token.go\<close>

abbreviation maxTokenLength :: nat where "maxTokenLength \<equiv> 512"

record TokenResult =
  tr_Value :: string
  tr_FilePath :: string

definition printable_byte :: "char \<Rightarrow> bool" where
  "printable_byte c \<longleftrightarrow> \<not> (byte c < 32 \<or> byte c > 126)"

definition validateToken :: "string \<Rightarrow> string option" where
  "validateToken token =
     (if length token > maxTokenLength then Some ''registration: token exceeds maximum length of 512 bytes''
      else if list_ex (\<lambda>c. \<not> printable_byte c) token then Some ''registration: token contains non-printable characters''
      else None)"

definition accept_token :: "string \<Rightarrow> string \<Rightarrow> string + TokenResult" where
  "accept_token v path =
     (case validateToken v of Some err \<Rightarrow> Inl err | None \<Rightarrow> Inr \<lparr>tr_Value = v, tr_FilePath = path\<rparr>)"

text \<open>The metadata provider is absent or a read of the token.\<close>

definition resolve_env ::
    "(string \<Rightarrow> string) \<Rightarrow> (string + string) option \<Rightarrow> RegistrationConfig \<Rightarrow> string + TokenResult" where
  "resolve_env getenv metadata cfg =
     (let v = TrimSpace (getenv (rg_TokenEnv cfg)) in
      if rg_TokenEnv cfg \<noteq> '''' \<and> v \<noteq> '''' then accept_token v ''''
      else
        let none = Inl (''registration: no bootstrap token found (checked: direct value, file ['' @ rg_TokenFile cfg @
              ''], env ['' @ rg_TokenEnv cfg @ ''], metadata ['' @ (if rg_UseMetadata cfg then ''yes'' else ''no'') @ ''])'')
        in if rg_UseMetadata cfg then
             (case metadata of
                Some (Inr token) \<Rightarrow>
                  (let v = TrimSpace token in if v \<noteq> '''' then accept_token v '''' else none)
              | _ \<Rightarrow> none)
           else none)"

definition Resolve ::
    "(string \<Rightarrow> string) \<Rightarrow> (string + string) option \<Rightarrow> RegistrationConfig \<Rightarrow> FS \<Rightarrow> (string + TokenResult) \<times> FS" where
  "Resolve getenv metadata cfg fs =
     (let v = TrimSpace (rg_TokenValue cfg) in
      if v \<noteq> '''' then (accept_token v '''', fs)
      else if rg_TokenFile cfg \<noteq> '''' then
        (case os_ReadFile (rg_TokenFile cfg) fs of
           (Inl err, fs) \<Rightarrow>
             if \<not> os_IsNotExist err
             then (Inl (''registration: read token file '' @ rg_TokenFile cfg @ '': '' @ fs_error_text err), fs)
             else (resolve_env getenv metadata cfg, fs)
         | (Inr data, fs) \<Rightarrow>
             (let v = TrimSpace data in
              if v \<noteq> '''' then (accept_token v (rg_TokenFile cfg), fs) else (resolve_env getenv metadata cfg, fs)))
      else (resolve_env getenv metadata cfg, fs))"

section \<open>keys.go\<close>

record Keypair =
  kp_PrivateKey :: string
  kp_PublicKey :: string

definition clamp :: "string \<Rightarrow> string" where
  "clamp k =
     (let b0 = byte (k ! 0); k = k[0 := char_of (b0 - b0 mod 8)];
          b31 = byte (k ! 31) mod 128
      in k[31 := char_of (if b31 < 64 then b31 + 64 else b31)])"

text \<open>The parameters are the 32 random bytes, or the error of the random source, and the curve.\<close>

definition GenerateKeypair :: "string + string \<Rightarrow> (string \<Rightarrow> string + string) \<Rightarrow> string + Keypair" where
  "GenerateKeypair random x25519 =
     (case random of
        Inl err \<Rightarrow> Inl (''registration: generate keypair: '' @ err)
      | Inr privateKey \<Rightarrow>
          let privateKey = clamp privateKey
          in case x25519 privateKey of
               Inl err \<Rightarrow> Inl (''registration: derive public key: '' @ err)
             | Inr publicKey \<Rightarrow> Inr \<lparr>kp_PrivateKey = privateKey, kp_PublicKey = publicKey\<rparr>)"

definition EncodePublicKey :: "Keypair \<Rightarrow> string" where
  "EncodePublicKey k = EncodeToString (kp_PublicKey k)"

section \<open>imds.go\<close>

text \<open>A request to the metadata service gives an error, or a status and a body.  The session token
  header of the second request is present only if the first one gave a token.\<close>

definition TrimRight :: "string \<Rightarrow> char \<Rightarrow> string" where
  "TrimRight s c = rev (dropWhile (\<lambda>x. x = c) (rev s))"

record IMDSProvider =
  im_baseURL :: string
  im_tokenPath :: string
  im_timeout :: duration

definition NewIMDSProvider :: "RegistrationConfig \<Rightarrow> string \<Rightarrow> IMDSProvider" where
  "NewIMDSProvider cfg baseURL = \<lparr>im_baseURL = TrimRight baseURL (CHR ''/''), im_tokenPath = rg_MetadataTokenPath cfg,
     im_timeout = rg_MetadataTimeout cfg\<rparr>"

definition acquireSessionToken :: "(string \<Rightarrow> string + int \<times> string) \<Rightarrow> IMDSProvider \<Rightarrow> string" where
  "acquireSessionToken put p =
     (case put (im_baseURL p @ ''/latest/api/token'') of
        Inl err \<Rightarrow> ''''
      | Inr (status, body) \<Rightarrow>
          if status \<noteq> 200 then ''''
          else let token = TrimSpace (take (maxTokenLength + 1) body)
               in if length token > maxTokenLength then '''' else token)"

definition IMDS_ReadToken ::
    "(string \<Rightarrow> string + int \<times> string) \<Rightarrow> (string \<Rightarrow> string option \<Rightarrow> string + int \<times> string) \<Rightarrow> IMDSProvider \<Rightarrow> string + string" where
  "IMDS_ReadToken put get p =
     (let sessionToken = acquireSessionToken put p
      in case get (im_baseURL p @ im_tokenPath p) (if sessionToken \<noteq> '''' then Some sessionToken else None) of
           Inl err \<Rightarrow> Inl (''registration: imds: request failed: '' @ err)
         | Inr (status, body) \<Rightarrow>
             if status \<noteq> 200 then Inl (''registration: imds: unexpected status '' @ Itoa status)
             else
               let token = TrimSpace (take (maxTokenLength + 1) body)
               in if token = '''' then Inl ''registration: imds: empty token''
                  else case validateToken token of Some err \<Rightarrow> Inl err | None \<Rightarrow> Inr token)"

section \<open>identity.go\<close>

record NodeIdentity =
  ni_NodeID :: string
  ni_MeshIP :: string
  ni_SigningPublicKey :: string
  ni_PrivateKey :: string
  ni_NodeSecretKey :: string

text \<open>The JSON codec sees the first three fields only.\<close>

type_synonym json_identity = "string \<times> string \<times> string"

definition json_fields :: "NodeIdentity \<Rightarrow> json_identity" where
  "json_fields i = (ni_NodeID i, ni_MeshIP i, ni_SigningPublicKey i)"

datatype load_error = ErrNotRegistered | LoadError string

definition identity_files :: "string \<Rightarrow> NodeIdentity \<Rightarrow> (string \<times> string) list" where
  "identity_files jsonData i =
     [(''identity.json'', jsonData), (''private_key'', EncodeToString (ni_PrivateKey i)),
      (''node_secret_key'', ni_NodeSecretKey i), (''signing_public_key'', ni_SigningPublicKey i)]"

definition SaveIdentity ::
    "(json_identity \<Rightarrow> string + string) \<Rightarrow> string \<Rightarrow> NodeIdentity \<Rightarrow> FS \<Rightarrow> string option \<times> FS" where
  "SaveIdentity marshal dataDir i fs =
     (case os_MkdirAll dataDir fs of
        (Some err, fs) \<Rightarrow> (Some (''registration: save identity: '' @ fs_error_text err), fs)
      | (None, fs) \<Rightarrow>
          (case marshal (json_fields i) of
             Inl err \<Rightarrow> (Some (''registration: save identity: '' @ err), fs)
           | Inr jsonData \<Rightarrow>
               (case write_files (\<lambda>n d. WriteFileAtomic dataDir n d 384) (identity_files jsonData i) fs of
                  (Some err, fs) \<Rightarrow> (Some (''registration: save identity: '' @ fs_error_text err), fs)
                | (None, fs) \<Rightarrow> (None, fs))))"

definition read_entry :: "string \<Rightarrow> string \<Rightarrow> FS \<Rightarrow> (fs_error + string) \<times> FS" where
  "read_entry dataDir name fs = os_ReadFile (filepath_Join [dataDir, name]) fs"

definition load_error_of :: "fs_error \<Rightarrow> load_error" where
  "load_error_of err = LoadError (''registration: load identity: '' @ fs_error_text err)"

definition LoadIdentity ::
    "(string \<Rightarrow> string + json_identity) \<Rightarrow> string \<Rightarrow> FS \<Rightarrow> (load_error + NodeIdentity) \<times> FS" where
  "LoadIdentity unmarshal dataDir fs =
     (case read_entry dataDir ''identity.json'' fs of
        (Inl err, fs) \<Rightarrow> (Inl (if os_IsNotExist err then ErrNotRegistered else load_error_of err), fs)
      | (Inr jsonData, fs) \<Rightarrow>
     (case unmarshal jsonData of
        Inl err \<Rightarrow> (Inl (LoadError (''registration: load identity: '' @ err)), fs)
      | Inr (nodeID, meshIP, jsonSPK) \<Rightarrow>
     (case read_entry dataDir ''private_key'' fs of
        (Inl err, fs) \<Rightarrow> (Inl (load_error_of err), fs)
      | (Inr privKeyData, fs) \<Rightarrow>
     (case DecodeString (TrimSpace privKeyData) of
        None \<Rightarrow> (Inl (LoadError ''registration: load identity: illegal base64 data''), fs)
      | Some privKey \<Rightarrow>
     (case read_entry dataDir ''node_secret_key'' fs of
        (Inl err, fs) \<Rightarrow> (Inl (load_error_of err), fs)
      | (Inr nsk, fs) \<Rightarrow>
     (case read_entry dataDir ''signing_public_key'' fs of
        (Inl err, fs) \<Rightarrow> (Inl (load_error_of err), fs)
      | (Inr spk, fs) \<Rightarrow>
          let fileSPK = TrimSpace spk;
              signing = (if fileSPK \<noteq> jsonSPK then fileSPK else jsonSPK)
          in if nodeID = '''' then (Inl (LoadError ''registration: load identity: node_id is empty''), fs)
             else if meshIP = '''' then (Inl (LoadError ''registration: load identity: mesh_ip is empty''), fs)
             else (Inr \<lparr>ni_NodeID = nodeID, ni_MeshIP = meshIP, ni_SigningPublicKey = signing,
                     ni_PrivateKey = privKey, ni_NodeSecretKey = TrimSpace nsk\<rparr>, fs)))))))"

section \<open>registrar.go\<close>

record RegisterRequest =
  rq_Token :: string
  rq_PublicKey :: string
  rq_Hostname :: string
  rq_Metadata :: "(string, string) gomap"
  rq_Capabilities :: "string option"

record RegisterResponse =
  rp_NodeID :: string
  rp_MeshIP :: string
  rp_SigningPublicKey :: string
  rp_NodeSecretKey :: string
  rp_Peers :: "Peer list"

definition ErrBadRequest :: APIError where "ErrBadRequest = sentinel 400 ''bad request''"
definition ErrConflict :: APIError where "ErrConflict = sentinel 409 ''conflict''"

text \<open>What the registrar uses of its surroundings; a wait tells whether the context ended it.\<close>

record 'w registrar_env =
  cp_Register :: "string \<Rightarrow> RegisterRequest \<Rightarrow> 'w \<Rightarrow> (go_error + RegisterResponse) \<times> 'w"
  rg_ctx_Err :: "'w \<Rightarrow> bool"
  rg_Now :: "'w \<Rightarrow> time"
  rg_After :: "duration \<Rightarrow> 'w \<Rightarrow> bool \<times> 'w"
  rg_rand :: "'w \<Rightarrow> rat"

datatype register_error = Cancelled | Refused go_error | RetryTimeout go_error

definition retry_stops :: "go_error \<Rightarrow> bool" where
  "retry_stops err \<longleftrightarrow> ClassifyError err = RetryAuth \<or> ClassifyError err = PermanentFailure \<or>
     errors_Is err ErrConflict \<or> errors_Is err ErrBadRequest"

definition retry_delay :: "(rat \<Rightarrow> rat) \<Rightarrow> rat \<Rightarrow> go_error \<Rightarrow> duration \<Rightarrow> duration" where
  "retry_delay fl u err currentInterval =
     (if ClassifyError err = RespectServer then
        (case errors_As err of
           Some apiErr \<Rightarrow> if ae_RetryAfter apiErr > 0 then ae_RetryAfter apiErr else currentInterval
         | None \<Rightarrow> currentInterval)
      else jitter fl u currentInterval)"

definition next_interval :: "(rat \<Rightarrow> rat) \<Rightarrow> duration \<Rightarrow> duration" where
  "next_interval fl currentInterval = trunc (min (fl (fl (of_int currentInterval) * 2)) (fl (of_int (60 * Second))))"

text \<open>One round of the loop: its result, or nothing if the loop goes on.\<close>

definition retry_round ::
    "'w registrar_env \<Rightarrow> (rat \<Rightarrow> rat) \<Rightarrow> string \<Rightarrow> duration \<Rightarrow> time \<Rightarrow> RegisterRequest \<Rightarrow> duration \<Rightarrow> 'w \<Rightarrow>
     (register_error + RegisterResponse) option \<times> 'w" where
  "retry_round e fl auth maxRetry start req currentInterval w =
     (if rg_ctx_Err e w then (Some (Inl Cancelled), w)
      else case cp_Register e auth req w of
        (Inr resp, w) \<Rightarrow> (Some (Inr resp), w)
      | (Inl err, w) \<Rightarrow>
          if retry_stops err then (Some (Inl (Refused err)), w)
          else if rg_Now e w - start \<ge> maxRetry then (Some (Inl (RetryTimeout err)), w)
          else case rg_After e (retry_delay fl (rg_rand e w) err currentInterval) w of
            (True, w) \<Rightarrow> (Some (Inl Cancelled), w)
          | (False, w) \<Rightarrow> (None, w))"

partial_function (option) retry_loop ::
    "'w registrar_env \<Rightarrow> (rat \<Rightarrow> rat) \<Rightarrow> string \<Rightarrow> duration \<Rightarrow> time \<Rightarrow> RegisterRequest \<Rightarrow> duration \<Rightarrow> 'w \<Rightarrow>
     ((register_error + RegisterResponse) \<times> 'w) option" where
  "retry_loop e fl auth maxRetry start req currentInterval w =
     (case retry_round e fl auth maxRetry start req currentInterval w of
        (Some r, w') \<Rightarrow> Some (r, w')
      | (None, w') \<Rightarrow> retry_loop e fl auth maxRetry start req (next_interval fl currentInterval) w')"

definition registerWithRetry ::
    "'w registrar_env \<Rightarrow> (rat \<Rightarrow> rat) \<Rightarrow> string \<Rightarrow> duration \<Rightarrow> RegisterRequest \<Rightarrow> 'w \<Rightarrow>
     ((register_error + RegisterResponse) \<times> 'w) option" where
  "registerWithRetry e fl auth maxRetry req w = retry_loop e fl auth maxRetry (rg_Now e w) req (1 * Second) w"

text \<open>The capabilities payload is passed on as it is.\<close>

record Registrar =
  rr_cfg :: RegistrationConfig
  rr_caps :: "string option"
  rr_auth :: string

definition NewRegistrar :: "RegistrationConfig \<Rightarrow> Registrar" where
  "NewRegistrar cfg = \<lparr>rr_cfg = RegistrationConfig_ApplyDefaults cfg, rr_caps = None, rr_auth = ''''\<rparr>"

definition SetCapabilities :: "string option \<Rightarrow> Registrar \<Rightarrow> Registrar" where
  "SetCapabilities caps r = r\<lparr>rr_caps := caps\<rparr>"

text \<open>The remaining parameters of the flow.\<close>

record registration_io =
  io_marshal :: "json_identity \<Rightarrow> string + string"
  io_unmarshal :: "string \<Rightarrow> string + json_identity"
  io_getenv :: "string \<Rightarrow> string"
  io_metadata :: "(string + string) option"
  io_random :: "string + string"
  io_x25519 :: "string \<Rightarrow> string + string"
  io_hostname :: "string + string"

definition identity_of :: "RegisterResponse \<Rightarrow> Keypair \<Rightarrow> NodeIdentity" where
  "identity_of resp keypair = \<lparr>ni_NodeID = rp_NodeID resp, ni_MeshIP = rp_MeshIP resp,
     ni_SigningPublicKey = rp_SigningPublicKey resp, ni_PrivateKey = kp_PrivateKey keypair,
     ni_NodeSecretKey = rp_NodeSecretKey resp\<rparr>"

definition Registrar_Register ::
    "'w registrar_env \<Rightarrow> (rat \<Rightarrow> rat) \<Rightarrow> registration_io \<Rightarrow> Registrar \<Rightarrow> FS \<Rightarrow> 'w \<Rightarrow>
     ((string + NodeIdentity) \<times> Registrar \<times> FS \<times> 'w) option" where
  "Registrar_Register e fl io r fs w =
     (case LoadIdentity (io_unmarshal io) (rg_DataDir (rr_cfg r)) fs of
        (Inr identity, fs) \<Rightarrow> Some (Inr identity, r\<lparr>rr_auth := ni_NodeSecretKey identity\<rparr>, fs, w)
      | (Inl _, fs) \<Rightarrow>
     (case Resolve (io_getenv io) (io_metadata io) (rr_cfg r) fs of
        (Inl err, fs) \<Rightarrow> Some (Inl (''registration: resolve token: '' @ err), r, fs, w)
      | (Inr tokenResult, fs) \<Rightarrow>
     (case GenerateKeypair (io_random io) (io_x25519 io) of
        Inl err \<Rightarrow> Some (Inl (''registration: generate keypair: '' @ err), r, fs, w)
      | Inr keypair \<Rightarrow>
     (case (if rg_Hostname (rr_cfg r) = '''' then io_hostname io else Inr (rg_Hostname (rr_cfg r))) of
        Inl err \<Rightarrow> Some (Inl (''registration: resolve hostname: '' @ err), r, fs, w)
      | Inr hostname \<Rightarrow>
          let r = r\<lparr>rr_auth := tr_Value tokenResult\<rparr>;
              req = \<lparr>rq_Token = tr_Value tokenResult, rq_PublicKey = EncodePublicKey keypair, rq_Hostname = hostname,
                     rq_Metadata = rg_Metadata (rr_cfg r), rq_Capabilities = rr_caps r\<rparr>
          in case registerWithRetry e fl (rr_auth r) (rg_MaxRetryDuration (rr_cfg r)) req w of
               None \<Rightarrow> None
             | Some (Inl err, w) \<Rightarrow> Some (Inl ''registration: register'', r, fs, w)
             | Some (Inr resp, w) \<Rightarrow>
                 let identity = identity_of resp keypair
                 in case SaveIdentity (io_marshal io) (rg_DataDir (rr_cfg r)) identity fs of
                      (Some err, fs) \<Rightarrow> Some (Inl (''registration: save identity: '' @ err), r, fs, w)
                    | (None, fs) \<Rightarrow>
                        let fs = (if tr_FilePath tokenResult \<noteq> '''' then snd (os_Remove (tr_FilePath tokenResult) fs) else fs)
                        in Some (Inr identity, r\<lparr>rr_auth := rp_NodeSecretKey resp\<rparr>, fs, w)))))"

definition IsRegistered :: "(string \<Rightarrow> string + json_identity) \<Rightarrow> Registrar \<Rightarrow> FS \<Rightarrow> bool" where
  "IsRegistered unmarshal r fs =
     (case LoadIdentity unmarshal (rg_DataDir (rr_cfg r)) fs of (Inl _, _) \<Rightarrow> False | (Inr _, _) \<Rightarrow> True)"

section \<open>Tokens and keys\<close>

lemma validateToken_iff: "validateToken t = None \<longleftrightarrow> length t \<le> maxTokenLength \<and> list_all printable_byte t"
  by (auto simp: validateToken_def list_all_iff list_ex_iff)

lemma accept_token_valid:
  "accept_token v path = Inr r \<Longrightarrow> tr_Value r = v \<and> tr_FilePath r = path \<and> length v \<le> maxTokenLength \<and> list_all printable_byte v"
  using validateToken_iff [of v] by (auto simp: accept_token_def split: option.splits)

text \<open>Every token that is resolved is non-empty, printable and not too long, and names the file it
  came from only when the file was read.\<close>

lemma Resolve_valid:
  assumes "Resolve getenv metadata cfg fs = (Inr r, fs')"
  shows "tr_Value r \<noteq> '''' \<and> length (tr_Value r) \<le> maxTokenLength \<and> list_all printable_byte (tr_Value r) \<and>
    (tr_FilePath r \<noteq> '''' \<longrightarrow> tr_FilePath r = rg_TokenFile cfg \<and> TrimSpace (rg_TokenValue cfg) = '''')"
proof -
  have env: "tr_Value r \<noteq> '''' \<and> length (tr_Value r) \<le> maxTokenLength \<and> list_all printable_byte (tr_Value r) \<and> tr_FilePath r = ''''"
    if "resolve_env getenv metadata cfg = Inr r" for r
    using that unfolding resolve_env_def Let_def
    by (auto split: if_splits option.splits sum.splits dest!: accept_token_valid)
  show ?thesis
    using assms unfolding Resolve_def Let_def
    by (auto split: if_splits prod.splits sum.splits dest!: accept_token_valid env)
qed

text \<open>The private key is a Curve25519 scalar: a multiple of 8 between \<open>2 ^ 254\<close> and \<open>2 ^ 255\<close>.\<close>

lemma clamp_scalar:
  assumes "length k = 32"
  shows "length (clamp k) = 32" "8 dvd byte (clamp k ! 0)" "64 \<le> byte (clamp k ! 31)" "byte (clamp k ! 31) < 128"
proof -
  have m: "byte (k ! 31) mod 128 < 128" by simp
  have "byte (k ! 0) - byte (k ! 0) mod 8 < 256" using byte_less [of "k ! 0"] by linarith
  then have "of_char (char_of (byte (k ! 0) - byte (k ! 0) mod 8) :: char) = byte (k ! 0) - byte (k ! 0) mod 8"
    by (simp add: of_char_of)
  then show "8 dvd byte (clamp k ! 0)" using assms by (simp add: clamp_def Let_def)
  show "length (clamp k) = 32" using assms by (simp add: clamp_def Let_def)
  let ?b = "if byte (k ! 31) mod 128 < 64 then byte (k ! 31) mod 128 + 64 else byte (k ! 31) mod 128"
  have "64 \<le> ?b \<and> ?b < 128" using m by auto
  moreover have "clamp k ! 31 = char_of ?b" using assms by (simp add: clamp_def Let_def)
  ultimately show "64 \<le> byte (clamp k ! 31)" "byte (clamp k ! 31) < 128" by (simp_all add: of_char_of)
qed

section \<open>Identity files\<close>

lemma identity_files_ok:
  assumes "dir \<noteq> ''''"
  shows "list_all (\<lambda>(n, _). dir_file dir n) (identity_files j i)" "distinct (map fst (identity_files j i))"
  using assms by (simp_all add: identity_files_def dir_file_def plain_name_def HasPrefix_def)

lemma read_entry_content:
  assumes "fs_faults fs = []" "content fs (filepath_Join [dir, n]) = Some d"
  shows "read_entry dir n fs = (Inr d, fs)"
  using os_ReadFile_content [OF assms] by (simp add: read_entry_def)

lemma SaveIdentity_ok:
  assumes ok: "fs_ok fs" "dir \<noteq> ''''" and run: "SaveIdentity marshal dir i fs = (None, fs')"
  obtains j where "marshal (json_fields i) = Inr j"
    "\<And>n d. (n, d) \<in> set (identity_files j i) \<Longrightarrow> content fs' (filepath_Join [dir, n]) = Some d"
proof -
  obtain fs1 where mk: "os_MkdirAll dir fs = (None, fs1)"
    using run by (auto simp: SaveIdentity_def split: prod.splits option.splits)
  obtain j where j: "marshal (json_fields i) = Inr j"
    using run mk by (auto simp: SaveIdentity_def split: sum.splits)
  have w: "write_files (\<lambda>n d. WriteFileAtomic dir n d 384) (identity_files j i) fs1 = (None, fs')"
    using run mk j by (auto simp: SaveIdentity_def split: prod.splits option.splits)
  have "fs_ok fs1" using os_MkdirAll_fs_ok [OF ok(1), of dir] mk by simp
  then show ?thesis
    using that [OF j] ad.write_files_all [OF _ identity_files_ok(1) [OF ok(2)] w identity_files_ok(2) [OF ok(2)]] by blast
qed

section \<open>The retry loop\<close>

text \<open>The clock does not run backwards, a wait takes at least its time, and the random numbers are
  those of \<open>rand.Float64\<close>.\<close>

definition clock_laws :: "'w registrar_env \<Rightarrow> bool" where
  "clock_laws e \<longleftrightarrow>
     (\<forall>auth req w. rg_Now e w \<le> rg_Now e (snd (cp_Register e auth req w))) \<and>
     (\<forall>d w w'. rg_After e d w = (False, w') \<longrightarrow> rg_Now e w + d \<le> rg_Now e w') \<and>
     (\<forall>w. 0 \<le> rg_rand e w \<and> rg_rand e w \<le> 1)"

definition interval_ok :: "duration \<Rightarrow> bool" where
  "interval_ok d \<longleftrightarrow> 1 * Second \<le> d \<and> d \<le> 60 * Second"

lemma next_interval_ok:
  assumes "ieee_double fl" "interval_ok d"
  shows "next_interval fl d = min (d * 2) (60 * Second)" "interval_ok (next_interval fl d)"
proof -
  have d: "0 \<le> d" "d \<le> 2 ^ 53" using assms(2) by (auto simp: interval_ok_def)
  let ?r = "NewReconnectEngine\<lparr>re_currentInterval := d\<rparr>"
  have "next_interval fl d = re_currentInterval (incrementInterval fl ?r)"
    by (simp add: next_interval_def incrementInterval_def NewReconnectEngine_def)
  also have "\<dots> = min (d * 2) (60 * Second)"
    using incrementInterval_exact [OF assms(1), of ?r] d by (simp add: NewReconnectEngine_def)
  finally show "next_interval fl d = min (d * 2) (60 * Second)" .
  then show "interval_ok (next_interval fl d)" using assms(2) by (simp add: interval_ok_def)
qed

lemma retry_delay_pos:
  assumes "ieee_double fl" "interval_ok d" "0 \<le> u" "u \<le> 1"
  shows "1 \<le> retry_delay fl u err d"
proof -
  have d: "0 \<le> d" "d \<le> 2 ^ 50" "Second \<le> d" using assms(2) by (auto simp: interval_ok_def)
  have "1 \<le> 3 * d div 4" using d(3) by presburger
  then have "1 \<le> jitter fl u d" using jitter_range(1) [OF assms(1,3,4) d(1,2)] by linarith
  then show ?thesis using d by (auto simp: retry_delay_def split: option.splits)
qed

lemma retry_round_continues:
  assumes "ieee_double fl" "clock_laws e" "interval_ok d"
    and "retry_round e fl auth maxRetry start req d w = (None, w')"
  shows "rg_Now e w < start + maxRetry" "rg_Now e w < rg_Now e w'"
proof -
  obtain err w1 where r: "cp_Register e auth req w = (Inl err, w1)" "\<not> rg_Now e w1 - start \<ge> maxRetry"
    "rg_After e (retry_delay fl (rg_rand e w1) err d) w1 = (False, w')"
    using assms(4) by (auto simp: retry_round_def split: if_splits prod.splits sum.splits bool.splits)
  have "rg_Now e w \<le> rg_Now e w1" using assms(2) r(1) by (metis clock_laws_def snd_conv)
  moreover have "rg_Now e w1 + retry_delay fl (rg_rand e w1) err d \<le> rg_Now e w'"
    using assms(2) r(3) by (simp add: clock_laws_def)
  moreover have "1 \<le> retry_delay fl (rg_rand e w1) err d"
    using retry_delay_pos [OF assms(1,3)] assms(2) by (simp add: clock_laws_def)
  ultimately show "rg_Now e w < start + maxRetry" "rg_Now e w < rg_Now e w'" using r(2) by linarith+
qed

lemma retry_loop_returns:
  assumes fl: "ieee_double fl" "clock_laws e" and d: "interval_ok d"
  shows "\<exists>r w0 d0 w'. retry_loop e fl auth maxRetry start req d w = Some (r, w') \<and>
    retry_round e fl auth maxRetry start req d0 w0 = (Some r, w')"
  using d
proof (induction "nat (start + maxRetry - rg_Now e w)" arbitrary: d w rule: less_induct)
  case less
  obtain ro w1 where round: "retry_round e fl auth maxRetry start req d w = (ro, w1)" by force
  note unfold = retry_loop.simps [of e fl auth maxRetry start req d w]
  show ?case
  proof (cases ro)
    case (Some r)
    then show ?thesis using round unfold by auto
  next
    case None
    note dec = retry_round_continues [OF fl less.prems round [unfolded None]]
    then have "nat (start + maxRetry - rg_Now e w1) < nat (start + maxRetry - rg_Now e w)" by simp
    from less.hyps [OF this next_interval_ok(2) [OF fl(1) less.prems]] show ?thesis
      using round unfold None by simp
  qed
qed

lemma retry_round_stops:
  assumes "retry_round e fl auth maxRetry start req d w = (Some r, w')"
  shows "\<And>err. r = Inl (RetryTimeout err) \<Longrightarrow> maxRetry \<le> rg_Now e w' - start \<and> \<not> retry_stops err"
    and "\<And>err. r = Inl (Refused err) \<Longrightarrow> retry_stops err"
  using assms by (auto simp: retry_round_def split: if_splits prod.splits sum.splits bool.splits)

section \<open>Properties of registration\<close>


definition ex_registrar_env :: "int registrar_env" where
  "ex_registrar_env = \<lparr>cp_Register = (\<lambda>_ _ w. (Inl (Plain ''connection refused''), w + 1)), rg_ctx_Err = (\<lambda>_. False),
     rg_Now = id, rg_After = (\<lambda>d w. (False, w + d)), rg_rand = (\<lambda>_. 1 / 2)\<rparr>"

definition ex_register_request :: RegisterRequest where
  "ex_register_request = \<lparr>rq_Token = ''t'', rq_PublicKey = ''k'', rq_Hostname = ''h'', rq_Metadata = [], rq_Capabilities = None\<rparr>"



definition ex_identity :: NodeIdentity where
  "ex_identity = \<lparr>ni_NodeID = ''n1'', ni_MeshIP = ''100.64.0.7'', ni_SigningPublicKey = ''spk'', ni_PrivateKey = ''pk'', ni_NodeSecretKey = ''nsk''\<rparr>"

definition ex_id_fs :: FS where
  "ex_id_fs = \<lparr>fs_files = [(''/d/private_key'', ''old'', 384)], fs_dirs = [''/''], fs_faults = [], fs_seen = []\<rparr>"

definition ex_marshal :: "json_identity \<Rightarrow> string + string" where
  "ex_marshal f = (if f = json_fields ex_identity then Inr ''json'' else Inl ''unsupported'')"


end
