(* ===== verification/SiteToSite.thy ===== *)
theory SiteToSite
  imports Bridge
begin

text \<open>
  Site-to-site tunnels of a bridge node, \<open>internal/bridge/site_to_site.go\<close> and
  \<open>site_to_site_handler.go\<close>.  The manager keeps a bounded table of tunnels; establishing one creates
  an interface, configures the peer, enables forwarding and adds routes, and undoes these steps
  when a later one fails.  The VPN controller is an interface of the source without an
  implementation there, so its operations are parameters.
\<close>

section \<open>vpn\_controller.go\<close>

record 'd VPNController =
  vc_CreateTunnelInterface :: "string \<Rightarrow> int \<Rightarrow> 'd \<Rightarrow> string option \<times> 'd"
  vc_RemoveTunnelInterface :: "string \<Rightarrow> 'd \<Rightarrow> string option \<times> 'd"
  vc_ConfigureTunnelPeer :: "string \<Rightarrow> string \<Rightarrow> string list \<Rightarrow> string \<Rightarrow> string \<Rightarrow> 'd \<Rightarrow> string option \<times> 'd"
  vc_RemoveTunnelPeer :: "string \<Rightarrow> string \<Rightarrow> 'd \<Rightarrow> string option \<times> 'd"

section \<open>site\_to\_site.go\<close>

record SiteToSiteManager =
  sm_cfg :: BridgeCfg
  sm_active :: bool
  sm_meshIface :: string
  sm_activeTunnels :: "(string, SiteToSiteTunnel) gomap"

definition NewSiteToSiteManager :: "BridgeCfg \<Rightarrow> SiteToSiteManager" where
  "NewSiteToSiteManager cfg = \<lparr>sm_cfg = cfg, sm_active = False, sm_meshIface = '''', sm_activeTunnels = []\<rparr>"

definition S2S_Setup :: "string \<Rightarrow> SiteToSiteManager \<Rightarrow> string option \<times> SiteToSiteManager" where
  "S2S_Setup meshIface m =
     (if \<not> br_SiteToSiteEnabled (sm_cfg m) then (None, m)
      else (None, m\<lparr>sm_active := True, sm_meshIface := meshIface\<rparr>))"

definition remote_subnets :: "SiteToSiteTunnel \<Rightarrow> string list" where
  "remote_subnets t = (case st_RemoteSubnets t of None \<Rightarrow> [] | Some l \<Rightarrow> l)"

text \<open>The errors of the clean-up of one tunnel, in the order of its steps.\<close>

definition teardown_tunnel ::
    "'d VPNController \<Rightarrow> 'd RouteController \<Rightarrow> string \<Rightarrow> string \<times> SiteToSiteTunnel \<Rightarrow> string list \<times> 'd \<Rightarrow> string list \<times> 'd" where
  "teardown_tunnel ctrl routes meshIface it s =
     (let (i, t) = it; iface = st_InterfaceName t;
          wrap = (\<lambda>what f x d. case f x d of
                    (Some err, d) \<Rightarrow> (Some (''bridge: site-to-site: '' @ what x @ '' for tunnel '' @ i @ '': '' @ err), d)
                  | (None, d) \<Rightarrow> (None, d));
          s = collect_errs (wrap (\<lambda>subnet. ''remove route '' @ subnet) (\<lambda>subnet. rc_RemoveRoute routes subnet iface))
                (remote_subnets t) s;
          s = collect_errs (wrap (\<lambda>_. ''disable forwarding'') (\<lambda>_. rc_DisableForwarding routes iface meshIface)) [''''] s
      in collect_errs (wrap (\<lambda>_. ''remove interface'') (\<lambda>_. vc_RemoveTunnelInterface ctrl iface)) [''''] s)"

definition S2S_Teardown ::
    "'d VPNController \<Rightarrow> 'd RouteController \<Rightarrow> (string list \<Rightarrow> string list) \<Rightarrow> SiteToSiteManager \<Rightarrow> 'd \<Rightarrow>
     string option \<times> SiteToSiteManager \<times> 'd" where
  "S2S_Teardown ctrl routes ord m d =
     (if \<not> sm_active m then (None, m, d)
      else
        let ts = map (\<lambda>i. (i, the (mget (sm_activeTunnels m) i))) (ord (mkeys (sm_activeTunnels m)));
            (errs, d) = fold (teardown_tunnel ctrl routes (sm_meshIface m)) ts ([], d)
        in (errors_Join errs, m\<lparr>sm_active := False, sm_activeTunnels := []\<rparr>, d))"

text \<open>
  The loop that adds the routes of a tunnel; when one fails, the routes added so far are removed in
  the order they were added, then forwarding, the peer and the interface are undone.
\<close>

fun tunnel_routes ::
    "'d VPNController \<Rightarrow> 'd RouteController \<Rightarrow> string \<Rightarrow> SiteToSiteTunnel \<Rightarrow> string list \<Rightarrow> string list \<Rightarrow> 'd \<Rightarrow>
     string option \<times> 'd" where
  "tunnel_routes ctrl routes meshIface t [] added d = (None, d)"
| "tunnel_routes ctrl routes meshIface t (subnet # subnets) added d =
     (let iface = st_InterfaceName t in
      case rc_AddRoute routes subnet iface d of
        (Some err, d) \<Rightarrow>
          let d = fold (\<lambda>a d. snd (rc_RemoveRoute routes a iface d)) added d;
              d = snd (rc_DisableForwarding routes iface meshIface d);
              d = snd (vc_RemoveTunnelPeer ctrl iface (st_RemotePublicKey t) d);
              d = snd (vc_RemoveTunnelInterface ctrl iface d)
          in (Some (''bridge: site-to-site: add route '' @ subnet @ '' for tunnel '' @ st_TunnelID t @ '': '' @ err), d)
      | (None, d) \<Rightarrow> tunnel_routes ctrl routes meshIface t subnets (added @ [subnet]) d)"

definition establish_tunnel ::
    "'d VPNController \<Rightarrow> 'd RouteController \<Rightarrow> string \<Rightarrow> SiteToSiteTunnel \<Rightarrow> 'd \<Rightarrow> string option \<times> 'd" where
  "establish_tunnel ctrl routes meshIface t d =
     (let iface = st_InterfaceName t;
          failed = (\<lambda>what err. Some (''bridge: site-to-site: '' @ what @ '' for tunnel '' @ st_TunnelID t @ '': '' @ err)) in
      case vc_CreateTunnelInterface ctrl iface (st_ListenPort t) d of
        (Some err, d) \<Rightarrow> (failed ''create interface'' err, d)
      | (None, d) \<Rightarrow>
      (case vc_ConfigureTunnelPeer ctrl iface (st_RemotePublicKey t) (remote_subnets t) (st_RemoteEndpoint t) (st_PSK t) d of
        (Some err, d) \<Rightarrow> (failed ''configure peer'' err, snd (vc_RemoveTunnelInterface ctrl iface d))
      | (None, d) \<Rightarrow>
      (case rc_EnableForwarding routes iface meshIface d of
        (Some err, d) \<Rightarrow>
          let d = snd (vc_RemoveTunnelPeer ctrl iface (st_RemotePublicKey t) d)
          in (failed ''enable forwarding'' err, snd (vc_RemoveTunnelInterface ctrl iface d))
      | (None, d) \<Rightarrow> tunnel_routes ctrl routes meshIface t (remote_subnets t) [] d)))"

definition AddTunnel ::
    "'d VPNController \<Rightarrow> 'd RouteController \<Rightarrow> SiteToSiteTunnel \<Rightarrow> SiteToSiteManager \<times> 'd \<Rightarrow>
     string option \<times> SiteToSiteManager \<times> 'd" where
  "AddTunnel ctrl routes t s =
     (let (m, d) = s in
      if \<not> sm_active m then (Some ''bridge: site-to-site: manager is not active'', m, d)
      else if mhas (sm_activeTunnels m) (st_TunnelID t) then
        (Some (''bridge: site-to-site: tunnel already exists: '' @ st_TunnelID t), m, d)
      else if int (length (sm_activeTunnels m)) \<ge> br_MaxSiteToSiteTunnels (sm_cfg m) then
        (Some (''bridge: site-to-site: max tunnels reached ('' @ Itoa (br_MaxSiteToSiteTunnels (sm_cfg m)) @ '')''), m, d)
      else case establish_tunnel ctrl routes (sm_meshIface m) t d of
        (Some err, d) \<Rightarrow> (Some err, m, d)
      | (None, d) \<Rightarrow> (None, m\<lparr>sm_activeTunnels := mput (st_TunnelID t) t (sm_activeTunnels m)\<rparr>, d))"

definition RemoveTunnel ::
    "'d VPNController \<Rightarrow> 'd RouteController \<Rightarrow> string \<Rightarrow> SiteToSiteManager \<times> 'd \<Rightarrow> SiteToSiteManager \<times> 'd" where
  "RemoveTunnel ctrl routes tunnelID s =
     (let (m, d) = s in
      if \<not> sm_active m then (m, d)
      else case mget (sm_activeTunnels m) tunnelID of
        None \<Rightarrow> (m, d)
      | Some t \<Rightarrow>
          let iface = st_InterfaceName t;
              d = fold (\<lambda>subnet d. snd (rc_RemoveRoute routes subnet iface d)) (remote_subnets t) d;
              d = snd (rc_DisableForwarding routes iface (sm_meshIface m) d);
              d = snd (vc_RemoveTunnelPeer ctrl iface (st_RemotePublicKey t) d);
              d = snd (vc_RemoveTunnelInterface ctrl iface d)
          in (m\<lparr>sm_activeTunnels := mdel tunnelID (sm_activeTunnels m)\<rparr>, d))"

definition GetTunnel :: "string \<Rightarrow> SiteToSiteManager \<times> 'd \<Rightarrow> SiteToSiteTunnel option" where
  "GetTunnel tunnelID s = mget (sm_activeTunnels (fst s)) tunnelID"

definition TunnelIDs :: "(string list \<Rightarrow> string list) \<Rightarrow> SiteToSiteManager \<times> 'd \<Rightarrow> string list" where
  "TunnelIDs ord s = ord (mkeys (sm_activeTunnels (fst s)))"

definition SiteToSiteStatus :: "SiteToSiteManager \<Rightarrow> (bool \<times> int) option" where
  "SiteToSiteStatus m = (if \<not> sm_active m then None else Some (True, int (length (sm_activeTunnels m))))"

definition SiteToSiteCapabilities :: "SiteToSiteManager \<Rightarrow> (string, string) gomap option" where
  "SiteToSiteCapabilities m =
     (if \<not> br_SiteToSiteEnabled (sm_cfg m) then None
      else Some [(''site_to_site'', ''true''),
                 (''max_site_to_site_tunnels'', Itoa (br_MaxSiteToSiteTunnels (sm_cfg m)))])"

section \<open>site\_to\_site\_handler.go\<close>

definition HandleSiteToSiteTunnelAssigned ::
    "'d VPNController \<Rightarrow> 'd RouteController \<Rightarrow> (string \<Rightarrow> string + SiteToSiteTunnel) \<Rightarrow> SignedEnvelope \<Rightarrow>
     SiteToSiteManager \<times> 'd \<Rightarrow> string option \<times> SiteToSiteManager \<times> 'd" where
  "HandleSiteToSiteTunnelAssigned ctrl routes unmarshal envelope s =
     (case unmarshal (env_Payload envelope) of
        Inl err \<Rightarrow> (Some (''bridge: site_to_site_tunnel_assigned: parse payload: '' @ err), s)
      | Inr tunnel \<Rightarrow>
          (case AddTunnel ctrl routes tunnel s of
             (Some err, s) \<Rightarrow> (Some (''bridge: site_to_site_tunnel_assigned: '' @ err), s)
           | (None, s) \<Rightarrow> (None, s)))"

definition HandleSiteToSiteTunnelRevoked ::
    "'d VPNController \<Rightarrow> 'd RouteController \<Rightarrow> (string \<Rightarrow> string + string) \<Rightarrow> SignedEnvelope \<Rightarrow>
     SiteToSiteManager \<times> 'd \<Rightarrow> string option \<times> SiteToSiteManager \<times> 'd" where
  "HandleSiteToSiteTunnelRevoked ctrl routes unmarshal envelope s =
     (case unmarshal (env_Payload envelope) of
        Inl err \<Rightarrow> (Some (''bridge: site_to_site_tunnel_revoked: parse payload: '' @ err), s)
      | Inr tunnelID \<Rightarrow> (None, RemoveTunnel ctrl routes tunnelID s))"

definition HandleSiteToSiteConfigUpdated :: "'w Reconciler \<Rightarrow> string option \<times> 'w Reconciler" where
  "HandleSiteToSiteConfigUpdated trigger = (None, TriggerReconcile trigger)"

definition SiteToSiteReconcileHandler ::
    "'d VPNController \<Rightarrow> 'd RouteController \<Rightarrow> (string list \<Rightarrow> string list) \<Rightarrow> StateResponse \<Rightarrow> StateDiff \<Rightarrow>
     SiteToSiteManager \<times> 'd \<Rightarrow> string option outcome \<times> SiteToSiteManager \<times> 'd" where
  "SiteToSiteReconcileHandler ctrl routes ord desired diff s =
     (case sr_SiteToSiteConfig desired of
        None \<Rightarrow> (Ret None, s)
      | Some cfg \<Rightarrow>
          let (err, s) = sync_table (TunnelIDs ord) GetTunnel (AddTunnel ctrl routes) (RemoveTunnel ctrl routes)
                st_TunnelID (\<lambda>current desired. current \<noteq> desired) (sc_Tunnels cfg) (sc_Tunnels cfg) s
          in (Ret err, s))"

section \<open>The tunnel table\<close>

definition s2s_inv :: "SiteToSiteManager \<times> 'd \<Rightarrow> bool" where
  "s2s_inv s \<longleftrightarrow> (let m = fst s in mwf (sm_activeTunnels m) \<and>
     (\<not> sm_active m \<longrightarrow> sm_activeTunnels m = []) \<and>
     int (length (sm_activeTunnels m)) \<le> max 0 (br_MaxSiteToSiteTunnels (sm_cfg m)) \<and>
     (\<forall>i t. mget (sm_activeTunnels m) i = Some t \<longrightarrow> st_TunnelID t = i))"

lemma AddTunnel_result:
  assumes "AddTunnel ctrl routes t (m, d) = (e, m', d')"
  shows "e \<noteq> None \<and> m' = m \<or>
    e = None \<and> sm_active m \<and> \<not> mhas (sm_activeTunnels m) (st_TunnelID t) \<and>
    int (length (sm_activeTunnels m)) < br_MaxSiteToSiteTunnels (sm_cfg m) \<and>
    m' = m\<lparr>sm_activeTunnels := mput (st_TunnelID t) t (sm_activeTunnels m)\<rparr>"
  using assms by (auto simp: AddTunnel_def split: if_splits prod.splits option.splits)

lemma RemoveTunnel_tunnels:
  assumes "s2s_inv s"
  shows "sm_activeTunnels (fst (RemoveTunnel ctrl routes i s)) = mdel i (sm_activeTunnels (fst s))"
    and "sm_active (fst (RemoveTunnel ctrl routes i s)) = sm_active (fst s)"
    and "sm_cfg (fst (RemoveTunnel ctrl routes i s)) = sm_cfg (fst s)"
  using assms by (cases s; auto simp: RemoveTunnel_def Let_def s2s_inv_def mdel_absent split: option.splits)+

interpretation s2s: strict_table GetTunnel "AddTunnel ctrl routes" "RemoveTunnel ctrl routes" st_TunnelID "\<lambda>t. t"
    "s2s_inv :: SiteToSiteManager \<times> 'd \<Rightarrow> bool"
  for ctrl :: "'d VPNController" and routes
proof unfold_locales
  fix t :: SiteToSiteTunnel and s s' :: "SiteToSiteManager \<times> 'd" and k e
  assume inv: "s2s_inv s"
  obtain m d where s: "s = (m, d)" by (cases s)
  show "s2s_inv (snd (AddTunnel ctrl routes t s))"
  proof (cases "AddTunnel ctrl routes t s")
    case (fields x m' d')
    then show ?thesis using AddTunnel_result [of ctrl routes t m d x m' d'] inv s
      by (auto simp: s2s_inv_def Let_def gm.wf_put mlen_put split: if_splits)
  qed
  show "GetTunnel k s' = (if k = st_TunnelID t then Some t else GetTunnel k s)" if "AddTunnel ctrl routes t s = (None, s')"
    using that s AddTunnel_result [of ctrl routes t m d None "fst s'" "snd s'"] by (auto simp: GetTunnel_def)
  show "GetTunnel k s' = GetTunnel k s" if "AddTunnel ctrl routes t s = (Some e, s')"
    using that s AddTunnel_result [of ctrl routes t m d "Some e" "fst s'" "snd s'"] by (auto simp: GetTunnel_def)
next
  fix s :: "SiteToSiteManager \<times> 'd" and j k
  assume inv: "s2s_inv s"
  note r = RemoveTunnel_tunnels [OF inv, of ctrl routes k]
  have wf: "mwf (sm_activeTunnels (fst s))" using inv by (simp add: s2s_inv_def Let_def)
  show "GetTunnel k (RemoveTunnel ctrl routes k s) = None"
    and "j \<noteq> k \<Longrightarrow> GetTunnel j (RemoveTunnel ctrl routes k s) = GetTunnel j s"
    and "GetTunnel k (RemoveTunnel ctrl routes k s) = None \<or> GetTunnel k (RemoveTunnel ctrl routes k s) = GetTunnel k s"
    using wf by (simp_all add: GetTunnel_def r gm.get_del)
  show "s2s_inv (RemoveTunnel ctrl routes k s)"
    using inv mlen_del_le [of k "sm_activeTunnels (fst s)"] wf
    by (auto simp: s2s_inv_def Let_def r gm.wf_del gm.get_del split: if_splits)
qed

section \<open>Properties of site-to-site tunnels\<close>

text \<open>C17: Reconciling site-to-site tunnels never breaks the table (distinct identifiers, at most the
  configured number, none while inactive), whatever fails.  When it reports no error, the active
  tunnels are exactly the desired ones with their desired configuration: stale tunnels are gone and
  changed ones were restarted.\<close>

theorem SiteToSite_reconcile_converges:
  assumes inv: "s2s_inv s" and ord: "\<And>l. mset (ord l) = mset l"
    and cfg: "sr_SiteToSiteConfig desired = Some cfg" and d: "distinct (map st_TunnelID (sc_Tunnels cfg))"
    and run: "SiteToSiteReconcileHandler ctrl routes ord desired diff s = (Ret e, s')"
  shows "s2s_inv s' \<and>
    (e = None \<longrightarrow> (\<forall>k. GetTunnel k s' = mget (desired_set st_TunnelID (sc_Tunnels cfg)) k))"
proof -
  let ?run = "sync_table (TunnelIDs ord) GetTunnel (AddTunnel ctrl routes) (RemoveTunnel ctrl routes)
    st_TunnelID (\<lambda>c d. c \<noteq> d) (sc_Tunnels cfg) (sc_Tunnels cfg) s"
  have r: "?run = (e, s')" using run cfg by (auto simp: SiteToSiteReconcileHandler_def Let_def split: prod.splits)
  have "mwf (sm_activeTunnels (fst s))" using inv by (simp add: s2s_inv_def Let_def)
  then have ids: "distinct (TunnelIDs ord s)" using ord unfolding TunnelIDs_def by (metis mset_eq_imp_distinct_iff)
  have keys: "set (TunnelIDs ord s) = {k. GetTunnel k s \<noteq> None}"
    unfolding TunnelIDs_def GetTunnel_def
    using mset_eq_setD [OF ord, of "mkeys (sm_activeTunnels (fst s))"] gm.set_keys [of "sm_activeTunnels (fst s)"] by simp
  have "s2s_inv s'" using s2s.sync_inv [OF inv, where ctrl = ctrl and routes = routes and ids = "TunnelIDs ord" and
        changed = "\<lambda>c d. c \<noteq> d" and items = "sc_Tunnels cfg" and additions = "sc_Tunnels cfg"] r
    by simp
  moreover have "GetTunnel k s' = mget (desired_set st_TunnelID (sc_Tunnels cfg)) k" if "e = None" for k
    using s2s.sync_converges [OF inv ids keys d refl d _ r [unfolded that], of k] by (simp add: option.map_ident)
  ultimately show ?thesis by blast
qed

definition ex_vpn :: "'d VPNController" where
  "ex_vpn = \<lparr>vc_CreateTunnelInterface = (\<lambda>_ _ d. (None, d)), vc_RemoveTunnelInterface = (\<lambda>_ d. (None, d)),
     vc_ConfigureTunnelPeer = (\<lambda>_ _ _ _ _ d. (None, d)), vc_RemoveTunnelPeer = (\<lambda>_ _ d. (None, d))\<rparr>"

definition ex_tunnel :: "string \<Rightarrow> string \<Rightarrow> SiteToSiteTunnel" where
  "ex_tunnel i iface = \<lparr>st_TunnelID = i, st_RemoteEndpoint = ''198.51.100.9:51823'', st_RemotePublicKey = ''k'',
     st_LocalSubnets = None, st_RemoteSubnets = None, st_PSK = '''', st_InterfaceName = iface, st_ListenPort = 51823\<rparr>"

definition ex_s2s :: SiteToSiteManager where
  "ex_s2s = snd (S2S_Setup ''wg0'' (NewSiteToSiteManager ex_bridge_cfg))"

theorem SiteToSite_reconcile_converges_witness:
  "\<forall>diff. \<exists>s'. SiteToSiteReconcileHandler ex_vpn (NewNetlinkRouteController ex_rk (\<lambda>_. None)) id
      (emptyStateResponse\<lparr>sr_SiteToSiteConfig := Some \<lparr>sc_Enabled = True, sc_Tunnels = [ex_tunnel ''t1'' ''wg-s2s-0'']\<rparr>\<rparr>)
      diff (ex_s2s, []) = (Ret None, s') \<and> GetTunnel ''t1'' s' = Some (ex_tunnel ''t1'' ''wg-s2s-0'')"
proof
  fix diff
  let ?cfg = "\<lparr>sc_Enabled = True, sc_Tunnels = [ex_tunnel ''t1'' ''wg-s2s-0'']\<rparr>"
  let ?des = "emptyStateResponse\<lparr>sr_SiteToSiteConfig := Some ?cfg\<rparr>"
  let ?routes = "NewNetlinkRouteController ex_rk (\<lambda>_. None)"
  have inv: "s2s_inv (ex_s2s, [] :: route list)"
    by (simp add: s2s_inv_def ex_s2s_def S2S_Setup_def NewSiteToSiteManager_def Let_def)
  let ?sync = "sync_table (TunnelIDs id) GetTunnel (AddTunnel ex_vpn ?routes) (RemoveTunnel ex_vpn ?routes) st_TunnelID
      (\<lambda>c d. c \<noteq> d) (sc_Tunnels ?cfg) (sc_Tunnels ?cfg) (ex_s2s, [])"
  obtain e s' where sy: "?sync = (e, s')" by (cases ?sync)
  have "fst ?sync = None" by code_simp
  then have e: "e = None" using sy by simp
  have run: "SiteToSiteReconcileHandler ex_vpn ?routes id ?des diff (ex_s2s, []) = (Ret e, s')"
    using sy by (simp add: SiteToSiteReconcileHandler_def)
  have "mget (desired_set st_TunnelID (sc_Tunnels ?cfg)) ''t1'' = Some (ex_tunnel ''t1'' ''wg-s2s-0'')" by code_simp
  then show "\<exists>s'. SiteToSiteReconcileHandler ex_vpn ?routes id ?des diff (ex_s2s, []) = (Ret None, s') \<and>
      GetTunnel ''t1'' s' = Some (ex_tunnel ''t1'' ''wg-s2s-0'')"
    using SiteToSite_reconcile_converges [OF inv _ _ _ run, of ?cfg] run e by simp
qed

text \<open>What a working sysctl file does, and which operations leave it alone.\<close>

definition sysctl_laws ::
    "'d route_kernel \<Rightarrow> 'd VPNController \<Rightarrow> ('d \<Rightarrow> string \<Rightarrow> string option) \<Rightarrow> bool" where
  "sysctl_laws k ctrl val \<longleftrightarrow>
     (\<forall>p v d. fst (rk_WriteFile k p v d) = None \<and> val (snd (rk_WriteFile k p v d)) = (val d)(p \<mapsto> v)) \<and>
     (\<forall>i d. val (snd (vc_RemoveTunnelInterface ctrl i d)) = val d) \<and>
     (\<forall>i p d. val (snd (vc_RemoveTunnelPeer ctrl i p d)) = val d)"

lemma DisableForwarding_val:
  assumes "sysctl_laws k ctrl val" and "validateIfaceName i = None" and "validateIfaceName j = None"
  shows "val (snd (Route_DisableForwarding k i j d)) = (val d)(sysctl_path i \<mapsto> ''0'', sysctl_path j \<mapsto> ''0'')"
proof -
  have set: "setSysctl k x ''0'' e = (None, snd (rk_WriteFile k (sysctl_path x) ''0'' e))"
    and val: "val (snd (rk_WriteFile k (sysctl_path x) ''0'' e)) = (val e)(sysctl_path x \<mapsto> ''0'')"
    if v: "validateIfaceName x = None" for x e
  proof -
    have "fst (rk_WriteFile k (sysctl_path x) ''0'' e) = None" using assms(1) by (simp add: sysctl_laws_def)
    then obtain e' where "rk_WriteFile k (sysctl_path x) ''0'' e = (None, e')"
      by (metis prod.collapse)
    then show "setSysctl k x ''0'' e = (None, snd (rk_WriteFile k (sysctl_path x) ''0'' e))"
      using v by (simp add: setSysctl_def)
    show "val (snd (rk_WriteFile k (sysctl_path x) ''0'' e)) = (val e)(sysctl_path x \<mapsto> ''0'')"
      using assms(1) by (simp add: sysctl_laws_def)
  qed
  show ?thesis
    unfolding Route_DisableForwarding_def set_both_def set [OF assms(2)]
    by (simp add: set [OF assms(3)] val [OF assms(2)] val [OF assms(3)])
qed

text \<open>Removing one site-to-site tunnel turns off forwarding on the mesh interface itself, although
  other tunnels stay active and need it: the kernel setting is per interface, and the removal sets
  it to 0 for the tunnel and for the mesh.\<close>

theorem RemoveTunnel_stops_mesh_forwarding:
  assumes laws: "sysctl_laws k ctrl val" and act: "sm_active m" and wf: "mwf (sm_activeTunnels m)"
    and t: "mget (sm_activeTunnels m) i = Some t"
    and n: "validateIfaceName (st_InterfaceName t) = None" "validateIfaceName (sm_meshIface m) = None"
    and run: "RemoveTunnel ctrl (NewNetlinkRouteController k ip6) i (m, d) = (m', d')"
  shows "val d' (sysctl_path (sm_meshIface m)) = Some ''0'' \<and>
    (\<forall>j. j \<noteq> i \<longrightarrow> mget (sm_activeTunnels m') j = mget (sm_activeTunnels m) j)"
proof -
  let ?i = "st_InterfaceName t" and ?r = "NewNetlinkRouteController k ip6"
  let ?d1 = "fold (\<lambda>s d. snd (rc_RemoveRoute ?r s ?i d)) (remote_subnets t) d"
  let ?d2 = "snd (rc_DisableForwarding ?r ?i (sm_meshIface m) ?d1)"
  let ?d3 = "snd (vc_RemoveTunnelPeer ctrl ?i (st_RemotePublicKey t) ?d2)"
  have d': "d' = snd (vc_RemoveTunnelInterface ctrl ?i ?d3)"
    and m': "m' = m\<lparr>sm_activeTunnels := mdel i (sm_activeTunnels m)\<rparr>"
    using run act t by (auto simp: RemoveTunnel_def Let_def)
  have "val d' = val ?d2" using laws unfolding d' sysctl_laws_def by simp
  moreover have "val ?d2 (sysctl_path (sm_meshIface m)) = Some ''0''"
    using DisableForwarding_val [OF laws n] by (simp add: NewNetlinkRouteController_def)
  ultimately show ?thesis using m' wf by (simp add: gm.get_del)
qed

text \<open>A kernel whose state is its sysctl files.\<close>

definition ex_sysctl :: "(string \<Rightarrow> string option) route_kernel" where
  "ex_sysctl = \<lparr>rk_WriteFile = (\<lambda>p v d. (None, d(p \<mapsto> v))), rk_LinkByName = (\<lambda>_ _. Inr 1),
     rk_RouteAdd = (\<lambda>_ _ d. (None, d)), rk_RouteDel = (\<lambda>_ _ d. (None, d)), rk_nft_New = (\<lambda>_. None),
     rk_nft_Flush = (\<lambda>_ d. (None, d)), rk_nft_HasTable = (\<lambda>_. Inr False)\<rparr>"

theorem RemoveTunnel_stops_mesh_forwarding_witness:
  "let m = ex_s2s\<lparr>sm_activeTunnels := [(''t1'', ex_tunnel ''t1'' ''wg-s2s-0''), (''t2'', ex_tunnel ''t2'' ''wg-s2s-1'')]\<rparr>;
       (m', d') = RemoveTunnel ex_vpn (NewNetlinkRouteController ex_sysctl (\<lambda>_. None)) ''t1''
         (m, [sysctl_path ''wg0'' \<mapsto> ''1''])
   in d' (sysctl_path ''wg0'') = Some ''0'' \<and> mhas (sm_activeTunnels m') ''t2''"
proof -
  let ?m = "ex_s2s\<lparr>sm_activeTunnels := [(''t1'', ex_tunnel ''t1'' ''wg-s2s-0''), (''t2'', ex_tunnel ''t2'' ''wg-s2s-1'')]\<rparr>"
  have laws: "sysctl_laws ex_sysctl ex_vpn id" by (simp add: sysctl_laws_def ex_sysctl_def ex_vpn_def)
  have m: "sm_active ?m" "sm_meshIface ?m = ''wg0''" by code_simp+
  have n: "validateIfaceName (st_InterfaceName (ex_tunnel ''t1'' ''wg-s2s-0'')) = None" "validateIfaceName (sm_meshIface ?m) = None"
    by code_simp+
  obtain m' d' where run: "RemoveTunnel ex_vpn (NewNetlinkRouteController ex_sysctl (\<lambda>_. None)) ''t1''
      (?m, [sysctl_path ''wg0'' \<mapsto> ''1'']) = (m', d')" by fastforce
  have "id d' (sysctl_path (sm_meshIface ?m)) = Some ''0'' \<and>
      (\<forall>j. j \<noteq> ''t1'' \<longrightarrow> mget (sm_activeTunnels m') j = mget (sm_activeTunnels ?m) j)"
    by (rule RemoveTunnel_stops_mesh_forwarding [OF laws m(1) _ _ n run]) simp_all
  then show ?thesis unfolding Let_def run by (simp add: m(2))
qed

end
