(* ===== verification/Agent.thy ===== *)
theory Agent
  imports NodeApi Actions Forwarding NatTraversal Tunnel Registration SiteToSite WireGuard Policy
begin

text \<open>
  The agent that puts the components together: the heartbeat service (\<open>internal/agent/heartbeat.go\<close>),
  the configuration of the whole agent and its loading (\<open>internal/agent/config.go\<close>, with
  \<open>internal/api/config.go\<close> and the generated file of \<open>internal/packaging/defaultconfig.go\<close>), and the
  callbacks and handlers that \<open>plexd up\<close> installs (\<open>cmd/plexd/cmd/up.go\<close>): key rotation by event and
  by reconciliation, reconciliation and re-registration by heartbeat.

  The YAML decoder is a parameter.  A callback may fail to return, which is \<open>None\<close>.
\<close>

section \<open>api/config.go\<close>

record ApiConfig =
  apc_BaseURL :: string
  apc_TLSInsecureSkipVerify :: bool
  apc_ConnectTimeout :: duration
  apc_RequestTimeout :: duration
  apc_SSEIdleTimeout :: duration

definition ApiConfig_ApplyDefaults :: "ApiConfig \<Rightarrow> ApiConfig" where
  "ApiConfig_ApplyDefaults c =
     (let c = (if apc_ConnectTimeout c = 0 then c\<lparr>apc_ConnectTimeout := 10 * Second\<rparr> else c);
          c = (if apc_RequestTimeout c = 0 then c\<lparr>apc_RequestTimeout := 30 * Second\<rparr> else c)
      in if apc_SSEIdleTimeout c = 0 then c\<lparr>apc_SSEIdleTimeout := 90 * Second\<rparr> else c)"

definition ApiConfig_Validate :: "ApiConfig \<Rightarrow> string option" where
  "ApiConfig_Validate c = (if apc_BaseURL c = '''' then Some ''api: config: BaseURL is required'' else None)"

section \<open>heartbeat.go\<close>

record HeartbeatConfig =
  hbc_Interval :: duration
  hbc_NodeID :: string

definition HeartbeatConfig_ApplyDefaults :: "HeartbeatConfig \<Rightarrow> HeartbeatConfig" where
  "HeartbeatConfig_ApplyDefaults c = (if hbc_Interval c = 0 then c\<lparr>hbc_Interval := 30 * Second\<rparr> else c)"

definition HeartbeatConfig_Validate :: "HeartbeatConfig \<Rightarrow> string option" where
  "HeartbeatConfig_Validate c =
     (if hbc_NodeID c = '''' then Some ''agent: heartbeat config: NodeID is required'' else None)"

record HeartbeatResponse =
  hbr_Reconcile :: bool
  hbr_RotateKeys :: bool

text \<open>The request is only handed through; its type and its zero value are parameters.  A response may be a
  nil pointer, which panics when it is read.\<close>

type_synonym ('r, 'w) HeartbeatClient = "string \<Rightarrow> 'r \<Rightarrow> 'w \<Rightarrow> (go_error + HeartbeatResponse option) \<times> 'w"

record ('r, 'w) HeartbeatService =
  hs_cfg :: HeartbeatConfig
  hs_reconciler :: "('w \<Rightarrow> 'w option) option"
  hs_onAuthFailure :: "('w \<Rightarrow> 'w option) option"
  hs_onRotateKeys :: "('w \<Rightarrow> 'w option) option"
  hs_buildRequest :: "('w \<Rightarrow> 'r \<times> 'w) option"

definition NewHeartbeatService :: "HeartbeatConfig \<Rightarrow> ('r, 'w) HeartbeatService" where
  "NewHeartbeatService cfg = \<lparr>hs_cfg = HeartbeatConfig_ApplyDefaults cfg, hs_reconciler = None, hs_onAuthFailure = None,
     hs_onRotateKeys = None, hs_buildRequest = None\<rparr>"

definition call_if :: "bool \<Rightarrow> ('w \<Rightarrow> 'w option) option \<Rightarrow> 'w \<Rightarrow> 'w option" where
  "call_if b fn w = (if b then (case fn of None \<Rightarrow> Some w | Some f \<Rightarrow> f w) else Some w)"

definition sendHeartbeat ::
    "('r, 'w) HeartbeatClient \<Rightarrow> 'r \<Rightarrow> ('r, 'w) HeartbeatService \<Rightarrow> 'w \<Rightarrow> (unit outcome \<times> 'w) option" where
  "sendHeartbeat client zero s w =
     (let (req, w) = (case hs_buildRequest s of None \<Rightarrow> (zero, w) | Some build \<Rightarrow> build w) in
      case client (hbc_NodeID (hs_cfg s)) req w of
        (Inl err, w) \<Rightarrow> map_option (Pair (Ret ())) (call_if (errors_Is err ErrUnauthorized) (hs_onAuthFailure s) w)
      | (Inr None, w) \<Rightarrow> Some (Panic ''nil pointer dereference'', w)
      | (Inr (Some resp), w) \<Rightarrow>
          map_option (Pair (Ret ()))
            (Option.bind (call_if (hbr_Reconcile resp) (hs_reconciler s) w) (call_if (hbr_RotateKeys resp) (hs_onRotateKeys s))))"

text \<open>The loop of \<open>Run\<close> for the given number of ticks before the context is done.\<close>

fun heartbeat_ticks ::
    "('r, 'w) HeartbeatClient \<Rightarrow> 'r \<Rightarrow> ('r, 'w) HeartbeatService \<Rightarrow> nat \<Rightarrow> 'w \<Rightarrow> (unit outcome \<times> 'w) option" where
  "heartbeat_ticks client zero s 0 w = Some (Ret (), w)"
| "heartbeat_ticks client zero s (Suc n) w =
     (case sendHeartbeat client zero s w of
        None \<Rightarrow> None
      | Some (Panic v, w) \<Rightarrow> Some (Panic v, w)
      | Some (Ret _, w) \<Rightarrow> heartbeat_ticks client zero s n w)"

definition Heartbeat_Run ::
    "('r, 'w) HeartbeatClient \<Rightarrow> 'r \<Rightarrow> ('r, 'w) HeartbeatService \<Rightarrow> nat \<Rightarrow> 'w \<Rightarrow> (unit outcome \<times> 'w) option" where
  "Heartbeat_Run client zero s ticks w =
     (case sendHeartbeat client zero s w of
        None \<Rightarrow> None
      | Some (Panic v, w) \<Rightarrow> Some (Panic v, w)
      | Some (Ret _, w) \<Rightarrow>
          if hbc_Interval (hs_cfg s) \<le> 0 then Some (Panic ''non-positive interval for NewTicker'', w)
          else heartbeat_ticks client zero s ticks w)"

section \<open>agent/config.go\<close>

text \<open>The configuration of peer exchange embeds that of NAT traversal, and so do its two methods.\<close>

record AgentConfig =
  agc_Mode :: string
  agc_LogLevel :: string
  agc_DataDir :: string
  agc_API :: ApiConfig
  agc_Registration :: RegistrationConfig
  agc_Reconcile :: ReconcileConfig
  agc_NodeAPI :: NodeAPIConfig
  agc_Actions :: ActionsConfig
  agc_Policy :: PolicyConfig
  agc_WireGuard :: WGConfig
  agc_Metrics :: FwdConfig
  agc_LogFwd :: FwdConfig
  agc_AuditFwd :: FwdConfig
  agc_Integrity :: IntegrityConfig
  agc_Tunnel :: TunnelConfig
  agc_NAT :: NATConfig
  agc_PeerExchange :: NATConfig
  agc_Bridge :: BridgeCfg
  agc_Heartbeat :: HeartbeatConfig

definition AgentConfig_ApplyDefaults :: "AgentConfig \<Rightarrow> AgentConfig" where
  "AgentConfig_ApplyDefaults c =
     \<lparr>agc_Mode = (if agc_Mode c = '''' then ''node'' else agc_Mode c),
      agc_LogLevel = (if agc_LogLevel c = '''' then ''info'' else agc_LogLevel c),
      agc_DataDir = (if agc_DataDir c = '''' then ''/var/lib/plexd'' else agc_DataDir c),
      agc_API = ApiConfig_ApplyDefaults (agc_API c),
      agc_Registration = RegistrationConfig_ApplyDefaults (agc_Registration c),
      agc_Reconcile = ReconcileConfig_ApplyDefaults (agc_Reconcile c),
      agc_NodeAPI = NodeAPIConfig_ApplyDefaults (agc_NodeAPI c),
      agc_Actions = ActionsConfig_ApplyDefaults (agc_Actions c),
      agc_Policy = PolicyConfig_ApplyDefaults (agc_Policy c),
      agc_WireGuard = WGConfig_ApplyDefaults (agc_WireGuard c),
      agc_Metrics = metrics_ApplyDefaults (agc_Metrics c),
      agc_LogFwd = logfwd_ApplyDefaults (agc_LogFwd c),
      agc_AuditFwd = auditfwd_ApplyDefaults (agc_AuditFwd c),
      agc_Integrity = IntegrityConfig_ApplyDefaults (agc_Integrity c),
      agc_Tunnel = TunnelConfig_ApplyDefaults (agc_Tunnel c),
      agc_NAT = NATConfig_ApplyDefaults (agc_NAT c),
      agc_PeerExchange = NATConfig_ApplyDefaults (agc_PeerExchange c),
      agc_Bridge = BridgeCfg_ApplyDefaults (agc_Bridge c),
      agc_Heartbeat = HeartbeatConfig_ApplyDefaults (agc_Heartbeat c)\<rparr>"

text \<open>The first error of a list of checks.\<close>

fun first_error :: "string option list \<Rightarrow> string option" where
  "first_error [] = None"
| "first_error (None # rest) = first_error rest"
| "first_error (Some err # rest) = Some err"

definition AgentConfig_Validate :: "(string \<Rightarrow> ip option) \<Rightarrow> AgentConfig \<Rightarrow> string option" where
  "AgentConfig_Validate ip6 c =
     (if agc_Mode c \<noteq> ''node'' \<and> agc_Mode c \<noteq> ''bridge'' then Some (''agent: config: invalid mode '' @ agc_Mode c)
      else first_error
        [ApiConfig_Validate (agc_API c), RegistrationConfig_Validate (agc_Registration c),
         ReconcileConfig_Validate (agc_Reconcile c), NodeAPIConfig_Validate (agc_NodeAPI c),
         ActionsConfig_Validate (agc_Actions c), PolicyConfig_Validate (agc_Policy c), WGConfig_Validate (agc_WireGuard c),
         metrics_Validate (agc_Metrics c), logfwd_Validate (agc_LogFwd c), auditfwd_Validate (agc_AuditFwd c),
         IntegrityConfig_Validate (agc_Integrity c), TunnelConfig_Validate (agc_Tunnel c), NATConfig_Validate (agc_NAT c),
         NATConfig_Validate (agc_PeerExchange c), BridgeCfg_Validate ip6 (agc_Bridge c),
         HeartbeatConfig_Validate (agc_Heartbeat c)])"

definition ParseConfig ::
    "(string \<Rightarrow> string + AgentConfig) \<Rightarrow> (string \<Rightarrow> ip option) \<Rightarrow> string \<Rightarrow> FS \<Rightarrow> (string + AgentConfig) \<times> FS" where
  "ParseConfig yaml ip6 path fs =
     (case os_ReadFile path fs of
        (Inl err, fs) \<Rightarrow> (Inl (''agent: config: read '' @ path @ '': '' @ fs_error_text err), fs)
      | (Inr data, fs) \<Rightarrow>
          (case yaml data of
             Inl err \<Rightarrow> (Inl (''agent: config: parse '' @ path @ '': '' @ err), fs)
           | Inr cfg \<Rightarrow>
               (let cfg = AgentConfig_ApplyDefaults cfg in
                case AgentConfig_Validate ip6 cfg of
                  Some err \<Rightarrow> (Inl err, fs)
                | None \<Rightarrow> (Inr cfg, fs))))"

section \<open>packaging/defaultconfig.go\<close>

definition newline :: string where
  "newline = [CHR 0x0A]"

definition GenerateDefaultConfig :: "string \<Rightarrow> string" where
  "GenerateDefaultConfig apiBaseURL =
     ''# plexd configuration'' @ newline @ ''# See documentation for all available options.'' @ newline @ newline
     @ (if apiBaseURL \<noteq> '''' then ''api_url: '' @ apiBaseURL else ''# api_url: https://your-control-plane.example.com'') @ newline
     @ ''data_dir: /var/lib/plexd'' @ newline @ ''log_level: info'' @ newline @ ''token_file: /etc/plexd/bootstrap-token'' @ newline"

section \<open>up.go\<close>

text \<open>\<open>decodeSigningKeys\<close>: a key that cannot be decoded is logged and stays nil; no length is checked.\<close>

definition decode_key :: "string \<Rightarrow> string" where
  "decode_key k = (if k \<noteq> '''' then (case DecodeString k of None \<Rightarrow> [] | Some decoded \<Rightarrow> decoded) else [])"

definition decodeSigningKeys :: "SigningKeys \<Rightarrow> string \<times> string \<times> time" where
  "decodeSigningKeys keys =
     (decode_key (sk_Current keys), decode_key (sk_Previous keys), case sk_TransitionExpires keys of None \<Rightarrow> 0 | Some t \<Rightarrow> t)"

definition set_signing_keys :: "SigningKeys \<Rightarrow> Ed25519Verifier \<Rightarrow> Ed25519Verifier" where
  "set_signing_keys keys v = (case decodeSigningKeys keys of (current, prev, expires) \<Rightarrow> SetKeys current prev expires v)"

text \<open>The handler of the event \<open>signing_key_rotated\<close> and the handler of the reconciler, on the verifier.\<close>

definition signing_key_rotated_handler :: "(string \<Rightarrow> string + SigningKeys) \<Rightarrow> Ed25519Verifier EventHandler" where
  "signing_key_rotated_handler unmarshal env v =
     (case unmarshal (env_Payload env) of
        Inl err \<Rightarrow> (Ret (Some (''plexd up: parse signing_key_rotated: '' @ err)), v)
      | Inr keys \<Rightarrow> (Ret None, set_signing_keys keys v))"

definition signing_keys_reconcile_handler :: "Ed25519Verifier ReconcileHandler" where
  "signing_keys_reconcile_handler desired diff v =
     (if SigningKeysChanged diff
      then case NewSigningKeys diff of None \<Rightarrow> (Ret None, v) | Some keys \<Rightarrow> (Ret None, set_signing_keys keys v)
      else (Ret None, v))"

text \<open>The part of the agent the heartbeat callbacks act on: the reconciler, the registrar with the token of
  the client it shares, the file system and the network.\<close>

record ('w, 'n) up_state =
  up_reconciler :: "'w Reconciler"
  up_registrar :: Registrar
  up_fs :: FS
  up_net :: 'n

definition up_trigger :: "('w, 'n) up_state \<Rightarrow> ('w, 'n) up_state option" where
  "up_trigger u = Some (u\<lparr>up_reconciler := TriggerReconcile (up_reconciler u)\<rparr>)"

definition up_onAuthFailure ::
    "'n registrar_env \<Rightarrow> (rat \<Rightarrow> rat) \<Rightarrow> registration_io \<Rightarrow> ('w, 'n) up_state \<Rightarrow> ('w, 'n) up_state option" where
  "up_onAuthFailure e fl io u =
     (case Registrar_Register e fl io (up_registrar u) (up_fs u) (up_net u) of
        None \<Rightarrow> None
      | Some (Inl err, r, fs, n) \<Rightarrow> Some (u\<lparr>up_registrar := r, up_fs := fs, up_net := n\<rparr>)
      | Some (Inr newIdentity, r, fs, n) \<Rightarrow>
          Some (u\<lparr>up_registrar := r\<lparr>rr_auth := ni_NodeSecretKey newIdentity\<rparr>, up_fs := fs, up_net := n\<rparr>))"

definition up_heartbeat ::
    "'n registrar_env \<Rightarrow> (rat \<Rightarrow> rat) \<Rightarrow> registration_io \<Rightarrow> duration \<Rightarrow> NodeIdentity \<Rightarrow> ('r, ('w, 'n) up_state) HeartbeatService" where
  "up_heartbeat e fl io interval identity =
     (NewHeartbeatService (HeartbeatConfig_ApplyDefaults \<lparr>hbc_Interval = interval, hbc_NodeID = ni_NodeID identity\<rparr>))
       \<lparr>hs_reconciler := Some up_trigger, hs_onAuthFailure := Some (up_onAuthFailure e fl io), hs_onRotateKeys := Some up_trigger\<rparr>"

section \<open>Configuration\<close>

lemma first_error_None: "first_error es = None \<longleftrightarrow> list_all (\<lambda>e. e = None) es"
  by (induction es rule: first_error.induct) simp_all

lemmas forwarding_defaults_idem =
  fwd_defaults_idem [of "10 * Second" "30 * Second" 200, folded logfwd_ApplyDefaults_def]
  fwd_defaults_idem [of "5 * Second" "15 * Second" 500, folded auditfwd_ApplyDefaults_def]
  fwd_defaults_idem [of "15 * Second" "60 * Second" 100, folded metrics_ApplyDefaults_def]

lemma ParseConfig_Inr:
  assumes "ParseConfig yaml ip6 path fs = (Inr cfg, fs')"
  shows "AgentConfig_Validate ip6 cfg = None \<and> (\<exists>raw. cfg = AgentConfig_ApplyDefaults raw)"
  using assms by (auto simp: ParseConfig_def Let_def split: prod.splits sum.splits option.splits)

lemma AgentConfig_Validate_None:
  assumes "AgentConfig_Validate ip6 c = None"
  shows "agc_Mode c = ''node'' \<or> agc_Mode c = ''bridge''"
    and "ApiConfig_Validate (agc_API c) = None" "RegistrationConfig_Validate (agc_Registration c) = None"
    and "ReconcileConfig_Validate (agc_Reconcile c) = None" "NodeAPIConfig_Validate (agc_NodeAPI c) = None"
    and "metrics_Validate (agc_Metrics c) = None" "logfwd_Validate (agc_LogFwd c) = None"
    and "auditfwd_Validate (agc_AuditFwd c) = None" "HeartbeatConfig_Validate (agc_Heartbeat c) = None"
  using assms by (simp_all add: AgentConfig_Validate_def first_error_None split: if_splits)


definition ex_fwd_zero :: FwdConfig where
  "ex_fwd_zero = \<lparr>fc_Enabled = False, fc_CollectInterval = 0, fc_ReportInterval = 0, fc_BatchSize = 0\<rparr>"

definition ex_nat_zero :: NATConfig where
  "ex_nat_zero = \<lparr>nc_Enabled = False, nc_STUNServers = None, nc_RefreshInterval = 0, nc_Timeout = 0\<rparr>"

definition ex_agent_cfg :: "string \<Rightarrow> AgentConfig" where
  "ex_agent_cfg nodeID = \<lparr>agc_Mode = '''', agc_LogLevel = '''', agc_DataDir = '''',
     agc_API = \<lparr>apc_BaseURL = ''https://cp'', apc_TLSInsecureSkipVerify = False, apc_ConnectTimeout = 0, apc_RequestTimeout = 0, apc_SSEIdleTimeout = 0\<rparr>,
     agc_Registration = \<lparr>rg_DataDir = ''/d'', rg_TokenFile = '''', rg_TokenEnv = '''', rg_TokenValue = '''', rg_UseMetadata = False,
       rg_MetadataTokenPath = '''', rg_MetadataTimeout = 0, rg_Hostname = '''', rg_Metadata = [], rg_MaxRetryDuration = 0\<rparr>,
     agc_Reconcile = \<lparr>rcfg_Interval = 0\<rparr>,
     agc_NodeAPI = \<lparr>na_SocketPath = '''', na_HTTPEnabled = False, na_HTTPListen = '''', na_HTTPTokenFile = '''', na_DebouncePeriod = 0,
       na_ShutdownTimeout = 0, na_DataDir = ''/d'', na_SecretAuthEnabled = False\<rparr>,
     agc_Actions = \<lparr>ac_Enabled = False, ac_HooksDir = '''', ac_MaxConcurrent = 0, ac_MaxActionTimeout = 0, ac_MaxOutputBytes = 0\<rparr>,
     agc_Policy = \<lparr>pcf_Enabled = False, pcf_ChainName = ''''\<rparr>, agc_WireGuard = \<lparr>wgc_InterfaceName = '''', wgc_ListenPort = 0, wgc_MTU = 0\<rparr>,
     agc_Metrics = ex_fwd_zero, agc_LogFwd = ex_fwd_zero, agc_AuditFwd = ex_fwd_zero,
     agc_Integrity = \<lparr>ig_Enabled = False, ig_BinaryPath = '''', ig_HooksDir = '''', ig_VerifyInterval = 0\<rparr>,
     agc_Tunnel = \<lparr>tc_Enabled = False, tc_MaxSessions = 0, tc_DefaultTimeout = 0, tc_SSHListenAddr = '''', tc_HostKeyDir = ''''\<rparr>,
     agc_NAT = ex_nat_zero, agc_PeerExchange = ex_nat_zero,
     agc_Bridge = \<lparr>br_Enabled = False, br_AccessInterface = '''', br_AccessSubnets = [], br_EnableNAT = None, br_RelayEnabled = False,
       br_RelayListenPort = 0, br_MaxRelaySessions = 0, br_SessionTTL = 0, br_UserAccessEnabled = False, br_UserAccessInterfaceName = '''',
       br_UserAccessListenPort = 0, br_MaxAccessPeers = 0, br_IngressEnabled = False, br_MaxIngressRules = 0, br_IngressDialTimeout = 0,
       br_SiteToSiteEnabled = False, br_SiteToSiteInterfacePrefix = '''', br_SiteToSiteListenPort = 0, br_MaxSiteToSiteTunnels = 0\<rparr>,
     agc_Heartbeat = \<lparr>hbc_Interval = 0, hbc_NodeID = nodeID\<rparr>\<rparr>"

definition ex_config_fs :: "string \<Rightarrow> FS" where
  "ex_config_fs data = \<lparr>fs_files = [(''/etc/plexd/config.yaml'', (data, 420))], fs_dirs = [], fs_faults = [], fs_seen = []\<rparr>"

lemma ex_config_read: "os_ReadFile ''/etc/plexd/config.yaml'' (ex_config_fs data) = (Inr data, ex_config_fs data)"
  by (simp add: os_ReadFile_def syscall_def ex_config_fs_def)

lemma ex_agent_cfg_valid: "AgentConfig_Validate ip6 (AgentConfig_ApplyDefaults (ex_agent_cfg ''n1'')) = None"
  by (simp add: AgentConfig_Validate_def AgentConfig_ApplyDefaults_def ex_agent_cfg_def ex_fwd_zero_def ex_nat_zero_def
      ApiConfig_Validate_def ApiConfig_ApplyDefaults_def RegistrationConfig_Validate_def RegistrationConfig_ApplyDefaults_def
      ReconcileConfig_Validate_def ReconcileConfig_ApplyDefaults_def NodeAPIConfig_Validate_def NodeAPIConfig_ApplyDefaults_def
      ActionsConfig_Validate_def ActionsConfig_ApplyDefaults_def PolicyConfig_Validate_def PolicyConfig_ApplyDefaults_def
      WGConfig_Validate_def WGConfig_ApplyDefaults_def metrics_Validate_def metrics_ApplyDefaults_def
      logfwd_Validate_def logfwd_ApplyDefaults_def auditfwd_Validate_def auditfwd_ApplyDefaults_def fwd_defaults_def
      IntegrityConfig_Validate_def IntegrityConfig_ApplyDefaults_def TunnelConfig_Validate_def TunnelConfig_ApplyDefaults_def
      NATConfig_Validate_def NATConfig_ApplyDefaults_def nc_servers_def DefaultSTUNServers_def BridgeCfg_Validate_def
      BridgeCfg_ApplyDefaults_def HeartbeatConfig_Validate_def HeartbeatConfig_ApplyDefaults_def Let_def)

lemma ex_agent_parsed:
  "ParseConfig (\<lambda>_. Inr (ex_agent_cfg ''n1'')) ip6 ''/etc/plexd/config.yaml'' (ex_config_fs ''x'')
    = (Inr (AgentConfig_ApplyDefaults (ex_agent_cfg ''n1'')), ex_config_fs ''x'')"
  by (simp add: ParseConfig_def ex_config_read ex_agent_cfg_valid Let_def)


text \<open>The file the installer writes sets none of the required fields, so a decoder that leaves fields without a
  key at their zero value yields a configuration that is always refused.\<close>

lemma default_config_rejected:
  assumes "yaml (GenerateDefaultConfig url) = Inr raw" "hbc_NodeID (agc_Heartbeat raw) = ''''"
  shows "\<exists>err. fst (ParseConfig yaml ip6 ''/etc/plexd/config.yaml'' (ex_config_fs (GenerateDefaultConfig url))) = Inl err"
proof -
  have "hbc_NodeID (agc_Heartbeat (AgentConfig_ApplyDefaults raw)) = ''''"
    using assms(2) by (simp add: AgentConfig_ApplyDefaults_def HeartbeatConfig_ApplyDefaults_def)
  then have "AgentConfig_Validate ip6 (AgentConfig_ApplyDefaults raw) \<noteq> None"
    using AgentConfig_Validate_None(9) [of ip6 "AgentConfig_ApplyDefaults raw"] by (auto simp: HeartbeatConfig_Validate_def)
  then show ?thesis using assms(1) by (auto simp: ParseConfig_def ex_config_read Let_def)
qed

section \<open>Key rotation\<close>

lemma decode_key_EncodeToString: "decode_key (EncodeToString k) = k"
proof (cases "EncodeToString k = ''''")
  case True
  then have "Some k = DecodeString ''''" using DecodeString_EncodeToString [of k] by simp
  then show ?thesis using True by (simp add: decode_key_def DecodeString_def)
next
  case False
  then show ?thesis by (simp add: decode_key_def DecodeString_EncodeToString)
qed

lemma set_signing_keys_encoded:
  "set_signing_keys \<lparr>sk_Current = EncodeToString k, sk_Previous = EncodeToString p, sk_TransitionExpires = e\<rparr> v
     = SetKeys k p (case e of None \<Rightarrow> 0 | Some t \<Rightarrow> t) v"
  by (simp add: set_signing_keys_def decodeSigningKeys_def decode_key_EncodeToString)

text \<open>C36: Key rotation end to end: when the control plane announces, Base64 encoded, a current key of 32 bytes
  and no previous key or one of 32 bytes, the event handler and the handler of the reconciler leave
  the verifier in the same state and with the nonces it knew, and from then on an envelope is
  accepted exactly when it has a signature and a nonce, is fresh, its nonce is not known, and the
  new key signed it or, before the announced end of the transition, the previous one did.\<close>

theorem key_rotation_effective:
  assumes "length k = 32" "p = [] \<or> length p = 32"
    and "unmarshal (env_Payload ev) = Inr \<lparr>sk_Current = EncodeToString k, sk_Previous = EncodeToString p, sk_TransitionExpires = Some expires\<rparr>"
    and "SigningKeysChanged diff" "NewSigningKeys diff = Some \<lparr>sk_Current = EncodeToString k, sk_Previous = EncodeToString p, sk_TransitionExpires = Some expires\<rparr>"
  shows "\<exists>v'. signing_key_rotated_handler unmarshal ev v = (Ret None, v') \<and> signing_keys_reconcile_handler desired diff v = (Ret None, v')
    \<and> v_nonces v' = v_nonces v
    \<and> (fst (Verify ed canon c env v') = Ret None \<longleftrightarrow>
        env_Signature env \<noteq> '''' \<and> env_Nonce env \<noteq> '''' \<and> fresh c env
        \<and> (\<exists>msg sig. canon (canonical_of env) = Some msg \<and> DecodeString (env_Signature env) = Some sig
            \<and> (ed k msg sig \<or> p \<noteq> [] \<and> t_transition c < expires \<and> ed p msg sig))
        \<and> mget (known_nonces c (v_nonces v)) (env_Nonce env) = None)"
proof -
  let ?v = "SetKeys k p expires v"
  have h: "signing_key_rotated_handler unmarshal ev v = (Ret None, ?v)" "signing_keys_reconcile_handler desired diff v = (Ret None, ?v)"
    using assms(3-5) by (simp_all add: signing_key_rotated_handler_def signing_keys_reconcile_handler_def set_signing_keys_encoded)
  have ok: "keys_ok ?v" using assms(1,2) by (simp add: keys_ok_def SetKeys_def)
  have n: "v_nonces ?v = v_nonces v" by (simp add: SetKeys_def)
  have "fst (Verify ed canon c env ?v) = Ret None \<longleftrightarrow>
      env_Signature env \<noteq> '''' \<and> env_Nonce env \<noteq> '''' \<and> fresh c env \<and> authentic ed canon (t_transition c) ?v env
      \<and> mget (known_nonces c (v_nonces ?v)) (env_Nonce env) = None"
    using Verify_no_panic_ok [OF ok, of ed canon c env] NonceStore_Add_ok
    by (cases "env_Signature env \<noteq> '''' \<and> env_Nonce env \<noteq> '''' \<and> fresh c env \<and> authentic ed canon (t_transition c) ?v env")
      (auto simp: prod_eq_iff)
  then have a: "fst (Verify ed canon c env ?v) = Ret None \<longleftrightarrow>
      env_Signature env \<noteq> '''' \<and> env_Nonce env \<noteq> '''' \<and> fresh c env
      \<and> (\<exists>msg sig. canon (canonical_of env) = Some msg \<and> DecodeString (env_Signature env) = Some sig
          \<and> (ed k msg sig \<or> p \<noteq> [] \<and> t_transition c < expires \<and> ed p msg sig))
      \<and> mget (known_nonces c (v_nonces v)) (env_Nonce env) = None"
    unfolding n by (simp add: authentic_def SetKeys_def)
  show ?thesis using h n a by (intro exI [of _ ?v] conjI)
qed

definition ex_rotation :: SigningKeys where
  "ex_rotation = \<lparr>sk_Current = EncodeToString (replicate 32 (CHR ''q'')), sk_Previous = EncodeToString (replicate 32 (CHR ''k'')),
     sk_TransitionExpires = Some 5000\<rparr>"

theorem key_rotation_effective_witness:
  "\<exists>v'. signing_key_rotated_handler (\<lambda>_. Inr ex_rotation) (EventVerifier.ex_env ''r'' 900) EventVerifier.ex_verifier = (Ret None, v')
    \<and> fst (Verify (\<lambda>key _ _. key = replicate 32 (CHR ''q'')) (\<lambda>_. Some ''m'') (EventVerifier.ex_clock 1000 1000) (EventVerifier.ex_env ''n'' 1000) v') = Ret None"
proof -
  let ?diff = "emptyStateDiff\<lparr>SigningKeysChanged := True, NewSigningKeys := Some ex_rotation\<rparr>"
  show ?thesis
    using key_rotation_effective [of "replicate 32 (CHR ''q'')" "replicate 32 (CHR ''k'')" "\<lambda>_. Inr ex_rotation" "EventVerifier.ex_env ''r'' 900" 5000 ?diff
        EventVerifier.ex_verifier emptyStateResponse "\<lambda>key _ _. key = replicate 32 (CHR ''q'')" "\<lambda>_. Some ''m''" "EventVerifier.ex_clock 1000 1000" "EventVerifier.ex_env ''n'' 1000"]
    by (auto simp: ex_rotation_def EventVerifier.ex_env_def EventVerifier.ex_clock_def fresh_def EventVerifier.ex_decode known_nonces_def EventVerifier.ex_verifier_def
        NewEd25519Verifier_def NewNonceStore_def)
qed

text \<open>A current key that is missing, not Base64 or of another length is installed as well, and then the next
  fresh event panics.\<close>

lemma rotation_to_bad_key_panics:
  assumes "length (decode_key (sk_Current keys)) \<noteq> 32"
    and "env_Signature env \<noteq> ''''" "env_Nonce env \<noteq> ''''" "fresh c env"
    and "DecodeString (env_Signature env) \<noteq> None" "canon (canonical_of env) \<noteq> None"
  shows "fst (Verify ed canon c env (set_signing_keys keys v)) = Panic ''ed25519: bad public key length''"
proof -
  have "v_currentKey (set_signing_keys keys v) = decode_key (sk_Current keys)"
    by (simp add: set_signing_keys_def decodeSigningKeys_def SetKeys_def)
  then show ?thesis using Verify_panics_on_bad_key [of "set_signing_keys keys v" env c canon ed] assms by simp
qed

section \<open>Heartbeats\<close>

text \<open>The answers to the given number of heartbeats, and the network after them.\<close>

fun heartbeat_answers ::
    "(string \<Rightarrow> 'r \<Rightarrow> 'n \<Rightarrow> (go_error + HeartbeatResponse option) \<times> 'n) \<Rightarrow> string \<Rightarrow> 'r \<Rightarrow> nat \<Rightarrow> 'n \<Rightarrow>
     (go_error + HeartbeatResponse option) list \<times> 'n" where
  "heartbeat_answers send nodeID req 0 n = ([], n)"
| "heartbeat_answers send nodeID req (Suc k) n =
     (case send nodeID req n of (a, n) \<Rightarrow> case heartbeat_answers send nodeID req k n of (as, n) \<Rightarrow> (a # as, n))"

fun directive :: "go_error + HeartbeatResponse option \<Rightarrow> bool" where
  "directive (Inr (Some resp)) = (hbr_Reconcile resp \<or> hbr_RotateKeys resp)"
| "directive _ = False"

text \<open>The client of \<open>plexd up\<close> sends over the network of the agent.\<close>

definition up_client ::
    "(string \<Rightarrow> 'r \<Rightarrow> 'n \<Rightarrow> (go_error + HeartbeatResponse option) \<times> 'n) \<Rightarrow> ('r, ('w, 'n) up_state) HeartbeatClient" where
  "up_client send nodeID req u = (case send nodeID req (up_net u) of (a, n) \<Rightarrow> (a, u\<lparr>up_net := n\<rparr>))"

text \<open>The identity is stored, and the client uses its secret key.\<close>

definition registered :: "registration_io \<Rightarrow> NodeIdentity \<Rightarrow> ('w, 'n) up_state \<Rightarrow> bool" where
  "registered io identity u \<longleftrightarrow>
     LoadIdentity (io_unmarshal io) (rg_DataDir (rr_cfg (up_registrar u))) (up_fs u) = (Inr identity, up_fs u)
     \<and> rr_auth (up_registrar u) = ni_NodeSecretKey identity"

lemma up_onAuthFailure_registered:
  assumes "registered io identity u"
  shows "up_onAuthFailure e fl io u = Some u"
  using assms by (simp add: registered_def up_onAuthFailure_def Registrar_Register_def)

definition pending :: "bool \<Rightarrow> ('w, 'n) up_state \<Rightarrow> ('w, 'n) up_state" where
  "pending d u = (if d then u\<lparr>up_reconciler := TriggerReconcile (up_reconciler u)\<rparr> else u)"

lemma TriggerReconcile_idem: "TriggerReconcile (TriggerReconcile r) = TriggerReconcile r"
  by (simp add: TriggerReconcile_def)

lemma pending_pending: "pending a (pending b u) = pending (a \<or> b) u"
  by (simp add: pending_def TriggerReconcile_idem)

lemma registered_net [simp]: "registered io identity (u\<lparr>up_net := n\<rparr>) = registered io identity u"
  by (simp add: registered_def)

lemma registered_pending [simp]: "registered io identity (pending d u) = registered io identity u"
  by (simp add: registered_def pending_def)

lemma pending_net: "(pending d u)\<lparr>up_net := n\<rparr> = pending d (u\<lparr>up_net := n\<rparr>)" "up_net (pending d u) = up_net u"
  by (simp_all add: pending_def)

lemma up_heartbeat_interval:
  "0 \<le> interval \<Longrightarrow> \<not> hbc_Interval (hs_cfg (up_heartbeat e fl io interval identity)) \<le> 0"
  by (simp add: up_heartbeat_def NewHeartbeatService_def HeartbeatConfig_ApplyDefaults_def)

lemma sendHeartbeat_up:
  assumes "registered io identity u" "send (ni_NodeID identity) zero (up_net u) = (a, n)" "a \<noteq> Inr None"
  shows "sendHeartbeat (up_client send) zero (up_heartbeat e fl io interval identity) u
     = Some (Ret (), pending (directive a) (u\<lparr>up_net := n\<rparr>))"
  using assms up_onAuthFailure_registered [of io identity "u\<lparr>up_net := n\<rparr>" e fl]
  by (cases a rule: directive.cases)
    (auto simp: sendHeartbeat_def up_heartbeat_def NewHeartbeatService_def HeartbeatConfig_ApplyDefaults_def up_client_def
      call_if_def up_trigger_def pending_def TriggerReconcile_idem)

lemma heartbeat_ticks_up:
  assumes "registered io identity u" "heartbeat_answers send (ni_NodeID identity) zero k (up_net u) = (as, n)" "Inr None \<notin> set as"
  shows "heartbeat_ticks (up_client send) zero (up_heartbeat e fl io interval identity) k u
     = Some (Ret (), pending (list_ex directive as) (u\<lparr>up_net := n\<rparr>))"
  using assms
proof (induction k arbitrary: u as)
  case 0
  then show ?case by (simp add: pending_def)
next
  case (Suc k)
  obtain a n1 where a: "send (ni_NodeID identity) zero (up_net u) = (a, n1)" by (cases "send (ni_NodeID identity) zero (up_net u)")
  obtain as' where as': "heartbeat_answers send (ni_NodeID identity) zero k n1 = (as', n)" "as = a # as'"
    using Suc.prems(2) a by (auto split: prod.splits)
  let ?u = "pending (directive a) (u\<lparr>up_net := n1\<rparr>)"
  have "heartbeat_ticks (up_client send) zero (up_heartbeat e fl io interval identity) k ?u
      = Some (Ret (), pending (list_ex directive as') (?u\<lparr>up_net := n\<rparr>))"
    using Suc.prems as' by (intro Suc.IH) (simp_all add: pending_net)
  moreover have "a \<noteq> Inr None" using Suc.prems(3) as'(2) by auto
  then have "sendHeartbeat (up_client send) zero (up_heartbeat e fl io interval identity) u = Some (Ret (), ?u)"
    by (rule sendHeartbeat_up [where send = send and zero = zero, OF Suc.prems(1) a])
  ultimately show ?case using as'(2) by (simp add: pending_net pending_pending disj_commute)
qed


text \<open>A node whose files are on disk, and a control plane that first answers 401 and then asks for new keys.\<close>

definition ex_up_io :: registration_io where
  "ex_up_io = \<lparr>io_marshal = (\<lambda>_. Inr ''j''), io_unmarshal = (\<lambda>_. Inr (''n1'', ''10.0.0.1'', ''QUJD'')), io_getenv = (\<lambda>_. ''''),
     io_metadata = None, io_random = Inl ''none'', io_x25519 = (\<lambda>_. Inl ''none''), io_hostname = Inr ''h''\<rparr>"

definition ex_up_identity :: NodeIdentity where
  "ex_up_identity = \<lparr>ni_NodeID = ''n1'', ni_MeshIP = ''10.0.0.1'', ni_SigningPublicKey = ''QUJD'', ni_PrivateKey = ''ABC'', ni_NodeSecretKey = ''s''\<rparr>"

definition ex_up :: "(unit, int) up_state" where
  "ex_up = \<lparr>up_reconciler = NewReconciler None \<lparr>rcfg_Interval = 0\<rparr>,
     up_registrar = (NewRegistrar (agc_Registration (ex_agent_cfg ''n1'')))\<lparr>rr_auth := ''s''\<rparr>,
     up_fs = \<lparr>fs_files = [(''/d/identity.json'', ''j'', 384), (''/d/private_key'', ''QUJD'', 384), (''/d/node_secret_key'', ''s'', 384),
       (''/d/signing_public_key'', ''QUJD'', 384)], fs_dirs = [], fs_faults = [], fs_seen = []\<rparr>, up_net = 0\<rparr>"

definition ex_send :: "string \<Rightarrow> unit \<Rightarrow> int \<Rightarrow> (go_error + HeartbeatResponse option) \<times> int" where
  "ex_send nodeID req n =
     (if n = 0 then Inl (Api (sentinel 401 ''unauthorized'')) else Inr (Some \<lparr>hbr_Reconcile = False, hbr_RotateKeys = True\<rparr>), n + 1)"

lemma ex_up_registered: "registered ex_up_io ex_up_identity ex_up"
  by code_simp


end
