(* ===== verification/Kubernetes.thy ===== *)
theory Kubernetes
  imports GoHttp Files Forwarding
begin

text \<open>
  The Kubernetes integration, \<open>internal/kubernetes\<close>: the detection of the environment (\<open>detect.go\<close>) and
  the configuration (\<open>config.go\<close>), the authentication of tokens by the TokenReview API (\<open>auth.go\<close>), the
  reader of the audit log (\<open>auditreader.go\<close>), and the controller of the custom resource and its
  secrets (\<open>crdcontroller.go\<close>, \<open>interfaces.go\<close>).

  The API server is reached through parameters: the HTTP client of the token review and the client
  of the controller, whose documented behaviour is the predicate \<open>kube_laws\<close>.  The JSON codec and the
  parser of RFC 3339 times are parameters too.
\<close>

section \<open>detect.go\<close>

record KubernetesEnvironment =
  ke_InCluster :: bool
  ke_Namespace :: string
  ke_PodName :: string
  ke_NodeName :: string
  ke_ServiceAccountToken :: string

abbreviation DefaultTokenPath :: string where
  "DefaultTokenPath \<equiv> ''/var/run/secrets/kubernetes.io/serviceaccount/token''"

abbreviation DefaultNamespacePath :: string where
  "DefaultNamespacePath \<equiv> ''/var/run/secrets/kubernetes.io/serviceaccount/namespace''"

definition os_Stat :: "string \<Rightarrow> FS \<Rightarrow> bool \<times> FS" where
  "os_Stat path fs =
     (case syscall fs of
        (Fault e k, fs) \<Rightarrow> (False, fs)
      | (NoFault, fs) \<Rightarrow> (mhas (fs_files fs) path \<or> path \<in> set (fs_dirs fs), fs))"

definition Detect :: "(string \<Rightarrow> string) \<Rightarrow> FS \<Rightarrow> KubernetesEnvironment \<times> FS" where
  "Detect getenv fs =
     (let outside = \<lparr>ke_InCluster = False, ke_Namespace = '''', ke_PodName = '''', ke_NodeName = '''', ke_ServiceAccountToken = ''''\<rparr> in
      if getenv ''KUBERNETES_SERVICE_HOST'' = '''' then (outside, fs)
      else case os_Stat DefaultTokenPath fs of
        (False, fs) \<Rightarrow> (outside, fs)
      | (True, fs) \<Rightarrow>
          (case os_ReadFile DefaultNamespacePath fs of (ns, fs) \<Rightarrow>
             (\<lparr>ke_InCluster = True, ke_Namespace = (case ns of Inl _ \<Rightarrow> '''' | Inr n \<Rightarrow> n), ke_PodName = getenv ''HOSTNAME'',
               ke_NodeName = getenv ''MY_NODE_NAME'', ke_ServiceAccountToken = DefaultTokenPath\<rparr>, fs)))"

section \<open>config.go\<close>

record KubeConfig =
  kc_Enabled :: bool
  kc_CRDEnabled :: bool
  kc_Namespace :: string
  kc_AuditLogPath :: string
  kc_CRDSyncInterval :: duration
  kc_TokenPath :: string

definition KubeConfig_ApplyDefaults :: "KubernetesEnvironment option \<Rightarrow> KubeConfig \<Rightarrow> KubeConfig" where
  "KubeConfig_ApplyDefaults env c =
     (let c = (case env of
                 None \<Rightarrow> c
               | Some e \<Rightarrow>
                   if ke_InCluster e
                   then c\<lparr>kc_Enabled := True, kc_CRDEnabled := True,
                          kc_Namespace := (if kc_Namespace c = '''' then ke_Namespace e else kc_Namespace c)\<rparr>
                   else c);
          c = (if kc_AuditLogPath c = '''' then c\<lparr>kc_AuditLogPath := ''/var/log/kubernetes/audit/audit.log''\<rparr> else c);
          c = (if kc_CRDSyncInterval c = 0 then c\<lparr>kc_CRDSyncInterval := 10 * Second\<rparr> else c)
      in if kc_TokenPath c = '''' then c\<lparr>kc_TokenPath := DefaultTokenPath\<rparr> else c)"

definition KubeConfig_Validate :: "KubeConfig \<Rightarrow> string option" where
  "KubeConfig_Validate c =
     (if \<not> kc_Enabled c then None
      else if kc_Namespace c = '''' then Some ''kubernetes: config: Namespace is required when Kubernetes is enabled''
      else if kc_AuditLogPath c = '''' then Some ''kubernetes: config: AuditLogPath must not be empty''
      else if kc_CRDSyncInterval c < Second then Some ''kubernetes: config: CRDSyncInterval must be at least 1s''
      else if kc_TokenPath c = '''' then Some ''kubernetes: config: TokenPath must not be empty''
      else None)"

section \<open>auth.go\<close>

record TokenReviewResult =
  trr_Authenticated :: bool
  trr_Username :: string
  trr_UID :: string
  trr_Groups :: "string list"
  trr_Audiences :: "string list"

definition audienceMatch :: "string list \<Rightarrow> string list \<Rightarrow> bool" where
  "audienceMatch expected actual = list_ex (\<lambda>e. e \<in> set actual) expected"

type_synonym 'w TokenReviewClient = "string \<Rightarrow> 'w \<Rightarrow> (string + TokenReviewResult) \<times> 'w"

definition Authenticate :: "'w TokenReviewClient \<Rightarrow> string list \<Rightarrow> string \<Rightarrow> 'w \<Rightarrow> (string + TokenReviewResult) \<times> 'w" where
  "Authenticate client audiences token w =
     (if token = '''' then (Inl ''kubernetes: authenticate: empty token'', w)
      else case client token w of
        (Inl err, w) \<Rightarrow> (Inl (''kubernetes: authenticate: review failed: '' @ err), w)
      | (Inr result, w) \<Rightarrow>
          if \<not> trr_Authenticated result then (Inl ''kubernetes: authenticate: token not authenticated'', w)
          else if length audiences > 0 \<and> \<not> audienceMatch audiences (trr_Audiences result)
          then (Inl ''kubernetes: authenticate: audience mismatch'', w)
          else (Inr result, w))"

text \<open>A handler behind the middleware gets the identity in the context of the request.\<close>

type_synonym 'w identity_handler = "TokenReviewResult \<Rightarrow> Request \<Rightarrow> 'w \<Rightarrow> (int \<times> string) \<times> 'w"

definition TokenReviewMiddleware ::
    "'w TokenReviewClient \<Rightarrow> string list \<Rightarrow> 'w identity_handler \<Rightarrow> Request \<Rightarrow> 'w \<Rightarrow> (int \<times> string) \<times> 'w" where
  "TokenReviewMiddleware client audiences next r w =
     (let header = rq_Authorization r in
      if \<not> HasPrefix header ''Bearer '' then ((401, ''missing or invalid Authorization header''), w)
      else case Authenticate client audiences (TrimPrefix header ''Bearer '') w of
        (Inl err, w) \<Rightarrow> ((401, ''authentication failed''), w)
      | (Inr result, w) \<Rightarrow> next result r w)"

record tokenReviewUser =
  tru_Username :: string
  tru_UID :: string
  tru_Groups :: "string list"

record tokenReviewStatus =
  trs_Authenticated :: bool
  trs_User :: "tokenReviewUser option"
  trs_Audiences :: "string list"
  trs_Error :: string

text \<open>A review request: the URL, the \<open>Authorization\<close> header and the token in the body.  The transport
  answers with an error, which is also the result of a URL that does not parse, or with a status code
  and the body, whose reading may fail.\<close>

record review_request =
  vr_URL :: string
  vr_Authorization :: string
  vr_Token :: string

type_synonym 'w review_http = "review_request \<Rightarrow> 'w \<Rightarrow> (string + int \<times> (string + string)) \<times> 'w"

definition Review ::
    "'w review_http \<Rightarrow> (string \<Rightarrow> string + tokenReviewStatus) \<Rightarrow> string \<Rightarrow> ('w \<Rightarrow> string + string) \<Rightarrow> 'w TokenReviewClient" where
  "Review http unmarshal apiServer readToken token w =
     (case readToken w of
        Inl err \<Rightarrow> (Inl (''kubernetes: token review: read service account token: '' @ err), w)
      | Inr saToken \<Rightarrow>
          (case http \<lparr>vr_URL = apiServer @ ''/apis/authentication.k8s.io/v1/tokenreviews'',
                      vr_Authorization = ''Bearer '' @ TrimSpace saToken, vr_Token = token\<rparr> w of
             (Inl err, w) \<Rightarrow> (Inl (''kubernetes: token review: http request: '' @ err), w)
           | (Inr (status, Inl err), w) \<Rightarrow> (Inl (''kubernetes: token review: read response: '' @ err), w)
           | (Inr (status, Inr body), w) \<Rightarrow>
               if status \<noteq> 200 \<and> status \<noteq> 201
               then (Inl (''kubernetes: token review: unexpected status '' @ Itoa status @ '': ''
                  @ (if length body > 256 then take 256 body @ ''...(truncated)'' else body)), w)
               else case unmarshal body of
                 Inl err \<Rightarrow> (Inl (''kubernetes: token review: unmarshal response: '' @ err), w)
               | Inr st \<Rightarrow>
                   if trs_Error st \<noteq> '''' then (Inl (''kubernetes: token review: api error: '' @ trs_Error st), w)
                   else (Inr (case trs_User st of
                      None \<Rightarrow> \<lparr>trr_Authenticated = trs_Authenticated st, trr_Username = '''', trr_UID = '''', trr_Groups = [], trr_Audiences = trs_Audiences st\<rparr>
                    | Some u \<Rightarrow> \<lparr>trr_Authenticated = trs_Authenticated st, trr_Username = tru_Username u, trr_UID = tru_UID u,
                        trr_Groups = tru_Groups u, trr_Audiences = trs_Audiences st\<rparr>), w)))"

section \<open>auditreader.go\<close>

record k8sAuditEvent =
  kae_Kind :: string
  kae_Level :: string
  kae_Verb :: string
  kae_RequestURI :: string
  kae_User :: K8sUser
  kae_ObjectRef :: "K8sObjectRef option"
  kae_ResponseStatus :: "int option"
  kae_RequestReceivedTimestamp :: string
  kae_StageTimestamp :: string

record K8sAuditLogReader =
  alr_path :: string
  alr_offset :: nat

definition NewK8sAuditLogReader :: "string \<Rightarrow> K8sAuditLogReader" where
  "NewK8sAuditLogReader path = \<lparr>alr_path = path, alr_offset = 0\<rparr>"

text \<open>\<open>bufio.Scanner\<close> with the line splitter: the lines without their newline, the last one also when it has
  none.  A line that does not fit the buffer of 64 KiB is the error \<open>ErrTooLong\<close>; a carriage return at
  the end of a line is dropped.\<close>

fun scan_lines :: "string \<Rightarrow> string \<Rightarrow> string list" where
  "scan_lines acc [] = (if acc = [] then [] else [rev acc])"
| "scan_lines acc (c # cs) = (if c = CHR 0x0A then rev acc # scan_lines [] cs else scan_lines (c # acc) cs)"

abbreviation MaxScanTokenSize :: nat where "MaxScanTokenSize \<equiv> 65536"

definition dropCR :: "string \<Rightarrow> string" where
  "dropCR line = (if line \<noteq> [] \<and> last line = CHR 0x0D then butlast line else line)"

definition scanner_lines :: "string \<Rightarrow> string + string list" where
  "scanner_lines data =
     (let lines = scan_lines [] data in
      if list_ex (\<lambda>l. length l \<ge> MaxScanTokenSize) lines then Inl ''bufio.Scanner: token too long''
      else Inr (map dropCR lines))"

text \<open>One line of the log: the loop body of \<open>ReadEvents\<close>.\<close>

definition audit_entry_of :: "(string \<Rightarrow> time option) \<Rightarrow> string \<Rightarrow> k8sAuditEvent \<Rightarrow> K8sAuditEntry" where
  "audit_entry_of parseTime line evt =
     \<lparr>ka_Timestamp = (case parseTime (kae_StageTimestamp evt) of
          Some ts \<Rightarrow> ts
        | None \<Rightarrow> (case parseTime (kae_RequestReceivedTimestamp evt) of Some ts \<Rightarrow> ts | None \<Rightarrow> 0)),
      ka_Verb = kae_Verb evt, ka_User = kae_User evt,
      ka_ObjectRef = (case kae_ObjectRef evt of None \<Rightarrow> \<lparr>ko_Resource = '''', ko_Namespace = '''', ko_Name = ''''\<rparr> | Some ref \<Rightarrow> ref),
      ka_RequestURI = kae_RequestURI evt, ka_ResponseStatus = (case kae_ResponseStatus evt of None \<Rightarrow> 0 | Some code \<Rightarrow> code),
      ka_Raw = line\<rparr>"

definition audit_line :: "(string \<Rightarrow> string + k8sAuditEvent) \<Rightarrow> (string \<Rightarrow> time option) \<Rightarrow> string \<Rightarrow> K8sAuditEntry list" where
  "audit_line unmarshal parseTime line =
     (if line = '''' then []
      else case unmarshal line of
        Inl err \<Rightarrow> []
      | Inr evt \<Rightarrow> [audit_entry_of parseTime line evt])"

text \<open>The file is read as it is at the call; without a file, opening fails.\<close>

definition ReadEvents ::
    "(string \<Rightarrow> string + k8sAuditEvent) \<Rightarrow> (string \<Rightarrow> time option) \<Rightarrow> string option \<Rightarrow> K8sAuditLogReader \<Rightarrow>
     (string + K8sAuditEntry list) \<times> K8sAuditLogReader" where
  "ReadEvents unmarshal parseTime file r =
     (case file of
        None \<Rightarrow> (Inl (''kubernetes: audit-reader: open '' @ alr_path r @ '': no such file or directory''), r)
      | Some data \<Rightarrow>
          (let r = (if length data < alr_offset r then r\<lparr>alr_offset := 0\<rparr> else r) in
           case scanner_lines (drop (alr_offset r) data) of
             Inl err \<Rightarrow> (Inl (''kubernetes: audit-reader: scan: '' @ err), r)
           | Inr lines \<Rightarrow> (Inr (concat (map (audit_line unmarshal parseTime) lines)), r\<lparr>alr_offset := length data\<rparr>)))"

section \<open>interfaces.go\<close>

datatype kube_error = ErrNotFound | ErrAlreadyExists | ErrOther string

record KubeDataEntry =
  kd_Key :: string
  kd_ContentType :: string
  kd_Payload :: string
  kd_Version :: int
  kd_UpdatedAt :: string

record KubeSecretRef =
  kr_Key :: string
  kr_SecretName :: string
  kr_Version :: int

record PlexdNodeStateSpec =
  sp_NodeID :: string
  sp_MeshIP :: string
  sp_Metadata :: "(string, string) gomap"
  sp_Data :: "KubeDataEntry list"
  sp_SecretRefs :: "KubeSecretRef list"

record PlexdNodeState =
  pn_Name :: string
  pn_Namespace :: string
  pn_UID :: string
  pn_ResourceVersion :: string
  pn_Labels :: "(string, string) gomap"
  pn_Spec :: PlexdNodeStateSpec
  pn_Report :: "KubeDataEntry list"
  pn_LastUpdate :: time

record KubeSecret =
  kt_Name :: string
  kt_Namespace :: string
  kt_Labels :: "(string, string) gomap"
  kt_Data :: "(string, string) gomap"
  kt_OwnerRefName :: string
  kt_OwnerRefUID :: string

record 'w KubeClient =
  kk_GetNodeState :: "string \<Rightarrow> string \<Rightarrow> 'w \<Rightarrow> (kube_error + PlexdNodeState) \<times> 'w"
  kk_CreateNodeState :: "PlexdNodeState \<Rightarrow> 'w \<Rightarrow> kube_error option \<times> 'w"
  kk_UpdateNodeState :: "PlexdNodeState \<Rightarrow> 'w \<Rightarrow> kube_error option \<times> 'w"
  kk_CreateSecret :: "KubeSecret \<Rightarrow> 'w \<Rightarrow> kube_error option \<times> 'w"
  kk_UpdateSecret :: "KubeSecret \<Rightarrow> 'w \<Rightarrow> kube_error option \<times> 'w"
  kk_DeleteSecret :: "string \<Rightarrow> string \<Rightarrow> 'w \<Rightarrow> kube_error option \<times> 'w"

section \<open>crdcontroller.go\<close>

text \<open>An error is the text it is wrapped with and the error of the client.\<close>

type_synonym crd_error = "string \<times> kube_error"

record CRDController =
  cc_cfg :: KubeConfig
  cc_namespace :: string
  cc_nodeID :: string
  cc_meshIP :: string
  cc_resourceName :: string
  cc_currentSecrets :: "(string, string) gomap"
  cc_lastReport :: "KubeDataEntry list"

definition NewCRDController :: "KubeConfig \<Rightarrow> string \<Rightarrow> string \<Rightarrow> string \<Rightarrow> CRDController" where
  "NewCRDController cfg nodeID meshIP namespace =
     \<lparr>cc_cfg = KubeConfig_ApplyDefaults None cfg, cc_namespace = namespace, cc_nodeID = nodeID, cc_meshIP = meshIP,
      cc_resourceName = ''node-'' @ nodeID, cc_currentSecrets = [], cc_lastReport = []\<rparr>"

definition update_spec ::
    "'w KubeClient \<Rightarrow> string \<Rightarrow> (PlexdNodeStateSpec \<Rightarrow> PlexdNodeStateSpec) \<Rightarrow> time \<Rightarrow> CRDController \<Rightarrow> 'w \<Rightarrow> crd_error option \<times> 'w" where
  "update_spec k what upd now c w =
     (case kk_GetNodeState k (cc_namespace c) (cc_resourceName c) w of
        (Inl err, w) \<Rightarrow> (Some (''kubernetes: crd: update '' @ what @ '': get'', err), w)
      | (Inr existing, w) \<Rightarrow>
          (case kk_UpdateNodeState k (existing\<lparr>pn_Spec := upd (pn_Spec existing), pn_LastUpdate := now\<rparr>) w of
             (Some err, w) \<Rightarrow> (Some (''kubernetes: crd: update '' @ what, err), w)
           | (None, w) \<Rightarrow> (None, w)))"

definition CRD_UpdateMetadata :: "'w KubeClient \<Rightarrow> (string, string) gomap \<Rightarrow> time \<Rightarrow> CRDController \<Rightarrow> 'w \<Rightarrow> crd_error option \<times> 'w" where
  "CRD_UpdateMetadata k metadata = update_spec k ''metadata'' (sp_Metadata_update (\<lambda>_. metadata))"

definition CRD_UpdateData :: "'w KubeClient \<Rightarrow> KubeDataEntry list \<Rightarrow> time \<Rightarrow> CRDController \<Rightarrow> 'w \<Rightarrow> crd_error option \<times> 'w" where
  "CRD_UpdateData k data = update_spec k ''data'' (sp_Data_update (\<lambda>_. data))"

definition secretName_of :: "CRDController \<Rightarrow> string \<Rightarrow> string" where
  "secretName_of c key = ''plexd-secret-'' @ cc_nodeID c @ ''-'' @ key"

definition secret_of :: "CRDController \<Rightarrow> string \<Rightarrow> (string, string) gomap \<Rightarrow> string \<Rightarrow> KubeSecret" where
  "secret_of c uid secretData key =
     \<lparr>kt_Name = secretName_of c key, kt_Namespace = cc_namespace c,
      kt_Labels = [(''app.kubernetes.io/managed-by'', ''plexd''), (''plexd.plexsphere.com/node-id'', cc_nodeID c)],
      kt_Data = [(''ciphertext'', case mget secretData key of None \<Rightarrow> [] | Some d \<Rightarrow> d)],
      kt_OwnerRefName = cc_resourceName c, kt_OwnerRefUID = uid\<rparr>"

text \<open>The secrets of keys that are gone: a failed deletion is logged, and the key is forgotten.\<close>

fun delete_removed ::
    "'w KubeClient \<Rightarrow> string list \<Rightarrow> (string \<times> string) list \<Rightarrow> CRDController \<Rightarrow> 'w \<Rightarrow> CRDController \<times> 'w" where
  "delete_removed k keep [] c w = (c, w)"
| "delete_removed k keep ((key, secretName) # rest) c w =
     (if key \<in> set keep then delete_removed k keep rest c w
      else case kk_DeleteSecret k (cc_namespace c) secretName w of
        (_, w) \<Rightarrow> delete_removed k keep rest (c\<lparr>cc_currentSecrets := mdel key (cc_currentSecrets c)\<rparr>) w)"

definition put_secret :: "'w KubeClient \<Rightarrow> bool \<Rightarrow> KubeSecret \<Rightarrow> 'w \<Rightarrow> crd_error option \<times> 'w" where
  "put_secret k known secret w =
     (if known then
        (case kk_UpdateSecret k secret w of
           (Some err, w) \<Rightarrow> (Some (''kubernetes: crd: update secret '' @ kt_Name secret, err), w)
         | (None, w) \<Rightarrow> (None, w))
      else case kk_CreateSecret k secret w of
        (None, w) \<Rightarrow> (None, w)
      | (Some err, w) \<Rightarrow>
          if err \<noteq> ErrAlreadyExists then (Some (''kubernetes: crd: create secret '' @ kt_Name secret, err), w)
          else case kk_UpdateSecret k secret w of
            (Some err, w) \<Rightarrow> (Some (''kubernetes: crd: update existing secret '' @ kt_Name secret, err), w)
          | (None, w) \<Rightarrow> (None, w))"

fun put_secrets ::
    "'w KubeClient \<Rightarrow> string \<Rightarrow> (string, string) gomap \<Rightarrow> KubeSecretRef list \<Rightarrow> CRDController \<Rightarrow> 'w \<Rightarrow>
     crd_error option \<times> CRDController \<times> 'w" where
  "put_secrets k uid secretData [] c w = (None, c, w)"
| "put_secrets k uid secretData (ref # refs) c w =
     (case put_secret k (mhas (cc_currentSecrets c) (kr_Key ref)) (secret_of c uid secretData (kr_Key ref)) w of
        (Some err, w) \<Rightarrow> (Some err, c, w)
      | (None, w) \<Rightarrow>
          put_secrets k uid secretData refs
            (c\<lparr>cc_currentSecrets := mput (kr_Key ref) (secretName_of c (kr_Key ref)) (cc_currentSecrets c)\<rparr>) w)"

text \<open>The order in which the map of the secrets is walked is the parameter \<open>ord\<close>.\<close>

definition CRD_UpdateSecretIndex ::
    "((string \<times> string) list \<Rightarrow> (string \<times> string) list) \<Rightarrow> 'w KubeClient \<Rightarrow> KubeSecretRef list \<Rightarrow> (string, string) gomap \<Rightarrow> time \<Rightarrow>
     CRDController \<Rightarrow> 'w \<Rightarrow> crd_error option \<times> CRDController \<times> 'w" where
  "CRD_UpdateSecretIndex ord k refs secretData now c w =
     (case kk_GetNodeState k (cc_namespace c) (cc_resourceName c) w of
        (Inl err, w) \<Rightarrow> (Some (''kubernetes: crd: update secret index: get'', err), c, w)
      | (Inr existing, w) \<Rightarrow>
          (case delete_removed k (map kr_Key refs) (ord (cc_currentSecrets c)) c w of (c, w) \<Rightarrow>
             (case put_secrets k (pn_UID existing) secretData refs c w of
                (Some err, c, w) \<Rightarrow> (Some err, c, w)
              | (None, c, w) \<Rightarrow>
                  (let refs = map (\<lambda>ref. ref\<lparr>kr_SecretName := secretName_of c (kr_Key ref)\<rparr>) refs in
                   case kk_UpdateNodeState k (existing\<lparr>pn_Spec := (pn_Spec existing)\<lparr>sp_SecretRefs := refs\<rparr>, pn_LastUpdate := now\<rparr>) w of
                     (Some err, w) \<Rightarrow> (Some (''kubernetes: crd: update secret refs'', err), c, w)
                   | (None, w) \<Rightarrow> (None, c, w)))))"

definition ensureResource :: "'w KubeClient \<Rightarrow> time \<Rightarrow> CRDController \<Rightarrow> 'w \<Rightarrow> crd_error option \<times> 'w" where
  "ensureResource k now c w =
     (let state = \<lparr>pn_Name = cc_resourceName c, pn_Namespace = cc_namespace c, pn_UID = '''', pn_ResourceVersion = '''',
            pn_Labels = [(''plexd.plexsphere.com/node-id'', cc_nodeID c)],
            pn_Spec = \<lparr>sp_NodeID = cc_nodeID c, sp_MeshIP = cc_meshIP c, sp_Metadata = [], sp_Data = [], sp_SecretRefs = []\<rparr>,
            pn_Report = [], pn_LastUpdate = now\<rparr>
      in case kk_GetNodeState k (cc_namespace c) (cc_resourceName c) w of
        (Inl ErrNotFound, w) \<Rightarrow>
          (case kk_CreateNodeState k state w of
             (None, w) \<Rightarrow> (None, w)
           | (Some ErrAlreadyExists, w) \<Rightarrow>
               (case kk_UpdateNodeState k state w of
                  (Some err, w) \<Rightarrow> (Some (''update after create conflict'', err), w)
                | (None, w) \<Rightarrow> (None, w))
           | (Some err, w) \<Rightarrow> (Some (''create state'', err), w))
      | (Inl err, w) \<Rightarrow> (Some (''get state'', err), w)
      | (Inr existing, w) \<Rightarrow>
          (case kk_UpdateNodeState k (existing\<lparr>pn_Spec := (pn_Spec existing)\<lparr>sp_NodeID := cc_nodeID c, sp_MeshIP := cc_meshIP c\<rparr>, pn_LastUpdate := now\<rparr>) w of
             (Some err, w) \<Rightarrow> (Some (''update state'', err), w)
           | (None, w) \<Rightarrow> (None, w)))"

definition reportEqual :: "KubeDataEntry list \<Rightarrow> KubeDataEntry list \<Rightarrow> bool" where
  "reportEqual a b =
     (if length a \<noteq> length b then False
      else let m = fold (\<lambda>e. mput (kd_Key e) (kd_Version e)) a []
           in list_all (\<lambda>e. mget m (kd_Key e) = Some (kd_Version e)) b)"

text \<open>The second component says whether the notifier is called.\<close>

definition handleStatusChange :: "KubeDataEntry list \<Rightarrow> CRDController \<Rightarrow> CRDController \<times> bool" where
  "handleStatusChange report c = (if reportEqual (cc_lastReport c) report then (c, False) else (c\<lparr>cc_lastReport := report\<rparr>, True))"

text \<open>The loop of \<open>Start\<close> over the events of the watch: their type, and the report of the state unless it is nil.\<close>

fun watch_loop :: "(string \<times> KubeDataEntry list option) list \<Rightarrow> CRDController \<Rightarrow> CRDController \<times> nat" where
  "watch_loop [] c = (c, 0)"
| "watch_loop ((typ, state) # evts) c =
     (case state of
        Some report \<Rightarrow>
          if typ = ''MODIFIED'' then
            (case handleStatusChange report c of (c, b) \<Rightarrow>
               case watch_loop evts c of (c, n) \<Rightarrow> (c, (if b then 1 else 0) + n))
          else watch_loop evts c
      | None \<Rightarrow> watch_loop evts c)"

text \<open>\<open>Start\<close>: the watch gives an error or the events up to its end, which is the closing of the channel
  (\<open>None\<close>) or the error of the context, also after \<open>Stop\<close>.  The result counts the notifications.\<close>

definition CRD_Start ::
    "'w KubeClient \<Rightarrow> ('w \<Rightarrow> kube_error + (string \<times> KubeDataEntry list option) list \<times> string option) \<Rightarrow> time \<Rightarrow> CRDController \<Rightarrow> 'w \<Rightarrow>
     (crd_error + string option) \<times> CRDController \<times> nat \<times> 'w" where
  "CRD_Start k watch now c w =
     (case ensureResource k now c w of
        (Some (what, err), w) \<Rightarrow> (Inl (''kubernetes: crd: start: '' @ what, err), c, 0, w)
      | (None, w) \<Rightarrow>
          (case watch w of
             Inl err \<Rightarrow> (Inl (''kubernetes: crd: watch'', err), c, 0, w)
           | Inr (evts, ctxErr) \<Rightarrow> (case watch_loop evts c of (c, n) \<Rightarrow> (Inr ctxErr, c, n, w))))"

section \<open>Token review\<close>

lemma Review_Inr:
  assumes "Review http unmarshal apiServer readToken token w = (Inr result, w')"
  shows "\<exists>sa status body st. readToken w = Inr sa
    \<and> http \<lparr>vr_URL = apiServer @ ''/apis/authentication.k8s.io/v1/tokenreviews'',
          vr_Authorization = ''Bearer '' @ TrimSpace sa, vr_Token = token\<rparr> w = (Inr (status, Inr body), w')
    \<and> status \<in> {200, 201} \<and> unmarshal body = Inr st \<and> trs_Error st = '''' \<and> trr_Authenticated result = trs_Authenticated st
    \<and> trr_Audiences result = trs_Audiences st
    \<and> trr_Username result = (case trs_User st of None \<Rightarrow> '''' | Some u \<Rightarrow> tru_Username u)"
  using assms unfolding Review_def by (auto split: sum.splits prod.splits if_splits option.splits)


section \<open>The audit log\<close>

lemma scan_lines_append:
  "scan_lines acc (a @ CHR 0x0A # b) = scan_lines acc (a @ [CHR 0x0A]) @ scan_lines [] b"
  by (induction a arbitrary: acc) simp_all

definition complete_lines :: "string \<Rightarrow> bool" where
  "complete_lines s \<longleftrightarrow> s = [] \<or> last s = CHR 0x0A"

lemma scan_lines_complete:
  assumes "complete_lines a"
  shows "scan_lines [] (a @ b) = scan_lines [] a @ scan_lines [] b"
proof (cases "a = []")
  case False
  then obtain a' where "a = a' @ [CHR 0x0A]" using assms by (metis complete_lines_def append_butlast_last_id)
  then show ?thesis using scan_lines_append [of "[]" a' b] by simp
qed simp

text \<open>A log that grows by the given chunks, read after each of them: all entries read, or the first error.\<close>

fun tail_reads ::
    "(string \<Rightarrow> string + k8sAuditEvent) \<Rightarrow> (string \<Rightarrow> time option) \<Rightarrow> string list \<Rightarrow> string \<Rightarrow> K8sAuditLogReader \<Rightarrow> string + K8sAuditEntry list" where
  "tail_reads unmarshal parseTime [] data r = Inr []"
| "tail_reads unmarshal parseTime (chunk # chunks) data r =
     (case ReadEvents unmarshal parseTime (Some (data @ chunk)) r of
        (Inl err, r) \<Rightarrow> Inl err
      | (Inr entries, r) \<Rightarrow>
          (case tail_reads unmarshal parseTime chunks (data @ chunk) r of
             Inl err \<Rightarrow> Inl err
           | Inr later \<Rightarrow> Inr (entries @ later)))"

definition short_lines :: "string \<Rightarrow> bool" where
  "short_lines s \<longleftrightarrow> list_all (\<lambda>l. length l < MaxScanTokenSize) (scan_lines [] s)"

lemma scanner_lines_short: "short_lines s \<Longrightarrow> scanner_lines s = Inr (map dropCR (scan_lines [] s))"
  by (auto simp: scanner_lines_def short_lines_def list_ex_iff list_all_iff not_le Let_def)

lemma tail_reads_entries:
  assumes "list_all complete_lines chunks" "list_all short_lines chunks" "alr_offset r = length data"
  shows "tail_reads unmarshal parseTime chunks data r
     = Inr (concat (map (audit_line unmarshal parseTime) (map dropCR (scan_lines [] (concat chunks)))))"
  using assms
proof (induction chunks arbitrary: data r)
  case (Cons chunk chunks)
  have "ReadEvents unmarshal parseTime (Some (data @ chunk)) r
      = (Inr (concat (map (audit_line unmarshal parseTime) (map dropCR (scan_lines [] chunk)))), r\<lparr>alr_offset := length (data @ chunk)\<rparr>)"
    using Cons.prems scanner_lines_short [of chunk] by (simp add: ReadEvents_def Let_def)
  then show ?case
    using Cons.IH [of "r\<lparr>alr_offset := length (data @ chunk)\<rparr>" "data @ chunk"] Cons.prems scan_lines_complete [of chunk "concat chunks"]
    by simp
qed simp

text \<open>C39: Tailing the audit log: when the log grows by whole lines of less than 64 KiB and is read after each
  growth, the entries returned over all reads are exactly those of the lines of the whole log that
  can be decoded, each once and in order, and no read fails.\<close>

theorem audit_log_tailed:
  assumes "list_all complete_lines chunks" "list_all short_lines chunks"
  shows "tail_reads unmarshal parseTime chunks [] (NewK8sAuditLogReader path)
     = Inr (concat (map (audit_line unmarshal parseTime) (map dropCR (scan_lines [] (concat chunks)))))"
  by (rule tail_reads_entries [OF assms]) (simp add: NewK8sAuditLogReader_def)

definition ex_audit_event :: "string \<Rightarrow> string + k8sAuditEvent" where
  "ex_audit_event line =
     (if HasPrefix line ''{'' \<and> last line = CHR ''}''
      then Inr \<lparr>kae_Kind = ''Event'', kae_Level = ''Metadata'', kae_Verb = ''get'', kae_RequestURI = '''', kae_User = \<lparr>ku_Username = ''u'', ku_Groups = []\<rparr>,
        kae_ObjectRef = None, kae_ResponseStatus = Some 200, kae_RequestReceivedTimestamp = '''', kae_StageTimestamp = ''''\<rparr>
      else Inl ''malformed'')"

theorem audit_log_tailed_witness:
  "\<exists>a b. tail_reads ex_audit_event (\<lambda>_. None) [''{a}'' @ [CHR 0x0A], ''x'' @ [CHR 0x0D, CHR 0x0A] @ ''{b}'' @ [CHR 0x0A]] [] (NewK8sAuditLogReader ''/l'')
     = Inr [a, b] \<and> ka_Raw a = ''{a}'' \<and> ka_Raw b = ''{b}''"
proof -
  let ?cs = "[''{a}'' @ [CHR 0x0A], ''x'' @ [CHR 0x0D, CHR 0x0A] @ ''{b}'' @ [CHR 0x0A]]"
  have "list_all complete_lines ?cs" "list_all short_lines ?cs" by (simp_all add: complete_lines_def short_lines_def)
  then show ?thesis
    using audit_log_tailed [of ?cs ex_audit_event "\<lambda>_. None" "''/l''"]
    by (simp add: audit_line_def dropCR_def ex_audit_event_def audit_entry_of_def HasPrefix_def)
qed

text \<open>An event that is on disk only in part when the log is read is lost: both its halves are malformed lines.\<close>

lemma partial_line_lost:
  "tail_reads ex_audit_event (\<lambda>_. None) [''{a'', ''}'' @ [CHR 0x0A]] [] (NewK8sAuditLogReader ''/l'') = Inr []"
  by (simp add: ReadEvents_def NewK8sAuditLogReader_def scanner_lines_def audit_line_def dropCR_def ex_audit_event_def HasPrefix_def Let_def)

text \<open>A line of 64 KiB makes every later read fail: the offset stays before it.\<close>

lemma long_line_stuck:
  assumes "alr_offset r \<le> length data" "drop (alr_offset r) data = line @ CHR 0x0A # rest"
    and "CHR 0x0A \<notin> set line" "MaxScanTokenSize \<le> length line"
  shows "\<exists>err. ReadEvents unmarshal parseTime (Some (data @ appended)) r = (Inl err, r)"
proof -
  have s: "scan_lines acc (l @ CHR 0x0A # z) = (rev acc @ l) # scan_lines [] z" if "CHR 0x0A \<notin> set l" for acc l z
    using that by (induction l arbitrary: acc) auto
  have "drop (alr_offset r) (data @ appended) = line @ CHR 0x0A # rest @ appended" using assms(1,2) by simp
  then have "scanner_lines (drop (alr_offset r) (data @ appended)) = Inl ''bufio.Scanner: token too long''"
    using s [OF assms(3), of "[]" "rest @ appended"] assms(4) by (simp add: scanner_lines_def Let_def)
  then show ?thesis using assms(1) by (simp add: ReadEvents_def Let_def)
qed

text \<open>Reports with a repeated key can be equal in one direction only.\<close>

lemma reportEqual_not_symmetric:
  "\<exists>a b. reportEqual a b \<and> \<not> reportEqual b a"
proof -
  let ?e = "\<lambda>k. \<lparr>kd_Key = k, kd_ContentType = '''', kd_Payload = '''', kd_Version = 1, kd_UpdatedAt = ''''\<rparr>"
  have "reportEqual [?e ''x'', ?e ''y''] [?e ''x'', ?e ''x'']" "\<not> reportEqual [?e ''x'', ?e ''x''] [?e ''x'', ?e ''y'']"
    by (simp_all add: reportEqual_def)
  then show ?thesis by blast
qed

section \<open>The secrets of the resource\<close>

text \<open>What the interface promises, for the secrets \<open>secs w\<close> and the resources \<open>sts w\<close> of the API server, by
  namespace and name: a call that returns an error changes nothing, and one that returns none has
  had its effect.\<close>

definition get_law ::
    "(string \<Rightarrow> string \<Rightarrow> 'w \<Rightarrow> (kube_error + PlexdNodeState) \<times> 'w) \<Rightarrow> ('w \<Rightarrow> string \<times> string \<Rightarrow> KubeSecret option) \<Rightarrow>
     ('w \<Rightarrow> string \<times> string \<Rightarrow> PlexdNodeState option) \<Rightarrow> bool" where
  "get_law get secs sts \<longleftrightarrow>
     (\<forall>ns n w. secs (snd (get ns n w)) = secs w
        \<and> (\<forall>s. fst (get ns n w) = Inr s \<longrightarrow> sts w (ns, n) = Some s \<and> pn_Namespace s = ns \<and> pn_Name s = n))"

definition update_law ::
    "(PlexdNodeState \<Rightarrow> 'w \<Rightarrow> kube_error option \<times> 'w) \<Rightarrow> ('w \<Rightarrow> string \<times> string \<Rightarrow> KubeSecret option) \<Rightarrow>
     ('w \<Rightarrow> string \<times> string \<Rightarrow> PlexdNodeState option) \<Rightarrow> bool" where
  "update_law upd secs sts \<longleftrightarrow>
     (\<forall>s w. secs (snd (upd s w)) = secs w
        \<and> (fst (upd s w) = None \<longrightarrow> (\<exists>s'. sts (snd (upd s w)) (pn_Namespace s, pn_Name s) = Some s' \<and> pn_Spec s' = pn_Spec s)))"

definition put_law :: "(KubeSecret \<Rightarrow> 'w \<Rightarrow> kube_error option \<times> 'w) \<Rightarrow> ('w \<Rightarrow> string \<times> string \<Rightarrow> KubeSecret option) \<Rightarrow> bool" where
  "put_law op secs \<longleftrightarrow>
     (\<forall>s w. secs (snd (op s w)) = (if fst (op s w) = None then (secs w)((kt_Namespace s, kt_Name s) \<mapsto> s) else secs w))"

definition delete_law :: "(string \<Rightarrow> string \<Rightarrow> 'w \<Rightarrow> kube_error option \<times> 'w) \<Rightarrow> ('w \<Rightarrow> string \<times> string \<Rightarrow> KubeSecret option) \<Rightarrow> bool" where
  "delete_law del secs \<longleftrightarrow>
     (\<forall>ns n w. secs (snd (del ns n w)) = (if fst (del ns n w) = None then (secs w)((ns, n) := None) else secs w))"

definition kube_laws ::
    "'w KubeClient \<Rightarrow> ('w \<Rightarrow> string \<times> string \<Rightarrow> KubeSecret option) \<Rightarrow> ('w \<Rightarrow> string \<times> string \<Rightarrow> PlexdNodeState option) \<Rightarrow> bool" where
  "kube_laws k secs sts \<longleftrightarrow>
     get_law (kk_GetNodeState k) secs sts \<and> update_law (kk_UpdateNodeState k) secs sts
     \<and> put_law (kk_CreateSecret k) secs \<and> put_law (kk_UpdateSecret k) secs \<and> delete_law (kk_DeleteSecret k) secs"

text \<open>Every tracked secret has the name its key gives it.\<close>

definition crd_inv :: "CRDController \<Rightarrow> bool" where
  "crd_inv c \<longleftrightarrow> mwf (cc_currentSecrets c) \<and> (\<forall>key name. mget (cc_currentSecrets c) key = Some name \<longrightarrow> name = secretName_of c key)"

definition slot :: "CRDController \<Rightarrow> string \<Rightarrow> string \<times> string" where
  "slot c key = (cc_namespace c, secretName_of c key)"

lemma slot_inj [simp]: "slot c a = slot c b \<longleftrightarrow> a = b"
  by (simp add: slot_def secretName_of_def)

lemma naming_update [simp]:
  "secretName_of (c\<lparr>cc_currentSecrets := m\<rparr>) = secretName_of c" "slot (c\<lparr>cc_currentSecrets := m\<rparr>) = slot c"
  "secret_of (c\<lparr>cc_currentSecrets := m\<rparr>) = secret_of c"
  by (simp_all add: fun_eq_iff secretName_of_def slot_def secret_of_def)

lemma secret_of_slot [simp]: "(kt_Namespace (secret_of c uid d key), kt_Name (secret_of c uid d key)) = slot c key"
  by (simp add: secret_of_def slot_def)

lemma delete_removed_spec:
  assumes law: "delete_law (kk_DeleteSecret k) secs" and "delete_removed k keep xs c w = (c', w')" "mwf (cc_currentSecrets c)"
    and "\<forall>(key, name)\<in>set xs. name = secretName_of c key"
  shows "\<exists>m. c' = c\<lparr>cc_currentSecrets := m\<rparr> \<and> mwf m
    \<and> (\<forall>key. mget m key = (if key \<in> fst ` set xs \<and> key \<notin> set keep then None else mget (cc_currentSecrets c) key))
    \<and> (\<forall>p. secs w' p = secs w p \<or> secs w' p = None \<and> (\<exists>key \<in> fst ` set xs. key \<notin> set keep \<and> p = slot c key))"
  using assms
proof (induction k keep xs c w rule: delete_removed.induct)
  case (1 k keep c w)
  then show ?case by (intro exI [of _ "cc_currentSecrets c"]) auto
next
  case (2 k keep key name rest c w)
  show ?case
  proof (cases "key \<in> set keep")
    case True
    then have "delete_removed k keep rest c w = (c', w')" using 2(4) by simp
    from 2(1) [OF True 2(3) this 2(5)] obtain m where m: "c' = c\<lparr>cc_currentSecrets := m\<rparr>" "mwf m"
      "\<forall>j. mget m j = (if j \<in> fst ` set rest \<and> j \<notin> set keep then None else mget (cc_currentSecrets c) j)"
      "\<forall>p. secs w' p = secs w p \<or> secs w' p = None \<and> (\<exists>j \<in> fst ` set rest. j \<notin> set keep \<and> p = slot c j)"
      using 2(6) by auto
    have "\<forall>j. mget m j = (if j \<in> fst ` set ((key, name) # rest) \<and> j \<notin> set keep then None else mget (cc_currentSecrets c) j)"
      using m(3) True by auto
    moreover have "\<forall>p. secs w' p = secs w p \<or> secs w' p = None \<and> (\<exists>j \<in> fst ` set ((key, name) # rest). j \<notin> set keep \<and> p = slot c j)"
      using m(4) by auto
    ultimately show ?thesis using m(1,2) by blast
  next
    case False
    let ?c = "c\<lparr>cc_currentSecrets := mdel key (cc_currentSecrets c)\<rparr>"
    obtain e w1 where d: "kk_DeleteSecret k (cc_namespace c) name w = (e, w1)" by (cases "kk_DeleteSecret k (cc_namespace c) name w")
    have rec: "delete_removed k keep rest ?c w1 = (c', w')" using 2(4) False d by simp
    have name: "name = secretName_of c key" using 2(6) by simp
    have s: "secs w1 = (if e = None then (secs w)(slot c key := None) else secs w)"
      using 2(3) d unfolding delete_law_def slot_def name [symmetric] by (metis fst_conv snd_conv)
    have IH: "\<exists>m. c' = ?c\<lparr>cc_currentSecrets := m\<rparr> \<and> mwf m
        \<and> (\<forall>j. mget m j = (if j \<in> fst ` set rest \<and> j \<notin> set keep then None else mget (cc_currentSecrets ?c) j))
        \<and> (\<forall>p. secs w' p = secs w1 p \<or> secs w' p = None \<and> (\<exists>j \<in> fst ` set rest. j \<notin> set keep \<and> p = slot ?c j))"
      by (rule 2(2) [OF False d [symmetric] 2(3) rec]) (use 2(5,6) in \<open>auto intro: gm.wf_del\<close>)
    then obtain m where m: "c' = c\<lparr>cc_currentSecrets := m\<rparr>" "mwf m"
      "\<forall>j. mget m j = (if j \<in> fst ` set rest \<and> j \<notin> set keep then None else mget (mdel key (cc_currentSecrets c)) j)"
      "\<forall>p. secs w' p = secs w1 p \<or> secs w' p = None \<and> (\<exists>j \<in> fst ` set rest. j \<notin> set keep \<and> p = slot c j)"
      by auto
    have g: "\<forall>j. mget m j = (if j \<in> fst ` set ((key, name) # rest) \<and> j \<notin> set keep then None else mget (cc_currentSecrets c) j)"
      using m(3) False 2(5) by (auto simp: gm.get_del)
    have "secs w' p = secs w p \<or> secs w' p = None \<and> (\<exists>j \<in> fst ` set ((key, name) # rest). j \<notin> set keep \<and> p = slot c j)" for p
    proof (cases "p = slot c key")
      case True
      then show ?thesis using m(4) [rule_format, of p] s False by (cases e) auto
    next
      case other: False
      then have "secs w1 p = secs w p" using s by simp
      then show ?thesis using m(4) [rule_format, of p] by auto
    qed
    then show ?thesis using m(1,2) g by blast
  qed
qed

lemma put_secret_spec:
  assumes "put_law (kk_CreateSecret k) secs" "put_law (kk_UpdateSecret k) secs" "put_secret k known s w = (None, w')"
  shows "secs w' = (secs w)((kt_Namespace s, kt_Name s) \<mapsto> s)"
proof -
  obtain e1 w1 where c: "kk_CreateSecret k s w = (e1, w1)" by (cases "kk_CreateSecret k s w")
  have c1: "secs w1 = (if e1 = None then (secs w)((kt_Namespace s, kt_Name s) \<mapsto> s) else secs w)"
    using assms(1) c unfolding put_law_def by (metis fst_conv snd_conv)
  have u: "secs v' = (secs v)((kt_Namespace s, kt_Name s) \<mapsto> s)" if "kk_UpdateSecret k s v = (None, v')" for v v'
    using assms(2) that unfolding put_law_def by (metis fst_conv snd_conv)
  show ?thesis
    using assms(3) c c1 u [of w w'] u [of w1 w']
    by (auto simp: put_secret_def split: if_splits prod.splits option.splits)
qed

lemma put_secrets_spec:
  assumes "put_law (kk_CreateSecret k) secs" "put_law (kk_UpdateSecret k) secs"
    and "put_secrets k uid d refs c w = (None, c', w')" "mwf (cc_currentSecrets c)"
  shows "\<exists>m. c' = c\<lparr>cc_currentSecrets := m\<rparr> \<and> mwf m
    \<and> (\<forall>key. mget m key = (if key \<in> kr_Key ` set refs then Some (secretName_of c key) else mget (cc_currentSecrets c) key))
    \<and> (\<forall>key \<in> kr_Key ` set refs. secs w' (slot c key) = Some (secret_of c uid d key))
    \<and> (\<forall>p. p \<notin> slot c ` kr_Key ` set refs \<longrightarrow> secs w' p = secs w p)"
  using assms(3,4)
proof (induction refs arbitrary: c w)
  case Nil
  then show ?case by (intro exI [of _ "cc_currentSecrets c"]) auto
next
  case (Cons ref refs)
  let ?key = "kr_Key ref" and ?s = "secret_of c uid d (kr_Key ref)"
  let ?c = "c\<lparr>cc_currentSecrets := mput ?key (secretName_of c ?key) (cc_currentSecrets c)\<rparr>"
  obtain w1 where p: "put_secret k (mhas (cc_currentSecrets c) ?key) ?s w = (None, w1)"
    and rec: "put_secrets k uid d refs ?c w1 = (None, c', w')"
    using Cons.prems(1) by (auto split: prod.splits option.splits)
  have wfc: "mwf (cc_currentSecrets ?c)" using gm.wf_put [OF Cons.prems(2)] by simp
  have s: "secs w1 = (secs w)(slot c ?key \<mapsto> ?s)" using put_secret_spec [OF assms(1,2) p] by simp
  obtain m where m: "c' = c\<lparr>cc_currentSecrets := m\<rparr>" "mwf m"
    "\<forall>key. mget m key = (if key \<in> kr_Key ` set refs then Some (secretName_of c key) else mget (cc_currentSecrets ?c) key)"
    "\<forall>key \<in> kr_Key ` set refs. secs w' (slot c key) = Some (secret_of c uid d key)"
    "\<forall>p. p \<notin> slot c ` kr_Key ` set refs \<longrightarrow> secs w' p = secs w1 p"
    using Cons.IH [OF rec wfc] unfolding naming_update by auto
  have "\<forall>key. mget m key = (if key \<in> kr_Key ` set (ref # refs) then Some (secretName_of c key) else mget (cc_currentSecrets c) key)"
    using m(3) by auto
  moreover have "secs w' (slot c key) = Some (secret_of c uid d key)" if "key \<in> kr_Key ` set (ref # refs)" for key
  proof (cases "key \<in> kr_Key ` set refs")
    case False
    then have "key = ?key" "slot c key \<notin> slot c ` kr_Key ` set refs" using that by (auto simp: image_iff)
    then show ?thesis using m(5) s by (metis fun_upd_same)
  qed (use m(4) in blast)
  moreover have "\<forall>p. p \<notin> slot c ` kr_Key ` set (ref # refs) \<longrightarrow> secs w' p = secs w p" using m(5) s by auto
  ultimately show ?case using m(1,2) by blast
qed

lemma update_law_D:
  assumes "update_law upd secs sts" "upd s w = (None, w')"
  shows "secs w' = secs w \<and> (\<exists>s'. sts w' (pn_Namespace s, pn_Name s) = Some s' \<and> pn_Spec s' = pn_Spec s)"
  using assms unfolding update_law_def by (metis fst_conv snd_conv)

lemma CRD_UpdateSecretIndex_stages:
  assumes laws: "kube_laws k secs sts" and inv: "crd_inv c" and ord: "\<And>l. set (ord l) = set l"
    and run: "CRD_UpdateSecretIndex ord k refs secretData now c w = (None, c', w')"
  obtains existing m2 m3 w2 s' where "sts w (cc_namespace c, cc_resourceName c) = Some existing"
    "\<forall>key. mget m2 key = (if key \<in> dom (mget (cc_currentSecrets c)) \<and> key \<notin> kr_Key ` set refs then None else mget (cc_currentSecrets c) key)"
    "\<forall>p. secs w2 p = secs w p \<or> secs w2 p = None \<and> (\<exists>key \<in> dom (mget (cc_currentSecrets c)). key \<notin> kr_Key ` set refs \<and> p = slot c key)"
    "c' = c\<lparr>cc_currentSecrets := m3\<rparr>" "mwf m3"
    "\<forall>key. mget m3 key = (if key \<in> kr_Key ` set refs then Some (secretName_of c key) else mget m2 key)"
    "\<forall>key \<in> kr_Key ` set refs. secs w' (slot c key) = Some (secret_of c (pn_UID existing) secretData key)"
    "\<forall>p. p \<notin> slot c ` kr_Key ` set refs \<longrightarrow> secs w' p = secs w2 p"
    "sts w' (cc_namespace c, cc_resourceName c) = Some s'"
    "sp_SecretRefs (pn_Spec s') = map (\<lambda>ref. ref\<lparr>kr_SecretName := secretName_of c (kr_Key ref)\<rparr>) refs"
proof -
  let ?K = "kr_Key ` set refs"
  note law = laws [unfolded kube_laws_def]
  then have ul: "update_law (kk_UpdateNodeState k) secs sts" by blast
  obtain existing w1 where get: "kk_GetNodeState k (cc_namespace c) (cc_resourceName c) w = (Inr existing, w1)"
    using run by (auto simp: CRD_UpdateSecretIndex_def split: prod.splits sum.splits)
  obtain c2 w2 where del: "delete_removed k (map kr_Key refs) (ord (cc_currentSecrets c)) c w1 = (c2, w2)"
    by (cases "delete_removed k (map kr_Key refs) (ord (cc_currentSecrets c)) c w1")
  obtain w3 where put: "put_secrets k (pn_UID existing) secretData refs c2 w2 = (None, c', w3)"
    and upd: "kk_UpdateNodeState k (existing\<lparr>pn_Spec := (pn_Spec existing)\<lparr>sp_SecretRefs :=
        map (\<lambda>ref. ref\<lparr>kr_SecretName := secretName_of c' (kr_Key ref)\<rparr>) refs\<rparr>, pn_LastUpdate := now\<rparr>) w3 = (None, w')"
    using run get del by (auto simp: CRD_UpdateSecretIndex_def Let_def split: prod.splits option.splits)
  have g: "secs w1 = secs w" "sts w (cc_namespace c, cc_resourceName c) = Some existing"
    "pn_Namespace existing = cc_namespace c" "pn_Name existing = cc_resourceName c"
    using law get unfolding get_law_def by (metis fst_conv snd_conv)+
  have wf: "mwf (cc_currentSecrets c)" and keys: "fst ` set (ord (cc_currentSecrets c)) = dom (mget (cc_currentSecrets c))"
    and names: "\<forall>(key, name)\<in>set (ord (cc_currentSecrets c)). name = secretName_of c key"
    using inv ord by (auto simp: crd_inv_def dom_map_of_conv_image_fst)
  obtain m2 where m2: "c2 = c\<lparr>cc_currentSecrets := m2\<rparr>" "mwf m2"
    "\<forall>key. mget m2 key = (if key \<in> dom (mget (cc_currentSecrets c)) \<and> key \<notin> ?K then None else mget (cc_currentSecrets c) key)"
    "\<forall>p. secs w2 p = secs w p \<or> secs w2 p = None \<and> (\<exists>key \<in> dom (mget (cc_currentSecrets c)). key \<notin> ?K \<and> p = slot c key)"
    using delete_removed_spec [OF _ del wf names, of secs] law unfolding keys g(1) by auto
  obtain m3 where m3: "c' = c\<lparr>cc_currentSecrets := m3\<rparr>" "mwf m3"
    "\<forall>key. mget m3 key = (if key \<in> ?K then Some (secretName_of c key) else mget m2 key)"
    "\<forall>key \<in> ?K. secs w3 (slot c key) = Some (secret_of c (pn_UID existing) secretData key)"
    "\<forall>p. p \<notin> slot c ` ?K \<longrightarrow> secs w3 p = secs w2 p"
    using put_secrets_spec [OF _ _ put, of secs] law m2(1,2) by auto
  have u: "secs w' = secs w3" "\<exists>s'. sts w' (cc_namespace c, cc_resourceName c) = Some s'
      \<and> sp_SecretRefs (pn_Spec s') = map (\<lambda>ref. ref\<lparr>kr_SecretName := secretName_of c (kr_Key ref)\<rparr>) refs"
    using update_law_D [where upd = "kk_UpdateNodeState k", OF ul upd] g(3,4) m3(1) by auto
  obtain s' where s': "sts w' (cc_namespace c, cc_resourceName c) = Some s'"
    "sp_SecretRefs (pn_Spec s') = map (\<lambda>ref. ref\<lparr>kr_SecretName := secretName_of c (kr_Key ref)\<rparr>) refs"
    using u(2) by (elim exE conjE)
  show ?thesis
    by (rule that [OF g(2) m2(3,4) m3(1-3) _ _ s']) (unfold u(1), rule m3(4), rule m3(5))
qed


text \<open>An API server that keeps its secrets and its resource in the world.\<close>

definition ex_kube :: "((string \<times> string \<Rightarrow> KubeSecret option) \<times> PlexdNodeState) KubeClient" where
  "ex_kube =
     \<lparr>kk_GetNodeState = (\<lambda>ns n w. (if (pn_Namespace (snd w), pn_Name (snd w)) = (ns, n) then Inr (snd w) else Inl ErrNotFound, w)),
      kk_CreateNodeState = (\<lambda>s w. (Some ErrAlreadyExists, w)),
      kk_UpdateNodeState = (\<lambda>s w. if (pn_Namespace s, pn_Name s) = (pn_Namespace (snd w), pn_Name (snd w)) then (None, (fst w, s)) else (Some ErrNotFound, w)),
      kk_CreateSecret = (\<lambda>s w. if fst w (kt_Namespace s, kt_Name s) = None then (None, ((fst w)((kt_Namespace s, kt_Name s) \<mapsto> s), snd w))
        else (Some ErrAlreadyExists, w)),
      kk_UpdateSecret = (\<lambda>s w. if fst w (kt_Namespace s, kt_Name s) = None then (Some ErrNotFound, w)
        else (None, ((fst w)((kt_Namespace s, kt_Name s) \<mapsto> s), snd w))),
      kk_DeleteSecret = (\<lambda>ns n w. (None, ((fst w)((ns, n) := None), snd w)))\<rparr>"

definition ex_sts :: "(string \<times> string \<Rightarrow> KubeSecret option) \<times> PlexdNodeState \<Rightarrow> string \<times> string \<Rightarrow> PlexdNodeState option" where
  "ex_sts w p = (if p = (pn_Namespace (snd w), pn_Name (snd w)) then Some (snd w) else None)"

lemma ex_kube_laws: "kube_laws ex_kube fst ex_sts"
  unfolding kube_laws_def get_law_def update_law_def put_law_def delete_law_def
  by (simp add: ex_kube_def ex_sts_def)

definition ex_crd :: CRDController where
  "ex_crd = (NewCRDController \<lparr>kc_Enabled = True, kc_CRDEnabled = True, kc_Namespace = ''ns'', kc_AuditLogPath = '''', kc_CRDSyncInterval = 0,
     kc_TokenPath = ''''\<rparr> ''n1'' ''10.0.0.1'' ''ns'')\<lparr>cc_currentSecrets := [(''old'', ''plexd-secret-n1-old'')]\<rparr>"

definition ex_node_state :: PlexdNodeState where
  "ex_node_state = \<lparr>pn_Name = ''node-n1'', pn_Namespace = ''ns'', pn_UID = ''u'', pn_ResourceVersion = '''', pn_Labels = [],
     pn_Spec = \<lparr>sp_NodeID = ''n1'', sp_MeshIP = '''', sp_Metadata = [], sp_Data = [], sp_SecretRefs = []\<rparr>, pn_Report = [], pn_LastUpdate = 0\<rparr>"


text \<open>A secret whose deletion fails stays on the server and is no longer tracked, so no later call deletes it.\<close>

lemma failed_deletion_forgotten:
  assumes "mwf (cc_currentSecrets c)" "key \<notin> set keep" "kk_DeleteSecret k (cc_namespace c) name w = (Some err, w1)"
  shows "\<exists>c'. delete_removed k keep [(key, name)] c w = (c', w1) \<and> \<not> mhas (cc_currentSecrets c') key"
  using assms by (simp add: gm.get_del)

end
