(* ===== verification/Spec2Isabelle.thy ===== *)
theory Spec2Isabelle
  imports Reconnect Ingress UserAccess Agent Kubernetes
begin

text \<open>
  plexd is the agent that runs on every node of a mesh network.  It registers with a control plane,
  follows a signed stream of events, brings the local network (WireGuard peers, packet filter,
  bridge functions) to the state the control plane asks for, serves a local API, runs remote actions,
  and reports logs, audit records, metrics and heartbeats.  This development models the packages
  under \<^verbatim>\<open>src/internal\<close> and the wiring of \<^verbatim>\<open>src/cmd/plexd/cmd/up.go\<close>, and proves what makes them correct.

  \<^bold>\<open>How the parts interact.\<close>  Registration yields an identity, whose signing key starts the event
  verifier and whose secret key authenticates the client.  The event stream verifies each envelope
  and dispatches it to handlers; the reconnect engine restarts the stream.  The reconciler fetches the
  desired state, computes its difference from a snapshot and calls the handlers of the components.
  The node API keeps a cache on disk that events and reconciliation fill, and hands reports to a
  syncer.  Actions consult the integrity verifier before a hook runs.  Heartbeats trigger
  reconciliation.

  \<^bold>\<open>Conventions.\<close>  A struct is a record, an enumeration a datatype, and one definition models one
  function, with every branch and early return.  A Go map is an association list with distinct keys,
  and where the code ranges over a map the order is the parameter \<open>ord\<close>.  Times and durations are
  integers of nanoseconds, with 0 as the zero time.  An error-only result is \<open>string option\<close>, a result
  with an error is a sum, and \<open>outcome\<close> tells a return from a panic.  Words have their width where the
  code depends on it, and \<open>wrap64\<close> wraps an \<open>int\<close>.  What is not part of the repository or only calls the
  system (control plane, kernel interfaces, cryptography, JSON and YAML codecs, clocks, sockets) is a
  parameter that acts on a world, with its documented behaviour as named hypotheses; each theorem
  with such a hypothesis has a witness on a concrete instance.

  \<^bold>\<open>Shared theories.\<close>
  \<^item> \<open>Prelude\<close>: maps and the locale \<open>go_map\<close>, outcomes, time units, list lemmas, the collections.
  \<^item> \<open>GoLib\<close>, \<open>GoNet\<close>, \<open>GoHttp\<close>: what the code uses of strings, strconv, Base64, IP addresses, CIDR
    prefixes, URL decoding and the request multiplexer of the standard library.
  \<^item> \<open>Files\<close>: the file system with a schedule of faults and a history of contents, and
    \<^verbatim>\<open>fsutil/atomic.go\<close>; the locale \<open>atomic_dir\<close> is what a client may rely on.
  \<^item> \<open>KeyedTable\<close>: the reconciliation loop that the bridge components share, in the locales
    \<open>keyed_table\<close> and \<open>strict_table\<close>, interpreted by the relay, ingress, site-to-site and user access.

  \<^bold>\<open>Control plane connection.\<close>
  \<^item> \<open>ApiTypes\<close>: the wire types of \<^verbatim>\<open>api/types.go\<close> that make up the desired state.
  \<^item> \<open>EventVerifier\<close>: \<^verbatim>\<open>api/envelope.go\<close>, \<^verbatim>\<open>api/verifier.go\<close>; exactly when an envelope is accepted, and
    that it is not accepted twice.
  \<^item> \<open>SseStream\<close>: \<^verbatim>\<open>api/sse.go\<close>, \<^verbatim>\<open>api/dispatcher.go\<close>; printing and parsing of events, and what a
    connection dispatches, for every verifier that meets the locale \<open>event_verifier\<close>.
  \<^item> \<open>Reconnect\<close>: \<^verbatim>\<open>api/errors.go\<close>, \<^verbatim>\<open>api/reconnect.go\<close>; bounds of the back-off and when the engine gives up.
  \<^item> \<open>Registration\<close>: \<^verbatim>\<open>registration\<close>; termination of the retries and the round trip of the identity.
  \<^item> \<open>Reconcile\<close>: \<^verbatim>\<open>reconcile\<close>; the difference, one cycle, convergence, and triggers as a step relation.

  \<^bold>\<open>Network.\<close>
  \<^item> \<open>WireGuard\<close>, \<open>Policy\<close>, \<open>Nftables\<close>: \<^verbatim>\<open>wireguard\<close>, \<^verbatim>\<open>policy\<close>; convergence of the peers, visibility of
    peers, and that the installed rules decide packets as the policy says.
  \<^item> \<open>Stun\<close>, \<open>NatTraversal\<close>: \<^verbatim>\<open>nat\<close>, \<^verbatim>\<open>peerexchange\<close>; the codec and the classification of the NAT.
  \<^item> \<open>Relay\<close>, \<open>Bridge\<close>, \<open>SiteToSite\<close>, \<open>Ingress\<close>, \<open>UserAccess\<close>: \<^verbatim>\<open>bridge\<close>; reachable states of the
    relay, routes, and convergence of the tables.
  \<^item> \<open>Tunnel\<close>: \<^verbatim>\<open>tunnel\<close>; sessions as a step relation with their invariants.

  \<^bold>\<open>Local services.\<close>
  \<^item> \<open>StateCache\<close>, \<open>ReportSync\<close>, \<open>NodeApi\<close>: \<^verbatim>\<open>nodeapi\<close>; durability and optimistic locking of reports,
    conservation and delivery of changes, and what a request can reach.
  \<^item> \<open>Integrity\<close>, \<open>Actions\<close>: \<^verbatim>\<open>integrity\<close>, \<^verbatim>\<open>actions\<close>; reporting of tampering, accounting of executions,
    that only verified hooks run, and the limit of their output.
  \<^item> \<open>Forwarding\<close>: \<^verbatim>\<open>logfwd\<close>, \<^verbatim>\<open>auditfwd\<close>, \<^verbatim>\<open>metrics\<close>; bounds, order and delivery of the records.
  \<^item> \<open>Kubernetes\<close>: \<^verbatim>\<open>kubernetes\<close>; the guard of token reviews, tailing of the audit log, and the secrets of
    the custom resource.
  \<^item> \<open>Agent\<close>: \<^verbatim>\<open>agent\<close>, \<^verbatim>\<open>api/config.go\<close>, \<^verbatim>\<open>packaging/defaultconfig.go\<close> and the handlers of \<^verbatim>\<open>up.go\<close>; the
    composition of configuration, verifier, reconciler, registrar and forwarders.

  \<^bold>\<open>Loops.\<close>  No fuel is used.  Loops that may run forever are partial functions into \<open>option\<close>: the
  reconnect engine and its polling fallback, the retries of the registration, and the flush of a
  forwarder.  That they return is proved where the code promises it: the retries under a clock that
  advances, the flush for a batch size of at least one.  Loops that wait for ticks or events are
  functions of the finite sequence that arrives before the context is done.

  \<^bold>\<open>Bounds.\<close>  The forwarders are treated for batch sizes below 2^62, since above that the doubled size
  overflows and the code panics (\<open>huge_batch_panics\<close>).  Lines of the audit log are below 64 KiB, the
  limit of the scanner (\<open>long_line_stuck\<close>).

  \<^bold>\<open>Not modelled.\<close>  The commands other than \<^verbatim>\<open>up\<close>, and of \<^verbatim>\<open>up\<close> the start-up sequence, goroutines and
  drain: flags, printing and process control.  \<^verbatim>\<open>api/client.go\<close> and \<^verbatim>\<open>api/endpoints.go\<close>: one HTTP request
  per endpoint, which the components take as a parameter.  \<^verbatim>\<open>api/manager.go\<close>: it only connects stream and
  engine.  The installer of \<^verbatim>\<open>packaging\<close>: copying of files and calls of systemctl.  The copying of bytes
  between sockets in the ingress and the proxying of Kubernetes requests, which the standard library
  does, and the construction of TLS clients.  Logging is left out throughout.
\<close>

end
